(* ===== verification/Prelude.thy ===== *)
theory Prelude
  imports Main "HOL-Library.Word"
begin

text \<open>
  Shared ground of the development: the machine integer types of the Rust
  sources, the ways in which the hypervisor stops (\<open>abort\<close>), the result type
  that carries them, the overflow-checked arithmetic of the debug profile (the
  Makefile builds with \<^verbatim>\<open>MODE := debug\<close> and plain \<^verbatim>\<open>cargo build\<close>, so that an
  overflowing \<open>+\<close>, \<open>-\<close> or \<open>*\<close> on \<open>usize\<close> panics), and the generic lemmas the
  components use.
\<close>

unbundle bit_operations_syntax

section \<open>Machine integers\<close>

type_synonym u8 = "8 word"
type_synonym u16 = "16 word"
type_synonym u32 = "32 word"
type_synonym u64 = "64 word"
type_synonym usize = "64 word"

named_theorems usize_arith \<open>facts that move a usize expression to nat\<close>
named_theorems result_simps \<open>unfolding of the result combinators\<close>

section \<open>Aborts and results\<close>

text \<open>
  A panic of the sources prints a message and shuts the machine down
  (\<^verbatim>\<open>lang_items.rs\<close>); the message is dropped and the reason kept. \<open>Deadlock\<close> is
  not a panic: a spin lock is taken twice by the only hart and the code never
  returns.
\<close>

datatype abort =
    Overflow           \<comment> \<open>checked arithmetic of the debug profile\<close>
  | UnwrapNone         \<comment> \<open>\<open>Option::unwrap\<close> on \<open>None\<close>\<close>
  | UnwrapErr          \<comment> \<open>\<open>Result::unwrap\<close> on \<open>Err\<close>\<close>
  | AssertFailed       \<comment> \<open>\<open>assert!\<close> and \<open>assert_eq!\<close>\<close>
  | ExplicitPanic      \<comment> \<open>\<open>panic!\<close>\<close>
  | IndexOutOfBounds   \<comment> \<open>slice and array indexing\<close>
  | CapacityExceeded   \<comment> \<open>\<open>ArrayVec::push\<close> on a full vector\<close>
  | Unreachable        \<comment> \<open>\<open>unreachable!\<close>\<close>
  | NotYetImplemented  \<comment> \<open>\<open>todo!\<close>\<close>
  | WildAccess         \<comment> \<open>a raw access outside the object it was made for, or of an unmapped address\<close>
  | Deadlock           \<comment> \<open>a second \<open>lock\<close> of a spin mutex that is held\<close>

type_synonym 'a result = "abort + 'a"

definition bindR :: "'a result \<Rightarrow> ('a \<Rightarrow> 'b result) \<Rightarrow> 'b result" where
  "bindR r f = (case r of Inl e \<Rightarrow> Inl e | Inr x \<Rightarrow> f x)"

definition unwrap :: "'a option \<Rightarrow> 'a result" where
  "unwrap x = (case x of None \<Rightarrow> Inl UnwrapNone | Some y \<Rightarrow> Inr y)"

definition assertR :: "bool \<Rightarrow> unit result" where
  "assertR b = (if b then Inr () else Inl AssertFailed)"

lemma bindR_Inr [simp]: "bindR (Inr x) f = f x"
  by (simp add: bindR_def)

lemma bindR_Inl [simp]: "bindR (Inl e) f = Inl e"
  by (simp add: bindR_def)

lemma bindR_assoc: "bindR (bindR r f) g = bindR r (\<lambda>x. bindR (f x) g)"
  by (cases r) simp_all

lemma bindR_eq_Inr [result_simps]:
  "bindR r f = Inr y \<longleftrightarrow> (\<exists>x. r = Inr x \<and> f x = Inr y)"
  by (cases r) simp_all

lemma bindR_InrE [elim!]:
  assumes "bindR r f = Inr y"
  obtains x where "r = Inr x" "f x = Inr y"
  using assms by (cases r) simp_all

lemma bindR_cong [fundef_cong]:
  "r = r' \<Longrightarrow> (\<And>x. r' = Inr x \<Longrightarrow> f x = g x) \<Longrightarrow> bindR r f = bindR r' g"
  by (cases r') auto

lemma unwrap_simps [simp]: "unwrap None = Inl UnwrapNone" "unwrap (Some x) = Inr x"
  by (simp_all add: unwrap_def)

lemma unwrap_eq_Inr [result_simps]: "unwrap x = Inr y \<longleftrightarrow> x = Some y"
  by (cases x) simp_all

lemma assertR_simps [simp]: "assertR True = Inr ()" "assertR False = Inl AssertFailed"
  by (simp_all add: assertR_def)

lemma assertR_eq_Inr [result_simps]: "assertR b = Inr u \<longleftrightarrow> b"
  by (cases b) simp_all

text \<open>A loop over a list that stops at the first abort.\<close>

primrec foldR :: "('a \<Rightarrow> 's \<Rightarrow> 's result) \<Rightarrow> 'a list \<Rightarrow> 's \<Rightarrow> 's result" where
  "foldR f [] s = Inr s"
| "foldR f (x # xs) s = bindR (f x s) (foldR f xs)"

lemma foldR_append: "foldR f (xs @ ys) s = bindR (foldR f xs s) (foldR f ys)"
proof (induction xs arbitrary: s)
  case (Cons x xs)
  then show ?case by (cases "f x s") simp_all
qed simp

text \<open>An invariant of every step that succeeds is an invariant of the loop.\<close>

lemma foldR_inv:
  assumes "foldR f xs s = Inr t" "P s"
    and "\<And>x u v. x \<in> set xs \<Longrightarrow> P u \<Longrightarrow> f x u = Inr v \<Longrightarrow> P v"
  shows "P t"
  using assms by (induction xs arbitrary: s) (auto elim!: bindR_InrE)

section \<open>Checked arithmetic on \<open>usize\<close>\<close>

definition checked_add :: "usize \<Rightarrow> usize \<Rightarrow> usize result" where
  "checked_add a b = (if unat a + unat b < 2 ^ 64 then Inr (a + b) else Inl Overflow)"

definition checked_sub :: "usize \<Rightarrow> usize \<Rightarrow> usize result" where
  "checked_sub a b = (if b \<le> a then Inr (a - b) else Inl Overflow)"

definition checked_mul :: "usize \<Rightarrow> usize \<Rightarrow> usize result" where
  "checked_mul a b = (if unat a * unat b < 2 ^ 64 then Inr (a * b) else Inl Overflow)"

lemma checked_add_eq_Inr [result_simps]:
  "checked_add a b = Inr c \<longleftrightarrow> unat a + unat b < 2 ^ 64 \<and> c = a + b"
  by (auto simp: checked_add_def)

lemma checked_sub_eq_Inr [result_simps]:
  "checked_sub a b = Inr c \<longleftrightarrow> b \<le> a \<and> c = a - b"
  by (auto simp: checked_sub_def)

lemma checked_mul_eq_Inr [result_simps]:
  "checked_mul a b = Inr c \<longleftrightarrow> unat a * unat b < 2 ^ 64 \<and> c = a * b"
  by (auto simp: checked_mul_def)

text \<open>A checked operation that succeeds computes the mathematical value.\<close>

lemma unat_add_no_wrap [usize_arith]:
  "unat (a::usize) + unat b < 2 ^ 64 \<Longrightarrow> unat (a + b) = unat a + unat b"
  by (simp add: unat_word_ariths)

lemma unat_sub_no_wrap [usize_arith]:
  "(b::usize) \<le> a \<Longrightarrow> unat (a - b) = unat a - unat b"
  by (simp add: unat_sub)

lemma unat_mul_no_wrap [usize_arith]:
  "unat (a::usize) * unat b < 2 ^ 64 \<Longrightarrow> unat (a * b) = unat a * unat b"
  by (simp add: unat_word_ariths)

lemma unat_lt_64 [simp]: "unat (a::usize) < 18446744073709551616"
  using unsigned_less [of a] by simp

lemma usize_eq_iff_unat: "(a::usize) = b \<longleftrightarrow> unat a = unat b"
  by (simp add: word_unat_eq_iff)

lemma word_of_nat_unat [simp]: "word_of_nat (unat (w::usize)) = w"
  by (simp add: usize_eq_iff_unat unsigned_of_nat take_bit_nat_eq_self)

lemma unat_word_of_nat_usize: "n < 2 ^ 64 \<Longrightarrow> unat (word_of_nat n :: usize) = n"
  by (simp add: unsigned_of_nat take_bit_nat_eq_self)

section \<open>Masks, shifts and their values\<close>

lemma unat_and_mask:
  "unat ((w::usize) AND mask n) = unat w mod 2 ^ n"
  by (simp add: unsigned_take_bit_eq flip: take_bit_eq_mask take_bit_eq_mod)

lemma unat_drop_bit [usize_arith]:
  "unat (drop_bit n (w::usize)) = unat w div 2 ^ n"
  by (simp only: unat_drop_bit_eq) (simp only: drop_bit_eq_div)

lemma unat_push_bit:
  "unat (w::usize) * 2 ^ n < 2 ^ 64 \<Longrightarrow> unat (push_bit n w) = unat w * 2 ^ n"
  by (simp only: unsigned_push_bit_eq) (simp add: push_bit_eq_mult take_bit_nat_eq_self)

lemma push_one_minus_one: "push_bit n (1::usize) - 1 = mask n"
  by (simp add: mask_eq_exp_minus_1)

lemma mask_numerals:
  "(511::usize) = mask 9" "(0xfff::usize) = mask 12" "(0x1fffff::usize) = mask 21"
  "(0x3fffffff::usize) = mask 30" "(0x3ff::usize) = mask 10"
  by (simp_all add: mask_eq_exp_minus_1)

lemma unat_and_511 [usize_arith]: "unat ((w::usize) AND 511) = unat w mod 512"
  by (simp only: mask_numerals unat_and_mask) simp

lemma unat_and_4095 [usize_arith]: "unat ((w::usize) AND 0xfff) = unat w mod 4096"
  by (simp only: mask_numerals unat_and_mask) simp

end
