(* ===== verification/Constants.thy ===== *)
theory Constants
  imports Prelude
begin

text \<open>
  The constants of \<^verbatim>\<open>src/constants.rs\<close> that the other components use: page and
  stack sizes, the memory layout, the delegation bits of \<^verbatim>\<open>hedeleg\<close> and
  \<^verbatim>\<open>hideleg\<close>, and the index type of the general purpose registers with the
  register file operations.
\<close>

section \<open>Sizes\<close>

definition PAGE_SIZE :: usize where [simp]: "PAGE_SIZE = 0x1000"
definition PAGE_SIZE_BITS :: nat where [simp]: "PAGE_SIZE_BITS = 0xc"
definition USER_STACK_SIZE :: usize where [simp]: "USER_STACK_SIZE = 4096 * 2"
definition KERNEL_STACK_SIZE :: usize where [simp]: "KERNEL_STACK_SIZE = 4096 * 4"
definition KERNEL_HEAP_SIZE :: usize where [simp]: "KERNEL_HEAP_SIZE = 0x300000"
definition MAX_GUESTS :: usize where [simp]: "MAX_GUESTS = 4"
definition MAX_GUEST_HARTS :: usize where [simp]: "MAX_GUEST_HARTS = 16"
definition MAX_CONTEXTS :: usize where [simp]: "MAX_CONTEXTS = 16 * 2"

section \<open>Memory layout\<close>

definition MEMORY_START :: usize where [simp]: "MEMORY_START = 0x80000000"
definition MEMORY_END :: usize where [simp]: "MEMORY_END = 0x88000000"
definition TRAMPOLINE :: usize where [simp]: "TRAMPOLINE = (-1) - PAGE_SIZE + 1"
definition TRAP_CONTEXT :: usize where [simp]: "TRAP_CONTEXT = TRAMPOLINE - PAGE_SIZE"
definition GUEST_START_PA :: usize where [simp]: "GUEST_START_PA = 0x90200000"
definition GUEST_START_VA :: usize where [simp]: "GUEST_START_VA = 0x90200000"
definition GUEST_DEFAULT_SIZE :: usize where [simp]: "GUEST_DEFAULT_SIZE = 128 * 1024 * 1024"
definition GUEST_DTB_ADDR :: usize where [simp]: "GUEST_DTB_ADDR = 0x90000000"

text \<open>\<^verbatim>\<open>src/boards/qemu.rs\<close>.\<close>

definition CLOCK_FREQ :: usize where "CLOCK_FREQ = 12500000"

definition MMIO :: "(usize \<times> usize) list" where
  "MMIO = [(0x00100000, 0x002000), (0x10001000, 0x001000)]"

section \<open>Delegation and pending bits\<close>

text \<open>Module \<^verbatim>\<open>csr::hedeleg\<close>.\<close>

definition INST_ADDR_MISALIGN :: usize where "INST_ADDR_MISALIGN = push_bit 0 1"
definition INST_ACCESSS_FAULT :: usize where "INST_ACCESSS_FAULT = push_bit 1 1"
definition ILLEGAL_INST :: usize where "ILLEGAL_INST = push_bit 2 1"
definition BREAKPOINT :: usize where "BREAKPOINT = push_bit 3 1"
definition LOAD_ADDR_MISALIGNED :: usize where "LOAD_ADDR_MISALIGNED = push_bit 4 1"
definition LOAD_ACCESS_FAULT :: usize where "LOAD_ACCESS_FAULT = push_bit 5 1"
definition STORE_ADDR_MISALIGNED :: usize where "STORE_ADDR_MISALIGNED = push_bit 6 1"
definition STORE_ACCESS_FAULT :: usize where "STORE_ACCESS_FAULT = push_bit 7 1"
definition ENV_CALL_FROM_U_OR_VU :: usize where "ENV_CALL_FROM_U_OR_VU = push_bit 8 1"
definition ENV_CALL_FROM_HS :: usize where "ENV_CALL_FROM_HS = push_bit 9 1"
definition ENV_CALL_FROM_VS :: usize where "ENV_CALL_FROM_VS = push_bit 10 1"
definition ENV_CALL_FROM_M :: usize where "ENV_CALL_FROM_M = push_bit 11 1"
definition INST_PAGE_FAULT :: usize where "INST_PAGE_FAULT = push_bit 12 1"
definition LOAD_PAGE_FAULT :: usize where "LOAD_PAGE_FAULT = push_bit 13 1"
definition STORE_PAGE_FAULT :: usize where "STORE_PAGE_FAULT = push_bit 15 1"
definition INST_GUEST_PAGE_FAULT :: usize where "INST_GUEST_PAGE_FAULT = push_bit 20 1"
definition LOAD_GUEST_PAGE_FAULT :: usize where "LOAD_GUEST_PAGE_FAULT = push_bit 21 1"
definition VIRTUAL_INST :: usize where "VIRTUAL_INST = push_bit 22 1"
definition STORE_GUEST_PAGE_FAULT :: usize where "STORE_GUEST_PAGE_FAULT = push_bit 23 1"

lemmas hedeleg_defs =
  INST_ADDR_MISALIGN_def INST_ACCESSS_FAULT_def ILLEGAL_INST_def
  BREAKPOINT_def LOAD_ADDR_MISALIGNED_def LOAD_ACCESS_FAULT_def
  STORE_ADDR_MISALIGNED_def STORE_ACCESS_FAULT_def ENV_CALL_FROM_U_OR_VU_def
  ENV_CALL_FROM_HS_def ENV_CALL_FROM_VS_def ENV_CALL_FROM_M_def
  INST_PAGE_FAULT_def LOAD_PAGE_FAULT_def STORE_PAGE_FAULT_def
  INST_GUEST_PAGE_FAULT_def LOAD_GUEST_PAGE_FAULT_def VIRTUAL_INST_def
  STORE_GUEST_PAGE_FAULT_def

text \<open>Modules \<^verbatim>\<open>csr::hideleg\<close> and \<^verbatim>\<open>csr::sip\<close>; \<open>hvip\<close> and \<open>sie\<close> have the same positions.\<close>

definition VSSIP :: usize where "VSSIP = push_bit 2 1"
definition VSTIP :: usize where "VSTIP = push_bit 6 1"
definition VSEIP :: usize where "VSEIP = push_bit 10 1"
definition SSIP :: usize where "SSIP = push_bit 1 1"
definition STIP :: usize where "STIP = push_bit 5 1"
definition SEIP :: usize where "SEIP = push_bit 9 1"

lemmas pending_defs = VSSIP_def VSTIP_def VSEIP_def SSIP_def STIP_def SEIP_def

end
