(* ===== verification/Address.thy ===== *)
theory Address
  imports Constants
begin

text \<open>
  \<^verbatim>\<open>src/page_table/address.rs\<close>: physical and virtual addresses and page numbers,
  their conversions, the three page-table indexes of a virtual page number, and
  the ranges of page numbers that the map areas iterate over. The newtypes of
  the source are datatypes with one constructor; \<open>.0\<close> is the selector.
\<close>

section \<open>The four newtypes\<close>

datatype PhysAddr = PhysAddr (pa_0: usize)
datatype VirtAddr = VirtAddr (va_0: usize)
datatype PhysPageNum = PhysPageNum (ppn_0: usize)
datatype VirtPageNum = VirtPageNum (vpn_0: usize)

lemma newtype_inject [simp]:
  "pa_0 a = pa_0 b \<longleftrightarrow> a = b" "va_0 c = va_0 d \<longleftrightarrow> c = d"
  "ppn_0 p = ppn_0 q \<longleftrightarrow> p = q" "vpn_0 v = vpn_0 w \<longleftrightarrow> v = w"
  by (auto intro: PhysAddr.expand VirtAddr.expand PhysPageNum.expand VirtPageNum.expand)

lemma unat_newtype_inject [simp]:
  "unat (ppn_0 p) = unat (ppn_0 q) \<longleftrightarrow> p = q" "unat (vpn_0 v) = unat (vpn_0 w) \<longleftrightarrow> v = w"
  by (simp_all flip: usize_eq_iff_unat)

text \<open>\<open>#[derive(Ord, PartialOrd)]\<close> orders a newtype by its field.\<close>

instantiation VirtPageNum :: linorder
begin

definition less_eq_VirtPageNum :: "VirtPageNum \<Rightarrow> VirtPageNum \<Rightarrow> bool" where
  "less_eq_VirtPageNum a b \<longleftrightarrow> vpn_0 a \<le> vpn_0 b"

definition less_VirtPageNum :: "VirtPageNum \<Rightarrow> VirtPageNum \<Rightarrow> bool" where
  "less_VirtPageNum a b \<longleftrightarrow> vpn_0 a < vpn_0 b"

instance
  by standard
    (auto simp: less_eq_VirtPageNum_def less_VirtPageNum_def less_le)

end

instantiation PhysPageNum :: linorder
begin

definition less_eq_PhysPageNum :: "PhysPageNum \<Rightarrow> PhysPageNum \<Rightarrow> bool" where
  "less_eq_PhysPageNum a b \<longleftrightarrow> ppn_0 a \<le> ppn_0 b"

definition less_PhysPageNum :: "PhysPageNum \<Rightarrow> PhysPageNum \<Rightarrow> bool" where
  "less_PhysPageNum a b \<longleftrightarrow> ppn_0 a < ppn_0 b"

instance
  by standard
    (auto simp: less_eq_PhysPageNum_def less_PhysPageNum_def less_le)

end

section \<open>Conversions\<close>

definition PA_WIDTH_SV39 :: nat where [simp]: "PA_WIDTH_SV39 = 56"
definition VA_WIDTH_SV39 :: nat where [simp]: "VA_WIDTH_SV39 = 39"
definition PPN_WIDTH_SV39 :: nat where [simp]: "PPN_WIDTH_SV39 = PA_WIDTH_SV39 - PAGE_SIZE_BITS"
definition VPN_WIDTH_SV39 :: nat where [simp]: "VPN_WIDTH_SV39 = VA_WIDTH_SV39 - PAGE_SIZE_BITS"

definition PhysAddr_from :: "usize \<Rightarrow> PhysAddr" where
  "PhysAddr_from v = PhysAddr (v AND (push_bit PA_WIDTH_SV39 1 - 1))"

definition PhysPageNum_from :: "usize \<Rightarrow> PhysPageNum" where
  "PhysPageNum_from v = PhysPageNum (v AND (push_bit PPN_WIDTH_SV39 1 - 1))"

definition VirtAddr_from :: "usize \<Rightarrow> VirtAddr" where
  "VirtAddr_from v = VirtAddr (v AND (push_bit VA_WIDTH_SV39 1 - 1))"

definition VirtPageNum_from :: "usize \<Rightarrow> VirtPageNum" where
  "VirtPageNum_from v = VirtPageNum (v AND (push_bit VPN_WIDTH_SV39 1 - 1))"

definition usize_from_PhysAddr :: "PhysAddr \<Rightarrow> usize" where
  "usize_from_PhysAddr v = pa_0 v"

definition usize_from_PhysPageNum :: "PhysPageNum \<Rightarrow> usize" where
  "usize_from_PhysPageNum v = ppn_0 v"

definition usize_from_VirtPageNum :: "VirtPageNum \<Rightarrow> usize" where
  "usize_from_VirtPageNum v = vpn_0 v"

definition usize_from_VirtAddr :: "VirtAddr \<Rightarrow> usize" where
  "usize_from_VirtAddr v =
     (if va_0 v \<ge> push_bit (VA_WIDTH_SV39 - 1) 1
      then va_0 v OR NOT (push_bit VA_WIDTH_SV39 1 - 1)
      else va_0 v)"

definition VirtAddr_floor :: "VirtAddr \<Rightarrow> VirtPageNum" where
  "VirtAddr_floor v = VirtPageNum (va_0 v div PAGE_SIZE)"

definition VirtAddr_ceil :: "VirtAddr \<Rightarrow> VirtPageNum result" where
  "VirtAddr_ceil v =
     bindR (checked_sub (va_0 v) 1) (\<lambda>x.
     bindR (checked_add x PAGE_SIZE) (\<lambda>y.
     Inr (VirtPageNum (y div PAGE_SIZE))))"

definition VirtAddr_page_offset :: "VirtAddr \<Rightarrow> usize" where
  "VirtAddr_page_offset v = va_0 v AND (PAGE_SIZE - 1)"

definition VirtAddr_aligned :: "VirtAddr \<Rightarrow> bool" where
  "VirtAddr_aligned v \<longleftrightarrow> VirtAddr_page_offset v = 0"

definition VirtPageNum_from_VirtAddr :: "VirtAddr \<Rightarrow> VirtPageNum result" where
  "VirtPageNum_from_VirtAddr v =
     bindR (assertR (VirtAddr_page_offset v = 0)) (\<lambda>_. Inr (VirtAddr_floor v))"

definition VirtAddr_from_VirtPageNum :: "VirtPageNum \<Rightarrow> VirtAddr" where
  "VirtAddr_from_VirtPageNum v = VirtAddr (push_bit PAGE_SIZE_BITS (vpn_0 v))"

definition PhysAddr_floor :: "PhysAddr \<Rightarrow> PhysPageNum" where
  "PhysAddr_floor v = PhysPageNum (pa_0 v div PAGE_SIZE)"

definition PhysAddr_ceil :: "PhysAddr \<Rightarrow> PhysPageNum result" where
  "PhysAddr_ceil v =
     bindR (checked_sub (pa_0 v) 1) (\<lambda>x.
     bindR (checked_add x PAGE_SIZE) (\<lambda>y.
     Inr (PhysPageNum (y div PAGE_SIZE))))"

definition PhysAddr_page_offset :: "PhysAddr \<Rightarrow> usize" where
  "PhysAddr_page_offset v = pa_0 v AND (PAGE_SIZE - 1)"

definition PhysAddr_aligned :: "PhysAddr \<Rightarrow> bool" where
  "PhysAddr_aligned v \<longleftrightarrow> PhysAddr_page_offset v = 0"

definition PhysPageNum_from_PhysAddr :: "PhysAddr \<Rightarrow> PhysPageNum result" where
  "PhysPageNum_from_PhysAddr v =
     bindR (assertR (PhysAddr_page_offset v = 0)) (\<lambda>_. Inr (PhysAddr_floor v))"

definition PhysAddr_from_PhysPageNum :: "PhysPageNum \<Rightarrow> PhysAddr" where
  "PhysAddr_from_PhysPageNum v = PhysAddr (push_bit PAGE_SIZE_BITS (ppn_0 v))"

text \<open>
  The loop of \<open>VirtPageNum::indexes\<close> runs over \<open>2, 1, 0\<close>: it writes \<open>idx[i]\<close>
  and shifts the page number by nine bits.
\<close>

fun indexes_loop :: "nat list \<Rightarrow> usize \<Rightarrow> usize list \<Rightarrow> usize list" where
  "indexes_loop [] vpn idx = idx"
| "indexes_loop (i # is) vpn idx = indexes_loop is (drop_bit 9 vpn) (idx[i := vpn AND 511])"

definition indexes :: "VirtPageNum \<Rightarrow> usize list" where
  "indexes v = indexes_loop (rev [0..<3]) (vpn_0 v) [0, 0, 0]"

section \<open>Ranges\<close>

definition VirtPageNum_step :: "VirtPageNum \<Rightarrow> VirtPageNum result" where
  "VirtPageNum_step v = bindR (checked_add (vpn_0 v) 1) (\<lambda>x. Inr (VirtPageNum x))"

definition PhysPageNum_step :: "PhysPageNum \<Rightarrow> PhysPageNum result" where
  "PhysPageNum_step v = bindR (checked_add (ppn_0 v) 1) (\<lambda>x. Inr (PhysPageNum x))"

record 'a SimpleRange =
  range_l :: 'a
  range_r :: 'a

definition SimpleRange_new :: "'a::linorder \<Rightarrow> 'a \<Rightarrow> 'a SimpleRange result" where
  "SimpleRange_new start end' =
     bindR (assertR (start \<le> end')) (\<lambda>_. Inr \<lparr>range_l = start, range_r = end'\<rparr>)"

definition get_start :: "'a SimpleRange \<Rightarrow> 'a" where
  "get_start r = range_l r"

definition get_end :: "'a SimpleRange \<Rightarrow> 'a" where
  "get_end r = range_r r"

record 'a SimpleRangeIterator =
  it_current :: 'a
  it_end :: 'a

definition SimpleRangeIterator_new :: "'a \<Rightarrow> 'a \<Rightarrow> 'a SimpleRangeIterator" where
  "SimpleRangeIterator_new l r = \<lparr>it_current = l, it_end = r\<rparr>"

definition into_iter :: "'a SimpleRange \<Rightarrow> 'a SimpleRangeIterator" where
  "into_iter r = SimpleRangeIterator_new (range_l r) (range_r r)"

text \<open>\<open>Iterator::next\<close>, with the \<open>step\<close> of the element type as an argument.\<close>

definition SimpleRangeIterator_next ::
  "('a \<Rightarrow> 'a result) \<Rightarrow> 'a SimpleRangeIterator \<Rightarrow> ('a option \<times> 'a SimpleRangeIterator) result" where
  "SimpleRangeIterator_next step it =
     (if it_current it = it_end it then Inr (None, it)
      else let t = it_current it in
        bindR (step (it_current it)) (\<lambda>c. Inr (Some t, it\<lparr>it_current := c\<rparr>)))"

text \<open>
  \<open>for vpn in range { body }\<close>: the compiler turns the loop into calls of \<open>next\<close>
  until it returns \<open>None\<close>. The checked \<open>step\<close> makes the loop end: either the
  current page number grows or the loop aborts.
\<close>

function for_vpn ::
  "VirtPageNum SimpleRangeIterator \<Rightarrow> (VirtPageNum \<Rightarrow> 's \<Rightarrow> 's result) \<Rightarrow> 's \<Rightarrow> 's result" where
  "for_vpn it body s =
     bindR (SimpleRangeIterator_next VirtPageNum_step it) (\<lambda>(t, it').
       case t of None \<Rightarrow> Inr s
       | Some vpn \<Rightarrow> bindR (body vpn s) (for_vpn it' body))"
  by pat_completeness auto
termination
proof (relation "measure (\<lambda>(it, body, s). 2 ^ 64 - unat (vpn_0 (it_current it)))", goal_cases)
  case (2 it body s x t it' vpn s')
  then have "unat (vpn_0 (it_current it')) = Suc (unat (vpn_0 (it_current it)))"
    by (auto simp: SimpleRangeIterator_next_def VirtPageNum_step_def Let_def result_simps
        unat_add_no_wrap split: if_splits)
  then show ?case
    using unat_lt_64 [of "vpn_0 (it_current it)"] by (simp del: unat_lt_64)
qed simp

declare for_vpn.simps [simp del]

section \<open>Conversions: values and bounds\<close>

text \<open>
  \<open>vpn_ok\<close> and \<open>ppn_ok\<close> are the widths that \<open>From<usize>\<close> enforces: 27 bits of
  virtual and 44 bits of physical page number.
\<close>

definition vpn_ok :: "VirtPageNum \<Rightarrow> bool" where
  "vpn_ok v \<longleftrightarrow> unat (vpn_0 v) < 2 ^ 27"

definition ppn_ok :: "PhysPageNum \<Rightarrow> bool" where
  "ppn_ok p \<longleftrightarrow> unat (ppn_0 p) < 2 ^ 44"

lemma unat_PhysAddr_from: "unat (pa_0 (PhysAddr_from v)) = unat v mod 2 ^ 56"
  by (simp add: PhysAddr_from_def push_one_minus_one unat_and_mask del: push_bit_of_1)

lemma unat_PhysPageNum_from: "unat (ppn_0 (PhysPageNum_from v)) = unat v mod 2 ^ 44"
  by (simp add: PhysPageNum_from_def push_one_minus_one unat_and_mask del: push_bit_of_1)

lemma unat_VirtAddr_from: "unat (va_0 (VirtAddr_from v)) = unat v mod 2 ^ 39"
  by (simp add: VirtAddr_from_def push_one_minus_one unat_and_mask del: push_bit_of_1)

lemma unat_VirtPageNum_from: "unat (vpn_0 (VirtPageNum_from v)) = unat v mod 2 ^ 27"
  by (simp add: VirtPageNum_from_def push_one_minus_one unat_and_mask del: push_bit_of_1)

lemma ppn_ok_from [simp]: "ppn_ok (PhysPageNum_from v)"
  by (simp add: ppn_ok_def unat_PhysPageNum_from)

lemma vpn_ok_from [simp]: "vpn_ok (VirtPageNum_from v)"
  by (simp add: vpn_ok_def unat_VirtPageNum_from)

lemma PhysPageNum_from_id: "ppn_ok p \<Longrightarrow> PhysPageNum_from (ppn_0 p) = p"
  by (rule PhysPageNum.expand)
     (simp add: usize_eq_iff_unat unat_PhysPageNum_from ppn_ok_def)

lemma VirtPageNum_from_id: "vpn_ok v \<Longrightarrow> VirtPageNum_from (vpn_0 v) = v"
  by (rule VirtPageNum.expand)
     (simp add: usize_eq_iff_unat unat_VirtPageNum_from vpn_ok_def)

lemma unat_VirtAddr_floor: "unat (vpn_0 (VirtAddr_floor v)) = unat (va_0 v) div 4096"
  by (simp add: VirtAddr_floor_def unat_div)

lemma unat_PhysAddr_floor: "unat (ppn_0 (PhysAddr_floor v)) = unat (pa_0 v) div 4096"
  by (simp add: PhysAddr_floor_def unat_div)

lemma page_ceil_value:
  assumes "1 \<le> unat (a::usize)" "unat a \<le> 2 ^ 64 - 4096"
  shows "bindR (checked_sub a 1) (\<lambda>x. bindR (checked_add x 0x1000) (\<lambda>y. Inr (f (y div 0x1000)))) =
         Inr (f (word_of_nat ((unat a + 4095) div 4096)))"
proof -
  have le: "1 \<le> a" using assms(1) by (simp add: word_le_nat_alt)
  have sub: "unat (a - 1) = unat a - 1" using le by (simp add: unat_sub)
  have nowrap: "unat (a - 1) + unat (0x1000::usize) < 2 ^ 64"
    using assms sub by simp
  have "unat ((a - 1 + 0x1000) div 0x1000) = (unat a + 4095) div 4096"
    using unat_add_no_wrap [OF nowrap] assms(1) sub by (simp only: unat_div) simp
  then have "(a - 1 + 0x1000) div 0x1000 = word_of_nat ((unat a + 4095) div 4096)"
    by (metis word_of_nat_unat)
  with le nowrap show ?thesis by (simp add: checked_sub_def checked_add_def)
qed

lemma VirtAddr_ceil_value:
  "1 \<le> unat a \<Longrightarrow> unat a \<le> 2 ^ 64 - 4096 \<Longrightarrow>
   VirtAddr_ceil (VirtAddr a) = Inr (VirtPageNum (word_of_nat ((unat a + 4095) div 4096)))"
  by (simp add: VirtAddr_ceil_def page_ceil_value)

lemma PhysAddr_ceil_value:
  "1 \<le> unat a \<Longrightarrow> unat a \<le> 2 ^ 64 - 4096 \<Longrightarrow>
   PhysAddr_ceil (PhysAddr a) = Inr (PhysPageNum (word_of_nat ((unat a + 4095) div 4096)))"
  by (simp add: PhysAddr_ceil_def page_ceil_value)

text \<open>Address and page-number conversions are inverse on their ranges.\<close>

lemma VirtAddr_sign_extend_roundtrip:
  "unat (va_0 v) < 2 ^ 39 \<Longrightarrow> VirtAddr_from (usize_from_VirtAddr v) = v"
proof (rule VirtAddr.expand, rule bit_word_eqI)
  fix n :: nat
  assume lt: "unat (va_0 v) < 2 ^ 39" and n: "n < LENGTH(64)"
  have "take_bit 39 (va_0 v) = va_0 v"
    using lt by (simp add: usize_eq_iff_unat unsigned_take_bit_eq take_bit_nat_eq_self)
  then have hi: "bit (va_0 v) n \<Longrightarrow> n < 39"
    by (metis bit_take_bit_iff)
  show "bit (va_0 (VirtAddr_from (usize_from_VirtAddr v))) n = bit (va_0 v) n"
    using hi n
    by (auto simp: VirtAddr_from_def usize_from_VirtAddr_def push_one_minus_one bit_simps
        simp del: push_bit_of_1)
qed

lemma page_shift_value:
  "unat (w::usize) < 2 ^ 52 \<Longrightarrow> unat (push_bit 12 w) = unat w * 4096"
  by (subst unat_push_bit) simp_all

lemma VirtPageNum_VirtAddr_roundtrip:
  assumes "unat (vpn_0 v) < 2 ^ 52"
  shows "VirtPageNum_from_VirtAddr (VirtAddr_from_VirtPageNum v) = Inr v"
proof -
  have "unat (push_bit 12 (vpn_0 v) AND 0xfff) = 0"
    using assms by (simp add: unat_and_4095 page_shift_value)
  moreover have "VirtAddr_floor (VirtAddr_from_VirtPageNum v) = v"
    using assms by (intro VirtPageNum.expand)
      (simp add: usize_eq_iff_unat unat_VirtAddr_floor VirtAddr_from_VirtPageNum_def page_shift_value)
  ultimately show ?thesis
    by (simp add: VirtPageNum_from_VirtAddr_def VirtAddr_page_offset_def
        VirtAddr_from_VirtPageNum_def usize_eq_iff_unat)
qed

section \<open>The page-table indexes\<close>

lemma indexes_eq:
  "indexes v = [drop_bit 18 (vpn_0 v) AND 511, drop_bit 9 (vpn_0 v) AND 511, vpn_0 v AND 511]"
  by (simp add: indexes_def upt_rec numeral_eq_Suc)

lemma unat_indexes:
  "map unat (indexes v) =
     [unat (vpn_0 v) div 2 ^ 18 mod 512, unat (vpn_0 v) div 512 mod 512, unat (vpn_0 v) mod 512]"
  by (simp add: indexes_eq unat_and_511 unat_drop_bit)

lemma indexes_bounded: "i \<in> set (indexes v) \<Longrightarrow> unat i < 512"
  by (auto simp: indexes_eq unat_and_511)

lemma nat_from_indexes:
  assumes "(n::nat) < 2 ^ 27"
  shows "n = (n div 2 ^ 18 mod 512) * 2 ^ 18 + (n div 512 mod 512) * 512 + n mod 512"
proof -
  have "n div 2 ^ 18 < 512" using assms by (simp add: less_mult_imp_div_less)
  then have top: "n div 2 ^ 18 mod 512 = n div 512 div 512" by (simp add: div_mult2_eq)
  have "n = (n div 512 div 512 * 512 + n div 512 mod 512) * 512 + n mod 512"
    by (simp only: div_mult_mod_eq)
  also have "\<dots> = (n div 512 div 512) * 2 ^ 18 + (n div 512 mod 512) * 512 + n mod 512"
    by (simp only: add_mult_distrib mult.assoc) simp
  finally show ?thesis by (simp only: top)
qed

lemma indexes_inj:
  assumes "vpn_ok v" "vpn_ok w" "indexes v = indexes w"
  shows "v = w"
proof -
  have "map unat (indexes v) = map unat (indexes w)" using assms(3) by simp
  then have "unat (vpn_0 v) = unat (vpn_0 w)"
    using nat_from_indexes [of "unat (vpn_0 v)"] nat_from_indexes [of "unat (vpn_0 w)"] assms(1,2)
    unfolding unat_indexes vpn_ok_def by simp
  then show ?thesis by (intro VirtPageNum.expand) (simp add: usize_eq_iff_unat)
qed

section \<open>Ranges yield every page once\<close>

text \<open>\<open>drain\<close> is the list of the answers of \<open>n\<close> calls of \<open>next\<close>.\<close>

primrec drain :: "('a \<Rightarrow> 'a result) \<Rightarrow> nat \<Rightarrow> 'a SimpleRangeIterator \<Rightarrow> 'a option list result" where
  "drain step 0 it = Inr []"
| "drain step (Suc n) it =
     bindR (SimpleRangeIterator_next step it) (\<lambda>(t, it').
     bindR (drain step n it') (\<lambda>ts. Inr (t # ts)))"

text \<open>
  The contract of the trait \<open>StepByOne\<close> as the ranges use it: \<open>raw\<close> is the number
  under the newtype, and a step adds one to it unless it is the greatest number.
\<close>

locale step_by_one =
  fixes step :: "'a::linorder \<Rightarrow> 'a result"
    and raw :: "'a \<Rightarrow> usize"
  assumes step_next: "unat (raw x) + 1 < 2 ^ 64 \<Longrightarrow> \<exists>y. step x = Inr y \<and> unat (raw y) = unat (raw x) + 1"
    and step_last: "unat (raw x) + 1 = 2 ^ 64 \<Longrightarrow> step x = Inl Overflow"
    and raw_eq: "raw x = raw y \<Longrightarrow> x = y"
    and raw_le: "x \<le> y \<longleftrightarrow> raw x \<le> raw y"
begin

lemma next_end: "SimpleRangeIterator_next step \<lparr>it_current = r, it_end = r\<rparr> =
    Inr (None, \<lparr>it_current = r, it_end = r\<rparr>)"
  by (simp add: SimpleRangeIterator_next_def)

lemma next_before_end:
  assumes "l < r"
  obtains y where "SimpleRangeIterator_next step \<lparr>it_current = l, it_end = r\<rparr> =
      Inr (Some l, \<lparr>it_current = y, it_end = r\<rparr>)"
    and "unat (raw y) = unat (raw l) + 1" "y \<le> r"
proof -
  have lt: "unat (raw l) < unat (raw r)"
    using assms raw_le [of r l] by (auto simp: not_le word_le_nat_alt)
  then have "unat (raw l) + 1 < 2 ^ 64" using unat_lt_64 [of "raw r"] by (simp del: unat_lt_64)
  with step_next obtain y where y: "step l = Inr y" "unat (raw y) = unat (raw l) + 1" by blast
  with lt have "y \<le> r" by (simp add: raw_le word_le_nat_alt)
  moreover have "l \<noteq> r" using assms by simp
  ultimately show thesis using y by (intro that [of y]) (simp_all add: SimpleRangeIterator_next_def)
qed

lemma drain_end: "drain step n \<lparr>it_current = r, it_end = r\<rparr> = Inr (replicate n None)"
  by (induction n) (simp_all add: next_end)

lemma drain_range:
  assumes "l \<le> r"
  shows "\<exists>xs. drain step (unat (raw r) - unat (raw l) + n) \<lparr>it_current = l, it_end = r\<rparr> =
             Inr (map Some xs @ replicate n None) \<and>
           map (\<lambda>x. unat (raw x)) xs = [unat (raw l)..<unat (raw r)]"
  using assms
proof (induction "unat (raw r) - unat (raw l)" arbitrary: l)
  case 0
  then have "raw l = raw r" by (simp add: raw_le word_le_nat_alt usize_eq_iff_unat)
  then have "l = r" by (rule raw_eq)
  then show ?case by (simp add: drain_end)
next
  case (Suc d)
  then have neq: "raw l \<noteq> raw r" by auto
  with Suc.prems have lt: "l < r" by (auto simp: less_le)
  obtain y where y: "SimpleRangeIterator_next step \<lparr>it_current = l, it_end = r\<rparr> =
      Inr (Some l, \<lparr>it_current = y, it_end = r\<rparr>)" "unat (raw y) = unat (raw l) + 1" "y \<le> r"
    using next_before_end [OF lt] by blast
  from y(2) Suc.hyps(2) have d: "d = unat (raw r) - unat (raw y)" by simp
  obtain xs where xs: "drain step (unat (raw r) - unat (raw y) + n) \<lparr>it_current = y, it_end = r\<rparr> =
      Inr (map Some xs @ replicate n None)"
    "map (\<lambda>x. unat (raw x)) xs = [unat (raw y)..<unat (raw r)]"
    using Suc.hyps(1) [OF d y(3)] by blast
  have steps: "unat (raw r) - unat (raw l) + n = Suc (unat (raw r) - unat (raw y) + n)"
    using Suc.hyps(2) d by simp
  have "[unat (raw l)..<unat (raw r)] = unat (raw l) # [unat (raw y)..<unat (raw r)]"
    using Suc.hyps(2) y(2) by (simp add: upt_conv_Cons)
  then show ?case
    using y(1) xs by (intro exI [of _ "l # xs"]) (simp add: steps)
qed

end

lemma VirtPageNum_step_eq:
  "VirtPageNum_step v =
     (if unat (vpn_0 v) + 1 < 2 ^ 64 then Inr (VirtPageNum (vpn_0 v + 1)) else Inl Overflow)"
  by (simp add: VirtPageNum_step_def checked_add_def)

lemma PhysPageNum_step_eq:
  "PhysPageNum_step v =
     (if unat (ppn_0 v) + 1 < 2 ^ 64 then Inr (PhysPageNum (ppn_0 v + 1)) else Inl Overflow)"
  by (simp add: PhysPageNum_step_def checked_add_def)

interpretation vpn_range: step_by_one VirtPageNum_step vpn_0
  by unfold_locales
     (auto simp: VirtPageNum_step_eq unat_add_no_wrap less_eq_VirtPageNum_def)

interpretation ppn_range: step_by_one PhysPageNum_step ppn_0
  by unfold_locales
     (auto simp: PhysPageNum_step_eq unat_add_no_wrap less_eq_PhysPageNum_def)

text \<open>The pages \<open>l, l + 1, \<dots>, r - 1\<close>, and the loop over them.\<close>

definition vpns :: "VirtPageNum \<Rightarrow> VirtPageNum \<Rightarrow> VirtPageNum list" where
  "vpns l r = map (\<lambda>n. VirtPageNum (word_of_nat n)) [unat (vpn_0 l)..<unat (vpn_0 r)]"

lemma vpns_empty: "r \<le> l \<Longrightarrow> vpns l r = []"
  by (simp add: vpns_def less_eq_VirtPageNum_def word_le_nat_alt)

lemma vpns_Cons:
  assumes "l < r" "unat (vpn_0 y) = unat (vpn_0 l) + 1"
  shows "vpns l r = l # vpns y r"
  using assms
  by (simp add: vpns_def less_VirtPageNum_def word_less_nat_alt upt_conv_Cons)

lemma for_vpn_foldR:
  "l \<le> r \<Longrightarrow> for_vpn \<lparr>it_current = l, it_end = r\<rparr> body s = foldR body (vpns l r) s"
proof (induction "unat (vpn_0 r) - unat (vpn_0 l)" arbitrary: l s)
  case 0
  then have "l = r"
    by (intro VirtPageNum.expand) (simp add: less_eq_VirtPageNum_def word_le_nat_alt usize_eq_iff_unat)
  then show ?case by (subst for_vpn.simps) (simp add: vpn_range.next_end vpns_empty)
next
  case (Suc d)
  then have lt: "l < r" by (auto simp: less_le)
  obtain y where y: "SimpleRangeIterator_next VirtPageNum_step \<lparr>it_current = l, it_end = r\<rparr> =
      Inr (Some l, \<lparr>it_current = y, it_end = r\<rparr>)" "unat (vpn_0 y) = unat (vpn_0 l) + 1" "y \<le> r"
    using vpn_range.next_before_end [OF lt] by blast
  have "for_vpn \<lparr>it_current = y, it_end = r\<rparr> body = foldR body (vpns y r)"
    using Suc.hyps(1) [OF _ y(3)] Suc.hyps(2) y(2) by (intro ext) simp
  then show ?case by (subst for_vpn.simps) (simp add: y(1) vpns_Cons [OF lt y(2)])
qed

end
