(* ===== verification/Phys_Memory.thy ===== *)
theory Phys_Memory
  imports Address
begin

text \<open>
  Physical memory as the sources see it through raw pointers: a byte for every
  64-bit address, little-endian machine words, byte slices. The page tables, the
  frames and the guest images of the sources all live in it; the accesses
  modelled here are those of \<^verbatim>\<open>get_pte_array\<close> and \<^verbatim>\<open>get_bytes_array\<close> of
  \<^verbatim>\<open>src/page_table/address.rs\<close> and of \<open>core::ptr::read\<close>.
\<close>

type_synonym memory = "usize \<Rightarrow> u8"

section \<open>Accesses\<close>

text \<open>\<open>n\<close> little-endian bytes from address \<open>a\<close> up.\<close>

primrec read_le :: "nat \<Rightarrow> memory \<Rightarrow> usize \<Rightarrow> u64" where
  "read_le 0 m a = 0"
| "read_le (Suc n) m a = ucast (m a) OR push_bit 8 (read_le n m (a + 1))"

definition write_le :: "nat \<Rightarrow> usize \<Rightarrow> u64 \<Rightarrow> memory \<Rightarrow> memory" where
  "write_le n a v m =
     (\<lambda>b. if unat (b - a) < n then ucast (drop_bit (8 * unat (b - a)) v) else m b)"

definition read_u64 :: "memory \<Rightarrow> usize \<Rightarrow> u64" where
  "read_u64 m a = read_le 8 m a"

definition write_u64 :: "usize \<Rightarrow> u64 \<Rightarrow> memory \<Rightarrow> memory" where
  "write_u64 a v m = write_le 8 a v m"

text \<open>A loop that stores the same byte to \<open>n\<close> addresses, and a slice copy.\<close>

definition fill_bytes :: "usize \<Rightarrow> nat \<Rightarrow> u8 \<Rightarrow> memory \<Rightarrow> memory" where
  "fill_bytes a n v m = (\<lambda>b. if unat (b - a) < n then v else m b)"

definition copy_bytes :: "usize \<Rightarrow> u8 list \<Rightarrow> memory \<Rightarrow> memory" where
  "copy_bytes a bs m = (\<lambda>b. if unat (b - a) < length bs then bs ! unat (b - a) else m b)"

text \<open>
  \<open>get_pte_array\<close> and \<open>get_bytes_array\<close> make slices of 512 entries and of 4096
  bytes at the physical address of the page; entry \<open>idx\<close> is eight bytes wide.
\<close>

definition get_pte_array :: "PhysPageNum \<Rightarrow> usize \<Rightarrow> usize result" where
  "get_pte_array p idx =
     (if idx < 512 then Inr (pa_0 (PhysAddr_from_PhysPageNum p) + idx * 8) else Inl IndexOutOfBounds)"

definition get_bytes_array :: "PhysPageNum \<Rightarrow> usize" where
  "get_bytes_array p = pa_0 (PhysAddr_from_PhysPageNum p)"

text \<open>A reference to the start of the page; \<open>as_mut\<close> gives \<open>None\<close> for the null pointer.\<close>

definition get_mut :: "PhysPageNum \<Rightarrow> usize result" where
  "get_mut p =
     (let pa = PhysAddr_from_PhysPageNum p in if pa_0 pa = 0 then Inl UnwrapNone else Inr (pa_0 pa))"

section \<open>Reading what was written\<close>

lemma bit_read_le:
  "bit (read_le n m a) k \<longleftrightarrow> k < 8 * n \<and> k < 64 \<and> bit (m (a + word_of_nat (k div 8))) (k mod 8)"
proof (induction n arbitrary: a k)
  case (Suc n)
  show ?case
  proof (cases "k < 8")
    case True
    then show ?thesis by (auto simp: bit_simps dest: bit_imp_le_length)
  next
    case False
    then obtain j where k: "k = j + 8" by (metis add.commute le_Suc_ex not_less)
    have "bit (ucast (m a) :: u64) k = False"
      using False by (auto simp: bit_simps dest: bit_imp_le_length)
    moreover have "(j + 8) div 8 = Suc (j div 8)" by simp
    ultimately show ?thesis by (auto simp: bit_simps k Suc.IH add.assoc)
  qed
qed simp

lemma read_le_cong:
  assumes "\<And>i. i < n \<Longrightarrow> i < 8 \<Longrightarrow> m (a + word_of_nat i) = m' (a' + word_of_nat i)"
  shows "read_le n m a = read_le n m' a'"
proof (rule bit_word_eqI)
  fix k :: nat
  assume "k < LENGTH(64)"
  then have "k div 8 < 8" by simp
  then show "bit (read_le n m a) k = bit (read_le n m' a') k"
    using assms [of "k div 8"] by (auto simp: bit_read_le)
qed

lemma read_write_u64_same: "read_u64 (write_u64 a v m) a = v"
proof (rule bit_word_eqI)
  fix k :: nat
  assume k: "k < LENGTH(64)"
  then have j: "k div 8 < 8" by simp
  then have "unat (word_of_nat (k div 8) :: usize) = k div 8" by (intro unat_word_of_nat_usize) simp
  with j k show "bit (read_u64 (write_u64 a v m) a) k = bit v k"
    by (auto simp: read_u64_def write_u64_def bit_read_le write_le_def bit_simps)
qed

lemma read_u64_cong:
  "(\<And>i. i < 8 \<Longrightarrow> m (a + word_of_nat i) = m' (a + word_of_nat i)) \<Longrightarrow> read_u64 m a = read_u64 m' a"
  unfolding read_u64_def by (rule read_le_cong) simp

section \<open>Address arithmetic\<close>

lemma unat_diff_less_iff:
  assumes "unat (a::usize) + n \<le> 2 ^ 64"
  shows "unat (b - a) < n \<longleftrightarrow> unat a \<le> unat b \<and> unat b < unat a + n"
proof (cases "a \<le> b")
  case True
  then show ?thesis by (auto simp: unat_sub word_le_nat_alt)
next
  case False
  then have lt: "unat b < unat a" by (simp add: not_le word_less_nat_alt)
  have "unat (b - a) = 2 ^ 64 + unat b - unat a"
    using lt by (simp add: unat_sub_if_size word_size not_le)
  then show ?thesis using assms lt unat_lt_64 [of a] by (simp del: unat_lt_64)
qed

lemma unat_get_bytes_array:
  "ppn_ok p \<Longrightarrow> unat (get_bytes_array p) = unat (ppn_0 p) * 4096"
  by (simp add: get_bytes_array_def PhysAddr_from_PhysPageNum_def page_shift_value ppn_ok_def)

text \<open>The address of entry \<open>idx\<close> of the table in page \<open>p\<close>.\<close>

definition pte_addr :: "PhysPageNum \<Rightarrow> usize \<Rightarrow> usize" where
  "pte_addr p idx = pa_0 (PhysAddr_from_PhysPageNum p) + idx * 8"

lemma get_pte_array_ok: "unat idx < 512 \<Longrightarrow> get_pte_array p idx = Inr (pte_addr p idx)"
  by (simp add: get_pte_array_def pte_addr_def word_less_nat_alt)

lemma unat_pte_addr:
  assumes "ppn_ok p" "unat idx < 512"
  shows "unat (pte_addr p idx) = unat (ppn_0 p) * 4096 + unat idx * 8"
proof -
  have base: "unat (push_bit 12 (ppn_0 p)) = unat (ppn_0 p) * 4096"
    using assms(1) by (intro page_shift_value) (simp add: ppn_ok_def)
  have off: "unat (idx * 8) = unat idx * 8"
    using assms(2) by (subst unat_mul_no_wrap) simp_all
  have "unat (ppn_0 p) * 4096 + unat idx * 8 < 2 ^ 64"
    using assms by (simp add: ppn_ok_def)
  then show ?thesis
    using base off
    by (simp add: pte_addr_def PhysAddr_from_PhysPageNum_def unat_add_no_wrap)
qed

text \<open>The page that an address lies in.\<close>

definition page_of :: "usize \<Rightarrow> PhysPageNum" where
  "page_of a = PhysPageNum (a div 0x1000)"

lemma page_of_eq_iff: "page_of a = p \<longleftrightarrow> unat a div 4096 = unat (ppn_0 p)"
  by (cases p) (simp add: page_of_def usize_eq_iff_unat unat_div)

lemma in_page_iff:
  assumes "ppn_ok p"
  shows "unat (b - get_bytes_array p) < 4096 \<longleftrightarrow> page_of b = p"
proof -
  have "unat (get_bytes_array p) + 4096 \<le> 2 ^ 64"
    using assms by (simp add: unat_get_bytes_array ppn_ok_def)
  then show ?thesis
    by (subst unat_diff_less_iff) (simp_all add: unat_get_bytes_array [OF assms] page_of_eq_iff, arith)
qed

section \<open>Entries of different tables do not overlap\<close>

lemma unat_pte_byte:
  assumes "ppn_ok p" "unat i < 512" "j < 8"
  shows "unat (pte_addr p i + word_of_nat j) = unat (ppn_0 p) * 4096 + unat i * 8 + j"
proof -
  have j: "unat (word_of_nat j :: usize) = j" using assms(3) by (intro unat_word_of_nat_usize) simp
  have "unat (pte_addr p i) + j < 2 ^ 64"
    using assms by (simp add: unat_pte_addr ppn_ok_def)
  with j show ?thesis using assms by (simp add: unat_add_no_wrap unat_pte_addr)
qed

lemma page_of_pte_byte:
  assumes "ppn_ok p" "unat i < 512" "j < 8"
  shows "page_of (pte_addr p i + word_of_nat j) = p"
  using assms by (simp add: page_of_eq_iff unat_pte_byte)

lemma pte_slot_eq:
  assumes "i < 512" "i' < 512" "j < 8"
    and le: "(p::nat) * 4096 + i * 8 \<le> p' * 4096 + i' * 8 + j"
    and lt: "p' * 4096 + i' * 8 + j < p * 4096 + i * 8 + 8"
  shows "p = p' \<and> i = i'"
proof -
  have eq: "512 * p + i = 512 * p' + i'" using le lt assms(3) by linarith
  then have "(512 * p + i) div 512 = (512 * p' + i') div 512" by simp
  then have "p = p'" using assms(1,2) by simp
  with eq show ?thesis by simp
qed

lemma read_write_pte:
  assumes "ppn_ok p" "ppn_ok p'" "unat i < 512" "unat i' < 512"
  shows "read_u64 (write_u64 (pte_addr p i) v m) (pte_addr p' i') =
           (if p = p' \<and> i = i' then v else read_u64 m (pte_addr p' i'))"
proof (cases "p = p' \<and> i = i'")
  case True
  then show ?thesis by (simp add: read_write_u64_same)
next
  case False
  have bound: "unat (pte_addr p i) + 8 \<le> 2 ^ 64"
    using assms by (simp add: unat_pte_addr ppn_ok_def)
  have "\<not> unat (pte_addr p' i' + word_of_nat j - pte_addr p i) < 8" if j: "j < 8" for j
    using False pte_slot_eq [OF assms(3,4) j, of "unat (ppn_0 p)" "unat (ppn_0 p')"]
    unfolding unat_diff_less_iff [OF bound] unat_pte_byte [OF assms(2,4) j] unat_pte_addr [OF assms(1,3)]
    by (auto simp: usize_eq_iff_unat)
  then have "read_u64 (write_u64 (pte_addr p i) v m) (pte_addr p' i') = read_u64 m (pte_addr p' i')"
    by (intro read_u64_cong) (simp add: write_u64_def write_le_def)
  with False show ?thesis by (simp only: if_False)
qed

text \<open>\<open>page_same p m m'\<close>: the two memories agree on page \<open>p\<close>.\<close>

definition page_same :: "PhysPageNum \<Rightarrow> memory \<Rightarrow> memory \<Rightarrow> bool" where
  "page_same p m m' \<longleftrightarrow> (\<forall>b. page_of b = p \<longrightarrow> m b = m' b)"

lemma page_same_refl [simp]: "page_same p m m"
  by (simp add: page_same_def)

lemma page_same_sym: "page_same p m m' \<Longrightarrow> page_same p m' m"
  by (simp add: page_same_def)

lemma page_same_trans [trans]: "page_same p m m' \<Longrightarrow> page_same p m' m'' \<Longrightarrow> page_same p m m''"
  by (simp add: page_same_def)

lemma page_same_read_pte:
  "page_same p m m' \<Longrightarrow> ppn_ok p \<Longrightarrow> unat i < 512 \<Longrightarrow>
   read_u64 m (pte_addr p i) = read_u64 m' (pte_addr p i)"
  by (rule read_u64_cong) (simp add: page_same_def page_of_pte_byte)

lemma page_same_write_pte:
  assumes "ppn_ok p" "unat i < 512" "q \<noteq> p"
  shows "page_same q m (write_u64 (pte_addr p i) v m)"
proof -
  have bound: "unat (pte_addr p i) + 8 \<le> 2 ^ 64"
    using assms by (simp add: unat_pte_addr ppn_ok_def)
  have "page_of b = p" if "unat (b - pte_addr p i) < 8" for b
    using that assms(2) unfolding unat_diff_less_iff [OF bound] unat_pte_addr [OF assms(1,2)] page_of_eq_iff
    by linarith
  then show ?thesis using assms(3) by (auto simp: page_same_def write_u64_def write_le_def)
qed

text \<open>Clearing a page.\<close>

definition zero_page :: "PhysPageNum \<Rightarrow> memory \<Rightarrow> memory" where
  "zero_page p m = fill_bytes (get_bytes_array p) 4096 0 m"

lemma page_same_zero_page: "ppn_ok p \<Longrightarrow> q \<noteq> p \<Longrightarrow> page_same q m (zero_page p m)"
  by (auto simp: page_same_def zero_page_def fill_bytes_def in_page_iff)

lemma read_le_zero: "(\<And>i. i < n \<Longrightarrow> i < 8 \<Longrightarrow> m (a + word_of_nat i) = 0) \<Longrightarrow> read_le n m a = 0"
  using read_le_cong [of n m a "\<lambda>_. 0" a] by (simp add: bit_eq_iff bit_read_le)

lemma read_pte_zero_page:
  assumes "ppn_ok p" "ppn_ok q" "unat i < 512"
  shows "read_u64 (zero_page q m) (pte_addr p i) =
           (if p = q then 0 else read_u64 m (pte_addr p i))"
proof (cases "p = q")
  case True
  then show ?thesis using assms
    by (auto simp: read_u64_def zero_page_def fill_bytes_def in_page_iff page_of_pte_byte intro: read_le_zero)
next
  case False
  then show ?thesis
    using page_same_read_pte [OF page_same_zero_page [OF assms(2) False] assms(1,3)] by simp
qed

end
