(* ===== verification/Pte.thy ===== *)
theory Pte
  imports Phys_Memory
begin

text \<open>
  \<^verbatim>\<open>src/page_table/pte.rs\<close>: the flag bits of a page-table entry and the entry
  itself, a 64-bit word with the physical page number from bit 10 up. A
  \<open>bitflags\<close> structure is its \<open>bits\<close>: \<open>|\<close> and \<open>&\<close> are the bit operations,
  \<open>empty()\<close> is 0, and \<open>from_bits\<close> refuses bits that no flag of the structure has.
\<close>

section \<open>Flags\<close>

type_synonym PTEFlags = u8

definition PTEFlags_V :: PTEFlags where "PTEFlags_V = push_bit 0 1"
definition PTEFlags_R :: PTEFlags where "PTEFlags_R = push_bit 1 1"
definition PTEFlags_W :: PTEFlags where "PTEFlags_W = push_bit 2 1"
definition PTEFlags_X :: PTEFlags where "PTEFlags_X = push_bit 3 1"
definition PTEFlags_U :: PTEFlags where "PTEFlags_U = push_bit 4 1"
definition PTEFlags_G :: PTEFlags where "PTEFlags_G = push_bit 5 1"
definition PTEFlags_A :: PTEFlags where "PTEFlags_A = push_bit 6 1"
definition PTEFlags_D :: PTEFlags where "PTEFlags_D = push_bit 7 1"

definition PTEFlags_all :: PTEFlags where
  "PTEFlags_all = PTEFlags_V OR PTEFlags_R OR PTEFlags_W OR PTEFlags_X OR
     PTEFlags_U OR PTEFlags_G OR PTEFlags_A OR PTEFlags_D"

definition PTEFlags_from_bits :: "u8 \<Rightarrow> PTEFlags option" where
  "PTEFlags_from_bits b = (if b AND NOT PTEFlags_all = 0 then Some b else None)"

lemmas PTEFlags_defs = PTEFlags_V_def PTEFlags_R_def PTEFlags_W_def PTEFlags_X_def
  PTEFlags_U_def PTEFlags_G_def PTEFlags_A_def PTEFlags_D_def

section \<open>Entries\<close>

datatype PageTableEntry = PageTableEntry (pte_bits: usize)

definition PageTableEntry_new :: "PhysPageNum \<Rightarrow> PTEFlags \<Rightarrow> PageTableEntry" where
  "PageTableEntry_new ppn flags = PageTableEntry (push_bit 10 (ppn_0 ppn) OR ucast flags)"

definition PageTableEntry_empty :: PageTableEntry where
  "PageTableEntry_empty = PageTableEntry 0"

definition pte_ppn :: "PageTableEntry \<Rightarrow> PhysPageNum" where
  "pte_ppn e = PhysPageNum_from (drop_bit 10 (pte_bits e) AND (push_bit 44 1 - 1))"

definition pte_flags :: "PageTableEntry \<Rightarrow> PTEFlags result" where
  "pte_flags e = unwrap (PTEFlags_from_bits (ucast (pte_bits e AND 0x3ff)))"

definition is_valid :: "PageTableEntry \<Rightarrow> bool result" where
  "is_valid e = bindR (pte_flags e) (\<lambda>f. Inr (f AND PTEFlags_V \<noteq> 0))"

definition readable :: "PageTableEntry \<Rightarrow> bool result" where
  "readable e = bindR (pte_flags e) (\<lambda>f. Inr (f AND PTEFlags_R \<noteq> 0))"

definition writable :: "PageTableEntry \<Rightarrow> bool result" where
  "writable e = bindR (pte_flags e) (\<lambda>f. Inr (f AND PTEFlags_W \<noteq> 0))"

definition executable :: "PageTableEntry \<Rightarrow> bool result" where
  "executable e = bindR (pte_flags e) (\<lambda>f. Inr (f AND PTEFlags_X \<noteq> 0))"

definition is_user :: "PageTableEntry \<Rightarrow> bool result" where
  "is_user e = bindR (pte_flags e) (\<lambda>f. Inr (f AND PTEFlags_U \<noteq> 0))"

definition is_global :: "PageTableEntry \<Rightarrow> bool result" where
  "is_global e = bindR (pte_flags e) (\<lambda>f. Inr (f AND PTEFlags_G \<noteq> 0))"

definition dirty :: "PageTableEntry \<Rightarrow> bool result" where
  "dirty e = bindR (pte_flags e) (\<lambda>f. Inr (f AND PTEFlags_D \<noteq> 0))"

definition accessed :: "PageTableEntry \<Rightarrow> bool result" where
  "accessed e = bindR (pte_flags e) (\<lambda>f. Inr (f AND PTEFlags_A \<noteq> 0))"

section \<open>Every flag byte is legal\<close>

lemma PTEFlags_all_eq: "PTEFlags_all = - 1"
  by (simp add: PTEFlags_all_def PTEFlags_defs)

lemma PTEFlags_from_bits_eq [simp]: "PTEFlags_from_bits b = Some b"
  by (simp add: PTEFlags_from_bits_def PTEFlags_all_eq)

lemma pte_flags_eq: "pte_flags e = Inr (ucast (pte_bits e))"
proof -
  have "(ucast (pte_bits e AND 0x3ff) :: u8) = ucast (pte_bits e)"
    by (rule bit_word_eqI) (simp add: mask_numerals bit_simps del: mask_numerals [symmetric])
  then show ?thesis by (simp add: pte_flags_def)
qed

lemma flag_test: "n < 8 \<Longrightarrow> (ucast (w::usize) :: u8) AND push_bit n 1 \<noteq> 0 \<longleftrightarrow> bit w n"
  by (simp add: and_exp_eq_0_iff_not_bit bit_simps)

lemma pte_predicates [simp]:
  "is_valid e = Inr (bit (pte_bits e) 0)"
  "readable e = Inr (bit (pte_bits e) 1)"
  "writable e = Inr (bit (pte_bits e) 2)"
  "executable e = Inr (bit (pte_bits e) 3)"
  "is_user e = Inr (bit (pte_bits e) 4)"
  "is_global e = Inr (bit (pte_bits e) 5)"
  "accessed e = Inr (bit (pte_bits e) 6)"
  "dirty e = Inr (bit (pte_bits e) 7)"
  unfolding is_valid_def readable_def writable_def executable_def is_user_def is_global_def
    accessed_def dirty_def pte_flags_eq bindR_Inr PTEFlags_defs
  by (simp_all only: flag_test)

section \<open>Packing and unpacking\<close>

lemma bit_pte_new:
  "n < 64 \<Longrightarrow> bit (pte_bits (PageTableEntry_new p f)) n \<longleftrightarrow> bit f n \<or> 10 \<le> n \<and> bit (ppn_0 p) (n - 10)"
  by (auto simp: PageTableEntry_new_def bit_simps)

lemma pte_ppn_ok [simp]: "ppn_ok (pte_ppn e)"
  by (simp add: pte_ppn_def)

lemma ppn_ok_bit: "ppn_ok p \<Longrightarrow> bit (ppn_0 p) n \<Longrightarrow> n < 44"
proof -
  assume "ppn_ok p" "bit (ppn_0 p) n"
  then have "take_bit 44 (ppn_0 p) = ppn_0 p"
    by (simp add: ppn_ok_def usize_eq_iff_unat unsigned_take_bit_eq take_bit_nat_eq_self)
  then show ?thesis using \<open>bit (ppn_0 p) n\<close> by (metis bit_take_bit_iff)
qed

lemma bit_pte_ppn: "bit (ppn_0 (pte_ppn e)) n \<longleftrightarrow> n < 44 \<and> bit (pte_bits e) (n + 10)"
  by (auto simp: pte_ppn_def PhysPageNum_from_def push_one_minus_one bit_simps ac_simps
      simp del: push_bit_of_1 dest: bit_imp_le_length)

lemma pte_ppn_new:
  assumes "ppn_ok p"
  shows "pte_ppn (PageTableEntry_new p f) = p"
proof (rule PhysPageNum.expand, rule bit_word_eqI)
  fix n :: nat
  assume "n < LENGTH(64)"
  show "bit (ppn_0 (pte_ppn (PageTableEntry_new p f))) n = bit (ppn_0 p) n"
    using ppn_ok_bit [OF assms, of n] bit_imp_le_length [of f "n + 10"]
    by (auto simp: bit_pte_ppn bit_pte_new)
qed

lemma pte_flags_new: "pte_flags (PageTableEntry_new p f) = Inr f"
  by (auto simp: pte_flags_eq bit_pte_new bit_simps intro!: bit_word_eqI)

lemma pte_new_bits [simp]:
  "n < 8 \<Longrightarrow> bit (pte_bits (PageTableEntry_new p f)) n = bit f n"
  by (simp add: bit_pte_new)

lemma bit_PTEFlags [simp]:
  "bit PTEFlags_V n \<longleftrightarrow> n = 0" "bit PTEFlags_R n \<longleftrightarrow> n = 1" "bit PTEFlags_W n \<longleftrightarrow> n = 2"
  "bit PTEFlags_X n \<longleftrightarrow> n = 3" "bit PTEFlags_U n \<longleftrightarrow> n = 4"
  unfolding PTEFlags_defs bit_push_bit_iff by (auto simp: bit_1_iff)

end
