(* ===== verification/Frame_Allocator.thy ===== *)
theory Frame_Allocator
  imports Pte
begin

text \<open>
  \<^verbatim>\<open>src/hyp_alloc/frame_allocator.rs\<close>: the stack allocator of physical frames,
  the global \<open>FRAME_ALLOCATOR\<close> behind \<open>frame_alloc\<close> and \<open>frame_dealloc\<close>, and the
  frame tracker that clears a frame when it is made and gives it back when it is
  dropped. The lock of \<open>FRAME_ALLOCATOR\<close> is taken and released inside each of the
  two functions, which call nothing that takes it again, so it carries no state
  between calls; \<open>Once\<close> is the option around the allocator.
\<close>

section \<open>The allocator\<close>

record StackFrameAllocator =
  fa_current :: usize
  fa_end :: usize
  fa_recycled :: "usize list"

definition StackFrameAllocator_new :: StackFrameAllocator where
  "StackFrameAllocator_new = \<lparr>fa_current = 0, fa_end = 0, fa_recycled = []\<rparr>"

definition StackFrameAllocator_init ::
  "StackFrameAllocator \<Rightarrow> PhysPageNum \<Rightarrow> PhysPageNum \<Rightarrow> StackFrameAllocator" where
  "StackFrameAllocator_init fa l r = fa\<lparr>fa_current := ppn_0 l, fa_end := ppn_0 r\<rparr>"

definition alloc ::
  "StackFrameAllocator \<Rightarrow> (PhysPageNum option \<times> StackFrameAllocator) result" where
  "alloc fa =
     (if fa_recycled fa \<noteq> [] then
        Inr (Some (PhysPageNum_from (last (fa_recycled fa))),
             fa\<lparr>fa_recycled := butlast (fa_recycled fa)\<rparr>)
      else if fa_current fa = fa_end fa then Inr (None, fa)
      else bindR (checked_add (fa_current fa) 1) (\<lambda>c.
        let fa' = fa\<lparr>fa_current := c\<rparr> in
        bindR (checked_sub (fa_current fa') 1) (\<lambda>p. Inr (Some (PhysPageNum_from p), fa'))))"

definition dealloc :: "StackFrameAllocator \<Rightarrow> PhysPageNum \<Rightarrow> StackFrameAllocator result" where
  "dealloc fa ppn =
     (let p = ppn_0 ppn in
      if p \<ge> fa_current fa \<or> list_ex (\<lambda>v. v = p) (fa_recycled fa) then Inl ExplicitPanic
      else Inr (fa\<lparr>fa_recycled := fa_recycled fa @ [p]\<rparr>))"

section \<open>The global allocator and the frame tracker\<close>

text \<open>
  The state that the memory components share: physical memory and the global
  allocator. Later components extend the record.
\<close>

record world =
  mem :: memory
  FRAME_ALLOCATOR :: "StackFrameAllocator option"

datatype FrameTracker = FrameTracker (ft_ppn: PhysPageNum)

definition FrameTracker_new ::
  "PhysPageNum \<Rightarrow> 'x world_scheme \<Rightarrow> FrameTracker \<times> 'x world_scheme" where
  "FrameTracker_new ppn s =
     (FrameTracker ppn, s\<lparr>mem := fill_bytes (get_bytes_array ppn) 4096 0 (mem s)\<rparr>)"

definition init_frame_allocator :: "usize \<Rightarrow> 'x world_scheme \<Rightarrow> 'x world_scheme result" where
  "init_frame_allocator ekernel s =
     (case FRAME_ALLOCATOR s of
        Some _ \<Rightarrow> Inr s
      | None \<Rightarrow>
          bindR (PhysAddr_ceil (PhysAddr_from ekernel)) (\<lambda>l.
          Inr (s\<lparr>FRAME_ALLOCATOR := Some (StackFrameAllocator_init StackFrameAllocator_new
                   l (PhysAddr_floor (PhysAddr_from MEMORY_END)))\<rparr>)))"

definition frame_alloc :: "'x world_scheme \<Rightarrow> (FrameTracker option \<times> 'x world_scheme) result" where
  "frame_alloc s =
     bindR (unwrap (FRAME_ALLOCATOR s)) (\<lambda>fa.
     bindR (alloc fa) (\<lambda>(p, fa').
       let s' = s\<lparr>FRAME_ALLOCATOR := Some fa'\<rparr> in
       case p of
         None \<Rightarrow> Inr (None, s')
       | Some ppn \<Rightarrow> (let (ft, s'') = FrameTracker_new ppn s' in Inr (Some ft, s''))))"

definition frame_dealloc :: "PhysPageNum \<Rightarrow> 'x world_scheme \<Rightarrow> 'x world_scheme result" where
  "frame_dealloc ppn s =
     bindR (unwrap (FRAME_ALLOCATOR s)) (\<lambda>fa.
     bindR (dealloc fa ppn) (\<lambda>fa'. Inr (s\<lparr>FRAME_ALLOCATOR := Some fa'\<rparr>)))"

definition FrameTracker_drop :: "FrameTracker \<Rightarrow> 'x world_scheme \<Rightarrow> 'x world_scheme result" where
  "FrameTracker_drop ft s = frame_dealloc (ft_ppn ft) s"

text \<open>\<open>frame_alloc().unwrap()\<close>, as the page tables and the map areas call it.\<close>

definition frame_alloc_unwrap :: "'x world_scheme \<Rightarrow> (FrameTracker \<times> 'x world_scheme) result" where
  "frame_alloc_unwrap s =
     bindR (frame_alloc s) (\<lambda>(f, s'). bindR (unwrap f) (\<lambda>ft. Inr (ft, s')))"

section \<open>The contract of a frame allocator\<close>

text \<open>
  What the trait \<open>FrameAllocator\<close> promises: \<open>live\<close> are the frames handed out and
  not yet given back, \<open>free\<close> is the number of frames that can still be had, and
  \<open>pool\<close> are the frames the allocator manages.
\<close>

locale frame_pool =
  fixes allocf :: "'a \<Rightarrow> (PhysPageNum option \<times> 'a) result"
    and deallocf :: "'a \<Rightarrow> PhysPageNum \<Rightarrow> 'a result"
    and inv :: "'a \<Rightarrow> bool"
    and live :: "'a \<Rightarrow> PhysPageNum set"
    and free :: "'a \<Rightarrow> nat"
    and pool :: "'a \<Rightarrow> PhysPageNum set"
  assumes alloc_some: "inv a \<Longrightarrow> 0 < free a \<Longrightarrow>
      \<exists>p a'. allocf a = Inr (Some p, a') \<and> inv a' \<and> p \<notin> live a \<and>
        live a' = insert p (live a) \<and> free a = Suc (free a') \<and> pool a' = pool a"
    and alloc_none: "inv a \<Longrightarrow> free a = 0 \<Longrightarrow> allocf a = Inr (None, a)"
    and dealloc_live: "inv a \<Longrightarrow> p \<in> live a \<Longrightarrow>
      \<exists>a'. deallocf a p = Inr a' \<and> inv a' \<and> live a' = live a - {p} \<and>
        free a' = Suc (free a) \<and> pool a' = pool a"
    and dealloc_dead: "inv a \<Longrightarrow> p \<in> pool a - live a \<Longrightarrow> deallocf a p = Inl ExplicitPanic"
    and live_pool: "inv a \<Longrightarrow> live a \<subseteq> pool a"

primrec alloc_n :: "('a \<Rightarrow> (PhysPageNum option \<times> 'a) result) \<Rightarrow> nat \<Rightarrow> 'a \<Rightarrow> (PhysPageNum list \<times> 'a) result" where
  "alloc_n f 0 a = Inr ([], a)"
| "alloc_n f (Suc n) a =
     bindR (f a) (\<lambda>(p, a'). bindR (unwrap p) (\<lambda>q.
     bindR (alloc_n f n a') (\<lambda>(qs, a''). Inr (q # qs, a''))))"

context frame_pool
begin

text \<open>\<open>n\<close> frames can be had one after the other when \<open>n\<close> are free, all different.\<close>

lemma alloc_n_distinct:
  "inv a \<Longrightarrow> n \<le> free a \<Longrightarrow>
   \<exists>ps a'. alloc_n allocf n a = Inr (ps, a') \<and> length ps = n \<and> distinct ps \<and>
     set ps \<inter> live a = {} \<and> live a' = set ps \<union> live a \<and> free a = free a' + n \<and> inv a'"
proof (induction n arbitrary: a)
  case 0
  then show ?case by simp
next
  case (Suc n)
  then have "0 < free a" by simp
  with Suc.prems alloc_some obtain p a1 where p: "allocf a = Inr (Some p, a1)" "inv a1" "p \<notin> live a"
    "live a1 = insert p (live a)" "free a = Suc (free a1)" by blast
  with Suc.prems have "n \<le> free a1" by simp
  with Suc.IH p(2) obtain ps a' where ps: "alloc_n allocf n a1 = Inr (ps, a')" "length ps = n"
    "distinct ps" "set ps \<inter> live a1 = {}" "live a' = set ps \<union> live a1" "free a1 = free a' + n" "inv a'"
    by blast
  have "alloc_n allocf (Suc n) a = Inr (p # ps, a')" using p(1) ps(1) by simp
  then show ?case using p ps by (intro exI [of _ "p # ps"] exI [of _ a']) auto
qed

text \<open>A frame given back twice stops the hypervisor at the second time.\<close>

lemma double_free:
  assumes "inv a" "p \<in> live a"
  shows "bindR (deallocf a p) (\<lambda>a'. deallocf a' p) = Inl ExplicitPanic"
proof -
  obtain a' where a': "deallocf a p = Inr a'" "inv a'" "live a' = live a - {p}" "pool a' = pool a"
    using dealloc_live [OF assms] by blast
  then have "p \<in> pool a' - live a'" using live_pool [OF assms(1)] assms(2) by auto
  with a' show ?thesis by (simp add: dealloc_dead)
qed

end

section \<open>The stack allocator meets the contract\<close>

text \<open>
  \<open>base\<close> is the first frame given to \<open>init\<close>. The allocator never hands out a frame
  below it, but \<open>dealloc\<close> does not check it, so it bounds \<open>pool\<close>.
\<close>

definition fa_inv :: "nat \<Rightarrow> StackFrameAllocator \<Rightarrow> bool" where
  "fa_inv base fa \<longleftrightarrow> base \<le> unat (fa_current fa) \<and> fa_current fa \<le> fa_end fa \<and>
     unat (fa_end fa) \<le> 2 ^ 44 \<and> distinct (fa_recycled fa) \<and>
     (\<forall>x \<in> set (fa_recycled fa). base \<le> unat x \<and> x < fa_current fa)"

definition fa_live :: "nat \<Rightarrow> StackFrameAllocator \<Rightarrow> PhysPageNum set" where
  "fa_live base fa = {p. base \<le> unat (ppn_0 p) \<and> ppn_0 p < fa_current fa \<and> ppn_0 p \<notin> set (fa_recycled fa)}"

definition fa_free :: "StackFrameAllocator \<Rightarrow> nat" where
  "fa_free fa = length (fa_recycled fa) + (unat (fa_end fa) - unat (fa_current fa))"

definition fa_pool :: "nat \<Rightarrow> StackFrameAllocator \<Rightarrow> PhysPageNum set" where
  "fa_pool base fa = {p. base \<le> unat (ppn_0 p)}"

lemma fa_live_ppn_ok: "fa_inv base fa \<Longrightarrow> p \<in> fa_live base fa \<Longrightarrow> ppn_ok p"
  by (auto simp: fa_inv_def fa_live_def ppn_ok_def word_less_nat_alt word_le_nat_alt)

lemma PhysPageNum_from_small: "unat x < 2 ^ 44 \<Longrightarrow> PhysPageNum_from x = PhysPageNum x"
  using PhysPageNum_from_id [of "PhysPageNum x"] by (simp add: ppn_ok_def)

lemma alloc_recycled:
  assumes inv: "fa_inv base fa" and ne: "fa_recycled fa \<noteq> []"
  shows "\<exists>p fa'. alloc fa = Inr (Some p, fa') \<and> fa_inv base fa' \<and> p \<notin> fa_live base fa \<and>
    fa_live base fa' = insert p (fa_live base fa) \<and> fa_free fa = Suc (fa_free fa')"
proof -
  obtain xs x where xs: "fa_recycled fa = xs @ [x]" using ne by (metis rev_exhaust)
  let ?fa = "fa\<lparr>fa_recycled := xs\<rparr>"
  have x: "base \<le> unat x" "x < fa_current fa" "x \<notin> set xs"
    using inv xs by (auto simp: fa_inv_def)
  have "unat x < 2 ^ 44"
    using inv x(2) by (simp add: fa_inv_def word_less_nat_alt word_le_nat_alt)
  then have "alloc fa = Inr (Some (PhysPageNum x), ?fa)"
    by (simp add: alloc_def xs PhysPageNum_from_small)
  moreover have "fa_inv base ?fa" using inv xs by (auto simp: fa_inv_def)
  moreover have "fa_live base ?fa = insert (PhysPageNum x) (fa_live base fa)"
    using x by (auto simp: fa_live_def xs)
  ultimately show ?thesis
    by (intro exI [of _ "PhysPageNum x"] exI [of _ ?fa]) (auto simp: fa_live_def fa_free_def xs)
qed

lemma alloc_fresh:
  assumes inv: "fa_inv base fa" and empty: "fa_recycled fa = []" and lt: "fa_current fa < fa_end fa"
  defines "fa' \<equiv> fa\<lparr>fa_current := fa_current fa + 1\<rparr>"
  shows "alloc fa = Inr (Some (PhysPageNum (fa_current fa)), fa')" and "fa_inv base fa'"
    and "PhysPageNum (fa_current fa) \<notin> fa_live base fa"
    and "fa_live base fa' = insert (PhysPageNum (fa_current fa)) (fa_live base fa)"
    and "fa_free fa = Suc (fa_free fa')"
proof -
  have c: "unat (fa_current fa) < unat (fa_end fa)" "unat (fa_end fa) \<le> 2 ^ 44"
    using inv lt by (simp_all add: fa_inv_def word_less_nat_alt)
  have c1: "unat (fa_current fa + 1) = unat (fa_current fa) + 1"
    using c by (subst unat_add_no_wrap) simp_all
  show "alloc fa = Inr (Some (PhysPageNum (fa_current fa)), fa')"
    using c c1 empty lt
    by (auto simp: alloc_def fa'_def checked_add_def checked_sub_def word_le_nat_alt PhysPageNum_from_small)
  show "fa_inv base fa'"
    using inv empty c c1 by (simp add: fa_inv_def fa'_def word_le_nat_alt)
  show "PhysPageNum (fa_current fa) \<notin> fa_live base fa" by (simp add: fa_live_def)
  have lt1: "ppn_0 p < fa_current fa + 1 \<longleftrightarrow> ppn_0 p < fa_current fa \<or> p = PhysPageNum (fa_current fa)" for p
    using c1 by (cases p) (simp add: word_less_nat_alt less_Suc_eq word_unat_eq_iff)
  have b: "base \<le> unat (fa_current fa)" using inv by (simp add: fa_inv_def)
  show "fa_live base fa' = insert (PhysPageNum (fa_current fa)) (fa_live base fa)"
    unfolding fa_live_def fa'_def using b empty by (auto simp: lt1)
  show "fa_free fa = Suc (fa_free fa')"
    using c c1 empty by (simp add: fa_free_def fa'_def)
qed

lemma fa_free_0: "fa_inv base fa \<Longrightarrow> fa_free fa = 0 \<longleftrightarrow> fa_recycled fa = [] \<and> fa_current fa = fa_end fa"
  by (cases "fa_recycled fa") (auto simp: fa_free_def fa_inv_def word_le_nat_alt usize_eq_iff_unat)

lemma alloc_some_stack:
  assumes "fa_inv base fa" "0 < fa_free fa"
  shows "\<exists>p fa'. alloc fa = Inr (Some p, fa') \<and> fa_inv base fa' \<and> p \<notin> fa_live base fa \<and>
    fa_live base fa' = insert p (fa_live base fa) \<and> fa_free fa = Suc (fa_free fa')"
proof (cases "fa_recycled fa = []")
  case True
  with assms have "fa_current fa < fa_end fa" by (auto simp: fa_free_def fa_inv_def less_le)
  from alloc_fresh [OF assms(1) True this] show ?thesis by blast
next
  case False
  with assms(1) show ?thesis by (rule alloc_recycled)
qed

lemma dealloc_eq:
  "dealloc fa p = (if ppn_0 p < fa_current fa \<and> ppn_0 p \<notin> set (fa_recycled fa)
     then Inr (fa\<lparr>fa_recycled := fa_recycled fa @ [ppn_0 p]\<rparr>) else Inl ExplicitPanic)"
  by (auto simp: dealloc_def Let_def list_ex_iff not_le)

interpretation stack: frame_pool alloc dealloc "fa_inv base" "fa_live base" fa_free "fa_pool base"
  for base
proof (unfold_locales, goal_cases)
  case (1 a)
  then show ?case using alloc_some_stack [of base a] by (simp add: fa_pool_def)
next
  case (2 a)
  then show ?case by (simp add: alloc_def fa_free_0)
next
  case (3 a p)
  then show ?case
    by (auto simp: dealloc_eq fa_live_def fa_inv_def fa_free_def fa_pool_def)
next
  case (4 a p)
  then show ?case by (auto simp: dealloc_eq fa_live_def fa_pool_def)
next
  case (5 a)
  then show ?case by (auto simp: fa_live_def fa_pool_def)
qed

section \<open>The global allocator\<close>

definition alloc_ok :: "nat \<Rightarrow> 'x world_scheme \<Rightarrow> bool" where
  "alloc_ok base s \<longleftrightarrow> (\<exists>fa. FRAME_ALLOCATOR s = Some fa \<and> fa_inv base fa)"

definition live :: "nat \<Rightarrow> 'x world_scheme \<Rightarrow> PhysPageNum set" where
  "live base s = (case FRAME_ALLOCATOR s of None \<Rightarrow> {} | Some fa \<Rightarrow> fa_live base fa)"

definition free_frames :: "'x world_scheme \<Rightarrow> nat" where
  "free_frames s = (case FRAME_ALLOCATOR s of None \<Rightarrow> 0 | Some fa \<Rightarrow> fa_free fa)"

text \<open>The end of the managed memory, which no operation moves.\<close>

definition frames_end :: "'x world_scheme \<Rightarrow> usize option" where
  "frames_end s = map_option fa_end (FRAME_ALLOCATOR s)"

lemma live_below_end:
  assumes "alloc_ok base s" "frames_end s = Some e" "p \<in> live base s"
  shows "base \<le> unat (ppn_0 p) \<and> ppn_0 p < e"
  using assms by (auto simp: alloc_ok_def frames_end_def live_def fa_live_def fa_inv_def)

lemma frame_alloc_end:
  assumes "frame_alloc_unwrap s = Inr (ft, s')"
  shows "frames_end s' = frames_end s"
proof -
  have "fa_end fa' = fa_end fa" if "alloc fa = Inr (p, fa')" for fa p fa'
    using that by (auto simp: alloc_def Let_def result_simps split: if_splits)
  then show ?thesis
    using assms by (auto simp: frame_alloc_unwrap_def frame_alloc_def FrameTracker_new_def frames_end_def
        result_simps Let_def split: option.splits)
qed

text \<open>Frames given back and not handed out again.\<close>

definition recycled :: "'x world_scheme \<Rightarrow> usize list" where
  "recycled s = (case FRAME_ALLOCATOR s of None \<Rightarrow> [] | Some fa \<Rightarrow> fa_recycled fa)"

lemma frame_alloc_recycled:
  assumes "frame_alloc_unwrap s = Inr (ft, s')" "recycled s = []"
  shows "recycled s' = []"
proof -
  have "fa_recycled fa' = []" if "alloc fa = Inr (p, fa')" "fa_recycled fa = []" for fa p fa'
    using that by (auto simp: alloc_def Let_def result_simps split: if_splits)
  then show ?thesis
    using assms by (auto simp: frame_alloc_unwrap_def frame_alloc_def FrameTracker_new_def recycled_def
        result_simps Let_def split: option.splits)
qed

lemma live_ppn_ok: "alloc_ok base s \<Longrightarrow> p \<in> live base s \<Longrightarrow> ppn_ok p"
  by (auto simp: alloc_ok_def live_def fa_live_ppn_ok)

lemma alloc_state_mem_update [simp]:
  "alloc_ok base (s\<lparr>mem := m\<rparr>) = alloc_ok base s"
  "live base (s\<lparr>mem := m\<rparr>) = live base s"
  "free_frames (s\<lparr>mem := m\<rparr>) = free_frames s"
  "frames_end (s\<lparr>mem := m\<rparr>) = frames_end s" "recycled (s\<lparr>mem := m\<rparr>) = recycled s"
  by (simp_all add: alloc_ok_def live_def free_frames_def frames_end_def recycled_def)

lemma frame_alloc_ok:
  assumes "alloc_ok base s" "0 < free_frames s"
  obtains f s' where "frame_alloc s = Inr (Some (FrameTracker f), s')"
    "alloc_ok base s'" "f \<notin> live base s" "ppn_ok f" "live base s' = insert f (live base s)"
    "free_frames s = Suc (free_frames s')" "mem s' = zero_page f (mem s)" "world.more s' = world.more s"
proof -
  obtain fa where fa: "FRAME_ALLOCATOR s = Some fa" "fa_inv base fa" "0 < fa_free fa"
    using assms by (auto simp: alloc_ok_def free_frames_def)
  then obtain p fa' where p: "alloc fa = Inr (Some p, fa')" "fa_inv base fa'" "p \<notin> fa_live base fa"
    "fa_live base fa' = insert p (fa_live base fa)" "fa_free fa = Suc (fa_free fa')"
    using alloc_some_stack by blast
  show thesis
  proof (rule that [of p "s\<lparr>FRAME_ALLOCATOR := Some fa', mem := zero_page p (mem s)\<rparr>"])
    show "ppn_ok p" using p(2,4) by (intro fa_live_ppn_ok [of base fa']) auto
  qed (use fa p in \<open>simp_all add: frame_alloc_def FrameTracker_new_def zero_page_def Let_def
        alloc_ok_def live_def free_frames_def\<close>)
qed

text \<open>The same as an inversion: what a successful \<open>frame_alloc().unwrap()\<close> tells.\<close>

lemma frame_alloc_unwrap_cases:
  assumes "alloc_ok base s" "frame_alloc_unwrap s = Inr (ft, s')"
  shows "alloc_ok base s'" "ft_ppn ft \<notin> live base s" "ppn_ok (ft_ppn ft)"
    "live base s' = insert (ft_ppn ft) (live base s)" "free_frames s = Suc (free_frames s')"
    "mem s' = zero_page (ft_ppn ft) (mem s)" "world.more s' = world.more s"
proof -
  have "0 < free_frames s"
    using assms by (auto simp: frame_alloc_unwrap_def frame_alloc_def free_frames_def alloc_ok_def
        result_simps stack.alloc_none split: option.splits intro!: Nat.gr0I)
  then obtain f t where t: "frame_alloc s = Inr (Some (FrameTracker f), t)"
    "alloc_ok base t" "f \<notin> live base s" "ppn_ok f" "live base t = insert f (live base s)"
    "free_frames s = Suc (free_frames t)" "mem t = zero_page f (mem s)" "world.more t = world.more s"
    by (rule frame_alloc_ok [OF assms(1)])
  then have "ft = FrameTracker f" "s' = t" using assms(2) by (simp_all add: frame_alloc_unwrap_def)
  with t show "alloc_ok base s'" "ft_ppn ft \<notin> live base s" "ppn_ok (ft_ppn ft)"
    "live base s' = insert (ft_ppn ft) (live base s)" "free_frames s = Suc (free_frames s')"
    "mem s' = zero_page (ft_ppn ft) (mem s)" "world.more s' = world.more s"
    by simp_all
qed

lemma frame_alloc_unwrap_progress:
  assumes "alloc_ok base s" "0 < free_frames s"
  shows "\<exists>ft s'. frame_alloc_unwrap s = Inr (ft, s')"
  by (rule frame_alloc_ok [OF assms]) (simp add: frame_alloc_unwrap_def)

section \<open>Properties\<close>

text \<open>
  C24. Frames handed out are exclusive: from a well-formed allocator with \<open>n\<close> free frames,
  \<open>n\<close> calls of \<open>alloc\<close> all succeed with frames that are pairwise different and
  different from every frame that is still handed out.
\<close>

theorem frames_are_exclusive:
  assumes "fa_inv base fa" "n \<le> fa_free fa"
  shows "\<exists>ps fa'. alloc_n alloc n fa = Inr (ps, fa') \<and> length ps = n \<and> distinct ps \<and>
    set ps \<inter> fa_live base fa = {} \<and> fa_live base fa' = set ps \<union> fa_live base fa \<and> fa_inv base fa'"
  using stack.alloc_n_distinct [OF assms] by blast

theorem frames_are_exclusive_witness:
  "\<exists>ps fa'. alloc_n alloc 3 \<lparr>fa_current = 8, fa_end = 10, fa_recycled = [5]\<rparr> = Inr (ps, fa') \<and> distinct ps"
  using frames_are_exclusive [of 4 "\<lparr>fa_current = 8, fa_end = 10, fa_recycled = [5]\<rparr>" 3]
  by (auto simp: fa_inv_def fa_free_def)

text \<open>
  C36. Giving a frame back twice stops the hypervisor: the first \<open>dealloc\<close> of a frame that
  is handed out succeeds, makes it available again, and the second panics.
\<close>

theorem double_dealloc_panics:
  assumes "fa_inv base fa" "p \<in> fa_live base fa"
  shows "\<exists>fa'. dealloc fa p = Inr fa' \<and> fa_inv base fa' \<and> fa_live base fa' = fa_live base fa - {p} \<and>
    fa_free fa' = Suc (fa_free fa) \<and> dealloc fa' p = Inl ExplicitPanic"
  using stack.dealloc_live [OF assms] stack.double_free [OF assms] by auto

theorem double_dealloc_panics_witness:
  "\<exists>fa'. dealloc \<lparr>fa_current = 8, fa_end = 10, fa_recycled = [5]\<rparr> (PhysPageNum 6) = Inr fa' \<and>
     dealloc fa' (PhysPageNum 6) = Inl ExplicitPanic"
  using double_dealloc_panics [of 4 "\<lparr>fa_current = 8, fa_end = 10, fa_recycled = [5]\<rparr>" "PhysPageNum 6"]
  by (auto simp: fa_inv_def fa_live_def)

end
