(* ===== verification/Sv39.thy ===== *)
theory Sv39
  imports Frame_Allocator
begin

text \<open>
  \<^verbatim>\<open>src/page_table/sv39.rs\<close>: three-level page tables in physical memory. A
  \<open>&mut PageTableEntry\<close> of the source is the address of the entry. The loops over
  the three indexes are recursions over the enumerated index list.
\<close>

section \<open>Entries in memory\<close>

definition load_pte :: "memory \<Rightarrow> usize \<Rightarrow> PageTableEntry" where
  "load_pte m a = PageTableEntry (read_u64 m a)"

definition store_pte :: "usize \<Rightarrow> PageTableEntry \<Rightarrow> 'x world_scheme \<Rightarrow> 'x world_scheme" where
  "store_pte a e s = s\<lparr>mem := write_u64 a (pte_bits e) (mem s)\<rparr>"

section \<open>The page table\<close>

record PageTableSv39 =
  root_ppn :: PhysPageNum
  pt_frames :: "FrameTracker list"

fun find_pte_loop :: "memory \<Rightarrow> PhysPageNum \<Rightarrow> (nat \<times> usize) list \<Rightarrow> usize option result" where
  "find_pte_loop m ppn [] = Inr None"
| "find_pte_loop m ppn ((i, idx) # rest) =
     bindR (get_pte_array ppn idx) (\<lambda>pte.
       if i = 2 then Inr (Some pte)
       else bindR (is_valid (load_pte m pte)) (\<lambda>v.
         if \<not> v then Inr None
         else find_pte_loop m (pte_ppn (load_pte m pte)) rest))"

definition find_pte :: "PageTableSv39 \<Rightarrow> VirtPageNum \<Rightarrow> 'x world_scheme \<Rightarrow> usize option result" where
  "find_pte self vpn s = find_pte_loop (mem s) (root_ppn self) (enumerate 0 (indexes vpn))"

fun find_pte_create_loop ::
  "PhysPageNum \<Rightarrow> (nat \<times> usize) list \<Rightarrow> PageTableSv39 \<Rightarrow> 'x world_scheme \<Rightarrow>
   (usize option \<times> PageTableSv39 \<times> 'x world_scheme) result" where
  "find_pte_create_loop ppn [] self s = Inr (None, self, s)"
| "find_pte_create_loop ppn ((i, idx) # rest) self s =
     bindR (get_pte_array ppn idx) (\<lambda>pte.
       if i = 2 then Inr (Some pte, self, s)
       else bindR (is_valid (load_pte (mem s) pte)) (\<lambda>v.
         if \<not> v then
           bindR (frame_alloc_unwrap s) (\<lambda>(frame, s1).
             let s2 = store_pte pte (PageTableEntry_new (ft_ppn frame) PTEFlags_V) s1;
                 self' = self\<lparr>pt_frames := pt_frames self @ [frame]\<rparr>
             in find_pte_create_loop (pte_ppn (load_pte (mem s2) pte)) rest self' s2)
         else find_pte_create_loop (pte_ppn (load_pte (mem s) pte)) rest self s))"

definition find_pte_create ::
  "PageTableSv39 \<Rightarrow> VirtPageNum \<Rightarrow> 'x world_scheme \<Rightarrow>
   (usize option \<times> PageTableSv39 \<times> 'x world_scheme) result" where
  "find_pte_create self vpn s =
     find_pte_create_loop (root_ppn self) (enumerate 0 (indexes vpn)) self s"

definition PageTableSv39_new :: "'x world_scheme \<Rightarrow> (PageTableSv39 \<times> 'x world_scheme) result" where
  "PageTableSv39_new s =
     bindR (frame_alloc_unwrap s) (\<lambda>(frame, s').
     Inr (\<lparr>root_ppn = ft_ppn frame, pt_frames = [frame]\<rparr>, s'))"

definition from_token :: "usize \<Rightarrow> PageTableSv39" where
  "from_token satp =
     \<lparr>root_ppn = PhysPageNum_from (satp AND (push_bit 44 1 - 1)), pt_frames = []\<rparr>"

definition token :: "PageTableSv39 \<Rightarrow> usize" where
  "token self = push_bit 60 8 OR ppn_0 (root_ppn self)"

definition sv39_map ::
  "PageTableSv39 \<Rightarrow> VirtPageNum \<Rightarrow> PhysPageNum \<Rightarrow> PTEFlags \<Rightarrow> 'x world_scheme \<Rightarrow>
   (PageTableSv39 \<times> 'x world_scheme) result" where
  "sv39_map self vpn ppn flags s =
     bindR (find_pte_create self vpn s) (\<lambda>(r, self', s').
     bindR (unwrap r) (\<lambda>pte.
     bindR (is_valid (load_pte (mem s') pte)) (\<lambda>v.
     bindR (assertR (\<not> v)) (\<lambda>_.
     Inr (self', store_pte pte (PageTableEntry_new ppn (flags OR PTEFlags_V)) s')))))"

definition sv39_unmap ::
  "PageTableSv39 \<Rightarrow> VirtPageNum \<Rightarrow> 'x world_scheme \<Rightarrow> (PageTableSv39 \<times> 'x world_scheme) result" where
  "sv39_unmap self vpn s =
     bindR (find_pte self vpn s) (\<lambda>r.
     bindR (unwrap r) (\<lambda>pte.
     bindR (is_valid (load_pte (mem s) pte)) (\<lambda>v.
     bindR (assertR v) (\<lambda>_.
     Inr (self, store_pte pte PageTableEntry_empty s)))))"

definition sv39_translate ::
  "PageTableSv39 \<Rightarrow> VirtPageNum \<Rightarrow> 'x world_scheme \<Rightarrow> PageTableEntry option result" where
  "sv39_translate self vpn s =
     bindR (find_pte self vpn s) (\<lambda>r. Inr (map_option (load_pte (mem s)) r))"

definition sv39_translate_va ::
  "PageTableSv39 \<Rightarrow> usize \<Rightarrow> 'x world_scheme \<Rightarrow> usize option result" where
  "sv39_translate_va self va s =
     (let offset = va AND 0xfff;
          vpn = VirtPageNum_from (drop_bit 12 va)
      in bindR (sv39_translate self vpn s) (\<lambda>t.
         case t of
           Some pte \<Rightarrow> bindR (checked_add (push_bit 12 (ppn_0 (pte_ppn pte))) offset) (\<lambda>pa. Inr (Some pa))
         | None \<Rightarrow> Inr None))"

section \<open>The guest root table\<close>

text \<open>
  \<open>new_guest\<close> keeps allocating until a frame number is a multiple of four. Every
  allocation takes something from the allocator, so that the loop ends.
\<close>

definition alloc_measure :: "'x world_scheme \<Rightarrow> nat" where
  "alloc_measure s = (case FRAME_ALLOCATOR s of None \<Rightarrow> 0
     | Some fa \<Rightarrow> length (fa_recycled fa) + (2 ^ 64 - unat (fa_current fa)))"

lemma alloc_measure_decreases:
  assumes "frame_alloc_unwrap s = Inr (f, s')"
  shows "alloc_measure s' < alloc_measure s"
proof -
  obtain fa p fa' where fa: "FRAME_ALLOCATOR s = Some fa" "alloc fa = Inr (Some p, fa')"
    "FRAME_ALLOCATOR s' = Some fa'"
    using assms
    by (auto simp: frame_alloc_unwrap_def frame_alloc_def FrameTracker_new_def result_simps Let_def
        split: option.splits)
  show ?thesis
  proof (cases "fa_recycled fa = []")
    case True
    then have "unat (fa_current fa) + 1 < 2 ^ 64" "fa' = fa\<lparr>fa_current := fa_current fa + 1\<rparr>"
      using fa(2) by (auto simp: alloc_def Let_def result_simps split: if_splits)
    then show ?thesis
      using fa True by (simp add: alloc_measure_def unat_add_no_wrap)
  next
    case False
    then have "fa' = fa\<lparr>fa_recycled := butlast (fa_recycled fa)\<rparr>"
      using fa(2) by (auto simp: alloc_def)
    then show ?thesis using fa False by (simp add: alloc_measure_def)
  qed
qed

function new_guest_loop ::
  "FrameTracker list \<Rightarrow> FrameTracker \<Rightarrow> 'x world_scheme \<Rightarrow>
   (FrameTracker list \<times> FrameTracker \<times> 'x world_scheme) result" where
  "new_guest_loop frames root_frame s =
     (if ppn_0 (ft_ppn root_frame) AND 0x3 \<noteq> 0 then
        bindR (frame_alloc_unwrap s) (\<lambda>(f, s').
          new_guest_loop (frames @ [root_frame]) f s')
      else Inr (frames, root_frame, s))"
  by pat_completeness auto
termination
  by (relation "measure (\<lambda>(frames, root_frame, s). alloc_measure s)")
     (auto dest: alloc_measure_decreases)

declare new_guest_loop.simps [simp del]

definition new_guest :: "'x world_scheme \<Rightarrow> (PageTableSv39 \<times> 'x world_scheme) result" where
  "new_guest s =
     bindR (frame_alloc_unwrap s) (\<lambda>(root_frame, s1).
     bindR (new_guest_loop [] root_frame s1) (\<lambda>(frames, root_frame', s2).
       let root = ft_ppn root_frame' in
       bindR (foldR (\<lambda>_ (fs, t). bindR (frame_alloc_unwrap t) (\<lambda>(f, t'). Inr (fs @ [f], t')))
                [0..<3::nat] (frames @ [root_frame'], s2)) (\<lambda>(fs, s3).
       Inr (\<lparr>root_ppn = root, pt_frames = fs\<rparr>, s3))))"

section \<open>Walking a foreign page table\<close>

datatype PageTableLevel = Level4KB | Level2MB | Level1GB

record PteWrapper =
  pw_addr :: usize
  pw_pte :: PageTableEntry
  pw_level :: PageTableLevel

record PageWalk =
  walk_path :: "PteWrapper list"
  walk_pa :: usize

definition level_of :: "nat \<Rightarrow> PageTableLevel result" where
  "level_of n = (if n = 0 then Inr Level1GB else if n = 1 then Inr Level2MB
     else if n = 2 then Inr Level4KB else Inl Unreachable)"

definition leaf_pa :: "PageTableLevel \<Rightarrow> PageTableEntry \<Rightarrow> usize \<Rightarrow> usize" where
  "leaf_pa level pte va = (case level of
     Level4KB \<Rightarrow> push_bit 12 (drop_bit 10 (pte_bits pte)) OR (va AND 0xfff)
   | Level2MB \<Rightarrow> push_bit 21 (drop_bit 19 (pte_bits pte)) OR (va AND 0x1fffff)
   | Level1GB \<Rightarrow> push_bit 30 (drop_bit 28 (pte_bits pte)) OR (va AND 0x3fffffff))"

fun walk_loop ::
  "(usize \<Rightarrow> usize result) \<Rightarrow> usize \<Rightarrow> nat list \<Rightarrow> PteWrapper list \<Rightarrow> usize \<Rightarrow> PageWalk option result" where
  "walk_loop read_pte va [] path page_table = Inr None"
| "walk_loop read_pte va (level # levels) path page_table =
     (let pte_index = drop_bit (30 - 9 * level) va AND 0x1ff in
      bindR (checked_mul pte_index 8) (\<lambda>off.
      bindR (checked_add page_table off) (\<lambda>pte_addr.
      bindR (read_pte pte_addr) (\<lambda>bits.
      bindR (level_of level) (\<lambda>lv.
        let pte = PageTableEntry bits;
            path' = path @ [\<lparr>pw_addr = pte_addr, pw_pte = pte, pw_level = lv\<rparr>] in
        bindR (is_valid pte) (\<lambda>v.
        bindR (writable pte) (\<lambda>w.
        bindR (readable pte) (\<lambda>r.
        bindR (executable pte) (\<lambda>x.
          if \<not> v \<or> (w \<and> \<not> r) then Inr None
          else if r \<or> x then Inr (Some \<lparr>walk_path = path', walk_pa = leaf_pa lv pte va\<rparr>)
          else walk_loop read_pte va levels path' (push_bit 12 (drop_bit 10 (pte_bits pte)))))))))))) "

definition walk_page_table ::
  "usize \<Rightarrow> usize \<Rightarrow> (usize \<Rightarrow> usize result) \<Rightarrow> PageWalk option result" where
  "walk_page_table root va read_pte = walk_loop read_pte va [0..<3] [] root"

end
