(* ===== verification/Sv39_Tree.thy ===== *)
theory Sv39_Tree
  imports Sv39
begin

text \<open>
  The radix tree that a page table is in memory: which table is reached from the
  root along a path of indexes, when the tables reached along different paths are
  different frames, and how the three kinds of stores of \<^verbatim>\<open>sv39.rs\<close> (clearing a
  frame, linking a new table, writing a leaf entry) change the tree.
\<close>

section \<open>Paths\<close>

definition pte_at :: "memory \<Rightarrow> PhysPageNum \<Rightarrow> usize \<Rightarrow> PageTableEntry" where
  "pte_at m p i = load_pte m (pte_addr p i)"

definition pte_valid :: "PageTableEntry \<Rightarrow> bool" where
  "pte_valid e \<longleftrightarrow> bit (pte_bits e) 0"

fun table_at :: "memory \<Rightarrow> PhysPageNum \<Rightarrow> usize list \<Rightarrow> PhysPageNum option" where
  "table_at m p [] = Some p"
| "table_at m p (i # is) =
     (if pte_valid (pte_at m p i) then table_at m (pte_ppn (pte_at m p i)) is else None)"

definition path_ok :: "usize list \<Rightarrow> bool" where
  "path_ok \<pi> \<longleftrightarrow> length \<pi> \<le> 2 \<and> (\<forall>i \<in> set \<pi>. unat i < 512)"

lemma path_ok_Nil [simp]: "path_ok []"
  by (simp add: path_ok_def)

lemma path_ok_snocD: "path_ok (\<pi> @ [i]) \<Longrightarrow> path_ok \<pi> \<and> length \<pi> \<le> 1 \<and> unat i < 512"
  by (auto simp: path_ok_def)

lemma path_ok_snocI: "path_ok \<pi> \<Longrightarrow> length \<pi> \<le> 1 \<Longrightarrow> unat i < 512 \<Longrightarrow> path_ok (\<pi> @ [i])"
  by (auto simp: path_ok_def)

lemma table_at_snoc:
  "table_at m p (\<pi> @ [i]) =
     (case table_at m p \<pi> of None \<Rightarrow> None
      | Some t \<Rightarrow> if pte_valid (pte_at m t i) then Some (pte_ppn (pte_at m t i)) else None)"
  by (induction \<pi> arbitrary: p) auto

section \<open>Well-formed trees\<close>

text \<open>
  \<open>tree_ok m r F\<close>: every table of the tree is one of the frames \<open>F\<close>, no frame
  is reached along two paths, and the valid entries above the leaf tables are
  pointers to the next level, with no flag but \<open>V\<close>.
\<close>

definition tree_ok :: "memory \<Rightarrow> PhysPageNum \<Rightarrow> PhysPageNum set \<Rightarrow> bool" where
  "tree_ok m r F \<longleftrightarrow>
     (\<forall>\<pi> t. path_ok \<pi> \<longrightarrow> table_at m r \<pi> = Some t \<longrightarrow> t \<in> F) \<and>
     (\<forall>\<pi> \<rho> t. path_ok \<pi> \<longrightarrow> path_ok \<rho> \<longrightarrow> table_at m r \<pi> = Some t \<longrightarrow>
        table_at m r \<rho> = Some t \<longrightarrow> \<pi> = \<rho>) \<and>
     (\<forall>\<pi> i t. path_ok (\<pi> @ [i]) \<longrightarrow> table_at m r \<pi> = Some t \<longrightarrow> pte_valid (pte_at m t i) \<longrightarrow>
        pte_at m t i = PageTableEntry_new (pte_ppn (pte_at m t i)) PTEFlags_V) \<and>
     (\<forall>p \<in> F. ppn_ok p)"

text \<open>\<open>inner_same\<close>: the entries above the leaf tables agree.\<close>

definition inner_same :: "PhysPageNum \<Rightarrow> memory \<Rightarrow> memory \<Rightarrow> bool" where
  "inner_same r m m' \<longleftrightarrow> (\<forall>\<pi> t i. path_ok (\<pi> @ [i]) \<longrightarrow> table_at m r \<pi> = Some t \<longrightarrow>
     pte_at m' t i = pte_at m t i)"

lemma tree_ok_in: "tree_ok m r F \<Longrightarrow> path_ok \<pi> \<Longrightarrow> table_at m r \<pi> = Some t \<Longrightarrow> t \<in> F"
  by (simp add: tree_ok_def)

lemma tree_ok_inj:
  "tree_ok m r F \<Longrightarrow> path_ok \<pi> \<Longrightarrow> path_ok \<rho> \<Longrightarrow> table_at m r \<pi> = Some t \<Longrightarrow>
   table_at m r \<rho> = Some t \<Longrightarrow> \<pi> = \<rho>"
  unfolding tree_ok_def by blast

lemma tree_ok_ppn: "tree_ok m r F \<Longrightarrow> p \<in> F \<Longrightarrow> ppn_ok p"
  by (simp add: tree_ok_def)

lemma tree_ok_inner:
  "tree_ok m r F \<Longrightarrow> path_ok (\<pi> @ [i]) \<Longrightarrow> table_at m r \<pi> = Some t \<Longrightarrow> pte_valid (pte_at m t i) \<Longrightarrow>
   pte_at m t i = PageTableEntry_new (pte_ppn (pte_at m t i)) PTEFlags_V"
  unfolding tree_ok_def by blast

text \<open>A change of memory that leaves the inner entries alone leaves the tree alone.\<close>

lemma table_at_cong:
  assumes "inner_same r m m'"
  shows "path_ok \<pi> \<Longrightarrow> table_at m' r \<pi> = table_at m r \<pi>"
proof (induction \<pi> rule: rev_induct)
  case (snoc i \<pi>)
  then have "table_at m' r \<pi> = table_at m r \<pi>" by (auto dest: path_ok_snocD)
  with snoc.prems assms show ?case
    by (auto simp: inner_same_def table_at_snoc split: option.splits)
qed simp

lemma tree_ok_cong:
  assumes "tree_ok m r F" "inner_same r m m'"
  shows "tree_ok m' r F"
proof -
  note at = table_at_cong [OF assms(2)]
  have "pte_at m' t i = PageTableEntry_new (pte_ppn (pte_at m' t i)) PTEFlags_V"
    if "path_ok (\<pi> @ [i])" "table_at m' r \<pi> = Some t" "pte_valid (pte_at m' t i)" for \<pi> i t
    using that assms at path_ok_snocD [OF that(1)] tree_ok_inner [OF assms(1) that(1)]
    by (simp add: inner_same_def)
  then show ?thesis
    using assms(1) unfolding tree_ok_def by (simp add: at path_ok_snocD)
qed

lemma pte_at_page_same:
  "page_same p m m' \<Longrightarrow> ppn_ok p \<Longrightarrow> unat i < 512 \<Longrightarrow> pte_at m' p i = pte_at m p i"
  by (simp add: pte_at_def load_pte_def page_same_read_pte)

lemma inner_same_local:
  assumes "tree_ok m r F" "\<And>p. p \<in> F \<Longrightarrow> page_same p m m'"
  shows "inner_same r m m'"
  unfolding inner_same_def
proof (intro allI impI)
  fix \<rho> t i
  assume p: "path_ok (\<rho> @ [i])" and t: "table_at m r \<rho> = Some t"
  have "t \<in> F" using tree_ok_in [OF assms(1) _ t] path_ok_snocD [OF p] by blast
  then show "pte_at m' t i = pte_at m t i"
    using path_ok_snocD [OF p] tree_ok_ppn [OF assms(1)] assms(2) by (blast intro: pte_at_page_same)
qed

lemmas table_at_local = table_at_cong [OF inner_same_local]
lemmas tree_ok_local = tree_ok_cong [OF _ inner_same_local]

section \<open>Stores\<close>

definition set_pte :: "PhysPageNum \<Rightarrow> usize \<Rightarrow> PageTableEntry \<Rightarrow> memory \<Rightarrow> memory" where
  "set_pte p i e m = write_u64 (pte_addr p i) (pte_bits e) m"

lemma pte_at_set_pte:
  "ppn_ok p \<Longrightarrow> ppn_ok q \<Longrightarrow> unat i < 512 \<Longrightarrow> unat j < 512 \<Longrightarrow>
   pte_at (set_pte p i e m) q j = (if p = q \<and> i = j then e else pte_at m q j)"
  by (simp add: pte_at_def set_pte_def load_pte_def read_write_pte)

lemma pte_at_zero_page:
  "ppn_ok p \<Longrightarrow> ppn_ok q \<Longrightarrow> unat i < 512 \<Longrightarrow>
   pte_at (zero_page q m) p i = (if p = q then PageTableEntry 0 else pte_at m p i)"
  by (simp add: pte_at_def load_pte_def read_pte_zero_page)

lemma page_same_set_pte: "ppn_ok p \<Longrightarrow> unat i < 512 \<Longrightarrow> q \<noteq> p \<Longrightarrow> page_same q m (set_pte p i e m)"
  by (simp add: set_pte_def page_same_write_pte)

text \<open>Writing a leaf entry: the table is reached along two indexes.\<close>

lemma inner_same_set_leaf:
  assumes tree: "tree_ok m r F" and pi: "path_ok \<pi>" "length \<pi> = 2" "table_at m r \<pi> = Some t"
    and i: "unat i < 512"
  shows "inner_same r m (set_pte t i e m)"
  unfolding inner_same_def
proof (intro allI impI)
  fix \<sigma> u j
  assume s: "path_ok (\<sigma> @ [j])" and u: "table_at m r \<sigma> = Some u"
  have "\<sigma> \<noteq> \<pi>" using path_ok_snocD [OF s] pi(2) by auto
  then have "u \<noteq> t" using tree_ok_inj [OF tree _ pi(1) u] pi(3) path_ok_snocD [OF s] by blast
  then show "pte_at (set_pte t i e m) u j = pte_at m u j"
    using tree_ok_ppn [OF tree tree_ok_in [OF tree pi(1,3)]] i path_ok_snocD [OF s]
      tree_ok_ppn [OF tree tree_ok_in [OF tree _ u]]
    by (simp add: pte_at_set_pte)
qed

lemmas table_at_set_leaf = table_at_cong [OF inner_same_set_leaf]
lemmas tree_ok_set_leaf = tree_ok_cong [OF _ inner_same_set_leaf]

text \<open>Linking a cleared frame \<open>f\<close> below the table \<open>t\<close> that is reached along \<open>\<pi>\<close>.\<close>

definition link :: "PhysPageNum \<Rightarrow> usize \<Rightarrow> PhysPageNum \<Rightarrow> memory \<Rightarrow> memory" where
  "link t i f m = set_pte t i (PageTableEntry_new f PTEFlags_V) (zero_page f m)"

lemma pte_at_link:
  assumes "ppn_ok t" "ppn_ok f" "ppn_ok q" "t \<noteq> f" "unat i < 512" "unat j < 512"
  shows "pte_at (link t i f m) q j =
    (if q = f then PageTableEntry 0
     else if q = t \<and> j = i then PageTableEntry_new f PTEFlags_V else pte_at m q j)"
  using assms by (auto simp: link_def pte_at_set_pte pte_at_zero_page)

lemma pte_new_V [simp]: "pte_valid (PageTableEntry_new f PTEFlags_V)"
  by (simp add: pte_valid_def)

lemma pte_zero_invalid [simp]: "\<not> pte_valid (PageTableEntry 0)"
  by (simp add: pte_valid_def)

lemma table_at_link:
  assumes tree: "tree_ok m r F" and pi: "path_ok \<pi>" "length \<pi> \<le> 1" "table_at m r \<pi> = Some t"
    and i: "unat i < 512" and inv: "\<not> pte_valid (pte_at m t i)" and f: "f \<notin> F" "ppn_ok f"
  shows "path_ok \<rho> \<Longrightarrow> table_at (link t i f m) r \<rho> =
    (if \<rho> = \<pi> @ [i] then Some f else table_at m r \<rho>)"
proof (induction \<rho> rule: rev_induct)
  case Nil
  then show ?case by simp
next
  case (snoc j \<rho>)
  note ok = path_ok_snocD [OF snoc.prems]
  have t: "t \<in> F" "ppn_ok t" "t \<noteq> f"
    using tree_ok_in [OF tree pi(1,3)] tree_ok_ppn [OF tree] f(1) by auto
  have IH: "table_at (link t i f m) r \<rho> = (if \<rho> = \<pi> @ [i] then Some f else table_at m r \<rho>)"
    using snoc.IH ok by blast
  have old: "table_at m r (\<pi> @ [i]) = None" using pi(3) inv by (simp add: table_at_snoc)
  show ?case
  proof (cases "\<rho> = \<pi> @ [i]")
    case True
    have "table_at (link t i f m) r \<rho> = Some f" using IH True by simp
    then have "table_at (link t i f m) r (\<rho> @ [j]) = None"
      using t f(2) i ok by (simp add: table_at_snoc pte_at_link)
    moreover have "table_at m r \<rho> = None" using old True by (simp only:)
    then have "table_at m r (\<rho> @ [j]) = None" by (simp add: table_at_snoc)
    ultimately show ?thesis using True by simp
  next
    case False
    show ?thesis
    proof (cases "table_at m r \<rho>")
      case None
      have "\<rho> \<noteq> \<pi>" using None pi(3) by auto
      then show ?thesis using IH False None by (simp add: table_at_snoc)
    next
      case (Some u)
      then have u: "u \<in> F" "ppn_ok u" "u \<noteq> f"
        using tree_ok_in [OF tree] ok tree_ok_ppn [OF tree] f(1) by auto
      have same: "u = t \<longleftrightarrow> \<rho> = \<pi>"
        using tree_ok_inj [OF tree _ pi(1) Some] pi(3) ok Some by auto
      have "pte_at (link t i f m) u j =
        (if \<rho> = \<pi> \<and> j = i then PageTableEntry_new f PTEFlags_V else pte_at m u j)"
        using t f u i ok same by (simp add: pte_at_link)
      then show ?thesis
        using IH False Some f(2)
        by (cases "\<rho> = \<pi> \<and> j = i") (auto simp: table_at_snoc pte_ppn_new)
    qed
  qed
qed

lemma tree_ok_link:
  assumes tree: "tree_ok m r F" and pi: "path_ok \<pi>" "length \<pi> \<le> 1" "table_at m r \<pi> = Some t"
    and i: "unat i < 512" and inv: "\<not> pte_valid (pte_at m t i)" and f: "f \<notin> F" "ppn_ok f"
  shows "tree_ok (link t i f m) r (insert f F)"
  unfolding tree_ok_def
proof (intro conjI allI ballI impI)
  note at = table_at_link [OF assms]
  show "u \<in> insert f F" if "path_ok \<rho>" "table_at (link t i f m) r \<rho> = Some u" for \<rho> u
    using that at tree_ok_in [OF tree] by (auto split: if_splits)
  have ne: "table_at m r \<rho> \<noteq> Some f" if "path_ok \<rho>" for \<rho>
    using tree_ok_in [OF tree that] f(1) by auto
  show "\<rho> = \<sigma>" if "path_ok \<rho>" "path_ok \<sigma>" "table_at (link t i f m) r \<rho> = Some u"
    "table_at (link t i f m) r \<sigma> = Some u" for \<rho> \<sigma> u
    using that at ne tree_ok_inj [OF tree] by (auto split: if_splits)
  show "ppn_ok p" if "p \<in> insert f F" for p
    using that tree_ok_ppn [OF tree] f(2) by auto
  have t: "t \<in> F" "ppn_ok t" "t \<noteq> f"
    using tree_ok_in [OF tree pi(1,3)] tree_ok_ppn [OF tree] f(1) by auto
  show "pte_at (link t i f m) u j = PageTableEntry_new (pte_ppn (pte_at (link t i f m) u j)) PTEFlags_V"
    if rho: "path_ok (\<rho> @ [j])" and u: "table_at (link t i f m) r \<rho> = Some u"
      and v: "pte_valid (pte_at (link t i f m) u j)" for \<rho> j u
  proof -
    note ok = path_ok_snocD [OF rho]
    have "u \<noteq> f" using v t f(2) i ok by (auto simp: pte_at_link)
    then have old: "table_at m r \<rho> = Some u" using u at ok by (auto split: if_splits)
    then have "ppn_ok u" using tree_ok_in [OF tree] ok tree_ok_ppn [OF tree] by blast
    then show ?thesis
      using v t f(2) i ok \<open>u \<noteq> f\<close> tree_ok_inner [OF tree rho old]
      by (auto simp: pte_at_link pte_ppn_new)
  qed
qed

end
