(* ===== verification/Page_Table.thy ===== *)
theory Page_Table
  imports Frame_Allocator
begin

text \<open>
  The trait \<open>PageTable\<close> of \<^verbatim>\<open>src/page_table/mod.rs\<close> as a contract. A page table
  promises its clients a partial map \<open>view\<close> from virtual page numbers to leaf
  entries, which \<open>map\<close> extends, \<open>unmap\<close> shrinks and \<open>translate\<close> reads; the frames
  it keeps its tables in (\<open>tables\<close>), outside of which it changes no memory; and
  the number of frames the next \<open>map\<close> takes (\<open>need\<close>).
\<close>

section \<open>Growing ownership\<close>

text \<open>
  \<open>grown base T T' s s'\<close>: an owner of the frames \<open>T\<close> has moved the world from \<open>s\<close>
  to \<open>s'\<close> and owns \<open>T'\<close> now. What it did not own before it took from the free
  frames, pages it does not own are as they were, and nothing was given back.
\<close>

definition grown ::
  "nat \<Rightarrow> PhysPageNum set \<Rightarrow> PhysPageNum set \<Rightarrow> 'x world_scheme \<Rightarrow> 'x world_scheme \<Rightarrow> bool" where
  "grown base T T' s s' \<longleftrightarrow> alloc_ok base s' \<and> T \<subseteq> T' \<and> live base s' = live base s \<union> T' \<and>
     (T' - T) \<inter> live base s = {} \<and> (\<forall>q. q \<notin> T' \<longrightarrow> page_same q (mem s) (mem s')) \<and>
     frames_end s' = frames_end s \<and> (recycled s = [] \<longrightarrow> recycled s' = []) \<and> world.more s' = world.more s"

lemma grown_refl: "alloc_ok base s \<Longrightarrow> T \<subseteq> live base s \<Longrightarrow> grown base T T s s"
  by (auto simp: grown_def)

lemma grown_trans:
  assumes "grown base T T' s s'" "grown base T' T'' s' s''"
  shows "grown base T T'' s s''"
proof -
  have "page_same q (mem s) (mem s'')" if "q \<notin> T''" for q
    using assms that unfolding grown_def by (meson page_same_trans subsetD)
  moreover have "(T'' - T) \<inter> live base s = {}" using assms unfolding grown_def by blast
  ultimately show ?thesis using assms unfolding grown_def by auto
qed

lemma grownD:
  assumes "grown base T T' s s'"
  shows "alloc_ok base s'" "T \<subseteq> T'" "T' \<subseteq> live base s'" "live base s \<subseteq> live base s'"
    "\<And>q. q \<notin> T' \<Longrightarrow> page_same q (mem s) (mem s')" "\<And>q. q \<in> live base s \<Longrightarrow> q \<notin> T \<Longrightarrow> q \<notin> T'"
    "world.more s' = world.more s" "frames_end s' = frames_end s" "recycled s = [] \<Longrightarrow> recycled s' = []"
  using assms by (auto simp: grown_def)

text \<open>What another owner has in live frames outside \<open>T\<close> is untouched.\<close>

lemma grown_other:
  assumes "grown base T T' s s'" "O' \<subseteq> live base s" "O' \<inter> T = {}"
  shows "O' \<inter> T' = {}" "O' \<subseteq> live base s'" "\<And>q. q \<in> O' \<Longrightarrow> page_same q (mem s) (mem s')"
proof -
  show d: "O' \<inter> T' = {}" using grownD(6) [OF assms(1)] assms(2,3) by blast
  show "O' \<subseteq> live base s'" using grownD(4) [OF assms(1)] assms(2) by blast
  show "page_same q (mem s) (mem s')" if "q \<in> O'" for q
    using grownD(5) [OF assms(1)] d that by blast
qed

text \<open>A wider owner makes the same step.\<close>

lemma grown_frame:
  assumes "grown base T T' s s'" "D \<subseteq> live base s"
  shows "grown base (T \<union> D) (T' \<union> D) s s'"
  using assms by (auto simp: grown_def)

lemma grown_frame_alloc:
  assumes "alloc_ok base s" "frame_alloc_unwrap s = Inr (ft, s')" "T \<subseteq> live base s"
  shows "grown base T (insert (ft_ppn ft) T) s s'"
proof -
  note c = frame_alloc_unwrap_cases [OF assms(1,2)]
  have "page_same q (mem s) (mem s')" if "q \<noteq> ft_ppn ft" for q
    using c(3,6) that by (simp add: page_same_zero_page)
  with c frame_alloc_end [OF assms(2)] frame_alloc_recycled [OF assms(2)] assms(3) show ?thesis
    unfolding grown_def by auto
qed

section \<open>The trait\<close>

locale page_table_contract =
  fixes base :: nat
    and pt_map :: "'p \<Rightarrow> VirtPageNum \<Rightarrow> PhysPageNum \<Rightarrow> PTEFlags \<Rightarrow> 'x world_scheme \<Rightarrow>
      ('p \<times> 'x world_scheme) result"
    and pt_unmap :: "'p \<Rightarrow> VirtPageNum \<Rightarrow> 'x world_scheme \<Rightarrow> ('p \<times> 'x world_scheme) result"
    and pt_translate :: "'p \<Rightarrow> VirtPageNum \<Rightarrow> 'x world_scheme \<Rightarrow> PageTableEntry option result"
    and inv :: "'p \<Rightarrow> 'x world_scheme \<Rightarrow> bool"
    and view :: "'p \<Rightarrow> 'x world_scheme \<Rightarrow> VirtPageNum \<Rightarrow> PageTableEntry option"
    and tables :: "'p \<Rightarrow> PhysPageNum set"
    and need :: "'p \<Rightarrow> 'x world_scheme \<Rightarrow> VirtPageNum \<Rightarrow> nat"
  assumes inv_tables: "inv p s \<Longrightarrow> alloc_ok base s \<and> tables p \<subseteq> live base s"
    and inv_local: "inv p s \<Longrightarrow> alloc_ok base s' \<Longrightarrow> tables p \<subseteq> live base s' \<Longrightarrow>
      (\<And>q. q \<in> tables p \<Longrightarrow> page_same q (mem s) (mem s')) \<Longrightarrow>
      inv p s' \<and> view p s' = view p s \<and> need p s' = need p s"
    and view_ok: "view p s v = Some e \<Longrightarrow> vpn_ok v"
    and map_new: "inv p s \<Longrightarrow> vpn_ok v \<Longrightarrow> view p s v = None \<Longrightarrow> need p s v \<le> free_frames s \<Longrightarrow>
      \<exists>p' s'. pt_map p v ppn fl s = Inr (p', s') \<and> inv p' s' \<and>
        view p' s' = (view p s)(v \<mapsto> PageTableEntry_new ppn (fl OR PTEFlags_V)) \<and>
        grown base (tables p) (tables p') s s' \<and> free_frames s = free_frames s' + need p s v"
    and map_mapped: "inv p s \<Longrightarrow> view p s v \<noteq> None \<Longrightarrow> pt_map p v ppn fl s = Inl AssertFailed"
    and map_full: "inv p s \<Longrightarrow> vpn_ok v \<Longrightarrow> view p s v = None \<Longrightarrow> free_frames s < need p s v \<Longrightarrow>
      pt_map p v ppn fl s = Inl UnwrapNone"
    and unmap_mapped: "inv p s \<Longrightarrow> view p s v \<noteq> None \<Longrightarrow>
      \<exists>p' s'. pt_unmap p v s = Inr (p', s') \<and> inv p' s' \<and> view p' s' = (view p s)(v := None) \<and>
        tables p' = tables p \<and> grown base (tables p) (tables p) s s' \<and> free_frames s' = free_frames s"
    and unmap_missing: "inv p s \<Longrightarrow> vpn_ok v \<Longrightarrow> view p s v = None \<Longrightarrow>
      pt_unmap p v s = Inl UnwrapNone \<or> pt_unmap p v s = Inl AssertFailed"
    and translate_mapped: "inv p s \<Longrightarrow> view p s v = Some e \<Longrightarrow> pt_translate p v s = Inr (Some e)"
    and translate_missing: "inv p s \<Longrightarrow> vpn_ok v \<Longrightarrow> view p s v = None \<Longrightarrow>
      pt_translate p v s = Inr None \<or>
      (\<exists>e. pt_translate p v s = Inr (Some e) \<and> is_valid e = Inr False)"
    and need_le: "need p s v \<le> 2"
    and need_same_2mb: "inv p s \<Longrightarrow> view p s w \<noteq> None \<Longrightarrow> vpn_ok v \<Longrightarrow>
      unat (vpn_0 v) div 512 = unat (vpn_0 w) div 512 \<Longrightarrow> need p s v = 0"
    and need_same_1gb: "inv p s \<Longrightarrow> view p s w \<noteq> None \<Longrightarrow> vpn_ok v \<Longrightarrow>
      unat (vpn_0 v) div 2 ^ 18 = unat (vpn_0 w) div 2 ^ 18 \<Longrightarrow> need p s v \<le> 1"
begin

text \<open>A \<open>map\<close> that returns found the page unmapped and enough free frames.\<close>

lemma map_returned:
  assumes "inv p s" "vpn_ok v" "pt_map p v ppn fl s = Inr (p', s')"
  shows "view p s v = None" "inv p' s'"
    "view p' s' = (view p s)(v \<mapsto> PageTableEntry_new ppn (fl OR PTEFlags_V))"
    "grown base (tables p) (tables p') s s'" "free_frames s = free_frames s' + need p s v"
proof -
  show v: "view p s v = None" using map_mapped [OF assms(1)] assms(3) by (metis sum.distinct(1))
  have "need p s v \<le> free_frames s"
    using map_full [OF assms(1,2) v] assms(3) by (metis not_less sum.distinct(1))
  from map_new [OF assms(1,2) v this, of ppn fl] assms(3)
  show "inv p' s'" "view p' s' = (view p s)(v \<mapsto> PageTableEntry_new ppn (fl OR PTEFlags_V))"
    "grown base (tables p) (tables p') s s'" "free_frames s = free_frames s' + need p s v"
    by auto
qed

text \<open>The tables of another page table survive.\<close>

lemma inv_grown_other:
  assumes "inv p s" "grown base T T' s s'" "tables p \<inter> T = {}"
  shows "inv p s' \<and> view p s' = view p s \<and> need p s' = need p s \<and> tables p \<inter> T' = {}"
  using inv_local [OF assms(1) grownD(1) [OF assms(2)]] grown_other [OF assms(2) _ assms(3)]
    inv_tables [OF assms(1)] by blast

text \<open>Allocating a frame for somebody else does not change the table.\<close>

lemma inv_frame_alloc:
  assumes "inv p s" "frame_alloc_unwrap s = Inr (ft, s')"
  shows "inv p s'" "view p s' = view p s" "need p s' = need p s" "ft_ppn ft \<notin> tables p"
proof -
  note a = inv_tables [OF assms(1)]
  note c = frame_alloc_unwrap_cases [OF conjunct1 [OF a] assms(2)]
  have n: "ft_ppn ft \<notin> tables p" using a c(2) by blast
  have "page_same q (mem s) (mem s')" if "q \<in> tables p" for q
    using c(3,6) n that by (metis page_same_zero_page)
  then have "inv p s' \<and> view p s' = view p s \<and> need p s' = need p s"
    using a c(1,4) by (intro inv_local [OF assms(1)]) auto
  with n show "inv p s'" "view p s' = view p s" "need p s' = need p s" "ft_ppn ft \<notin> tables p"
    by auto
qed

end

end
