(* ===== verification/Sv39_Correct.thy ===== *)
theory Sv39_Correct
  imports Sv39_Tree Page_Table
begin

text \<open>
  \<open>PageTableSv39\<close> implements the trait \<open>PageTable\<close>: its view is the partial map
  that a walk through the three levels gives, its invariant is that the tables
  form a tree of live frames.
\<close>

section \<open>Invariant, view and cost\<close>

definition sv39_tables :: "PageTableSv39 \<Rightarrow> PhysPageNum set" where
  "sv39_tables pt = ft_ppn ` set (pt_frames pt)"

definition sv39_inv :: "nat \<Rightarrow> PageTableSv39 \<Rightarrow> 'x world_scheme \<Rightarrow> bool" where
  "sv39_inv base pt s \<longleftrightarrow> alloc_ok base s \<and> sv39_tables pt \<subseteq> live base s \<and>
     tree_ok (mem s) (root_ppn pt) (sv39_tables pt)"

definition vpn_path :: "VirtPageNum \<Rightarrow> usize list" where
  "vpn_path v = [drop_bit 18 (vpn_0 v) AND 511, drop_bit 9 (vpn_0 v) AND 511]"

definition vpn_leaf :: "VirtPageNum \<Rightarrow> usize" where
  "vpn_leaf v = vpn_0 v AND 511"

definition leaf_at :: "memory \<Rightarrow> PhysPageNum \<Rightarrow> VirtPageNum \<Rightarrow> PageTableEntry option" where
  "leaf_at m r v = (case table_at m r (vpn_path v) of None \<Rightarrow> None
     | Some t \<Rightarrow> if pte_valid (pte_at m t (vpn_leaf v)) then Some (pte_at m t (vpn_leaf v)) else None)"

definition sv39_view :: "PageTableSv39 \<Rightarrow> 'x world_scheme \<Rightarrow> VirtPageNum \<Rightarrow> PageTableEntry option" where
  "sv39_view pt s v = (if vpn_ok v then leaf_at (mem s) (root_ppn pt) v else None)"

definition sv39_need :: "PageTableSv39 \<Rightarrow> 'x world_scheme \<Rightarrow> VirtPageNum \<Rightarrow> nat" where
  "sv39_need pt s v =
     (if table_at (mem s) (root_ppn pt) [hd (vpn_path v)] = None then 2
      else if table_at (mem s) (root_ppn pt) (vpn_path v) = None then 1 else 0)"

lemma indexes_path: "indexes v = vpn_path v @ [vpn_leaf v]"
  by (simp add: indexes_eq vpn_path_def vpn_leaf_def)

lemma vpn_path_ok [simp]: "path_ok (vpn_path v)" "path_ok [hd (vpn_path v)]"
  by (simp_all add: path_ok_def vpn_path_def unat_and_511)

lemma vpn_path_shape [simp]: "[hd (vpn_path v), last (vpn_path v)] = vpn_path v"
  by (simp add: vpn_path_def)

lemmas one_more_index = append.simps vpn_path_shape

lemma vpn_path_bounds [simp]:
  "length (vpn_path v) = 2" "unat (hd (vpn_path v)) < 512" "unat (last (vpn_path v)) < 512"
  "unat (vpn_leaf v) < 512"
  by (simp_all add: vpn_path_def vpn_leaf_def unat_and_511)

lemma vpn_path_not_single [simp]: "vpn_path v \<noteq> [i]"
  by (simp add: vpn_path_def)

lemma path_leaf_inj:
  "vpn_ok v \<Longrightarrow> vpn_ok w \<Longrightarrow> vpn_path v = vpn_path w \<Longrightarrow> vpn_leaf v = vpn_leaf w \<Longrightarrow> v = w"
  by (rule indexes_inj) (simp_all add: indexes_path)

lemma find_pte_eq:
  "find_pte pt v s =
     Inr (map_option (\<lambda>t. pte_addr t (vpn_leaf v)) (table_at (mem s) (root_ppn pt) (vpn_path v)))"
  by (simp add: find_pte_def indexes_eq get_pte_array_ok unat_and_511 vpn_path_def vpn_leaf_def
      pte_valid_def flip: pte_at_def)

lemma sv39_inv_parts:
  assumes "sv39_inv base pt s"
  shows "alloc_ok base s" "sv39_tables pt \<subseteq> live base s" "tree_ok (mem s) (root_ppn pt) (sv39_tables pt)"
  using assms by (simp_all add: sv39_inv_def)

declare table_at.simps(2) [simp del]

section \<open>One level down\<close>

definition descend ::
  "PhysPageNum \<Rightarrow> usize \<Rightarrow> PageTableSv39 \<Rightarrow> 'x world_scheme \<Rightarrow>
   (PhysPageNum \<times> PageTableSv39 \<times> 'x world_scheme) result" where
  "descend t i pt s =
     (if pte_valid (pte_at (mem s) t i) then Inr (pte_ppn (pte_at (mem s) t i), pt, s)
      else bindR (frame_alloc_unwrap s) (\<lambda>(f, s1).
        Inr (pte_ppn (PageTableEntry_new (ft_ppn f) PTEFlags_V),
             pt\<lparr>pt_frames := pt_frames pt @ [f]\<rparr>,
             store_pte (pte_addr t i) (PageTableEntry_new (ft_ppn f) PTEFlags_V) s1)))"

lemma pte_at_store_same: "pte_at (mem (store_pte (pte_addr t i) e s)) t i = e"
  by (simp add: pte_at_def load_pte_def store_pte_def read_write_u64_same)

lemma find_pte_create_descend:
  "find_pte_create pt v s =
     bindR (descend (root_ppn pt) (hd (vpn_path v)) pt s) (\<lambda>(t1, pt1, s1).
     bindR (descend t1 (last (vpn_path v)) pt1 s1) (\<lambda>(t2, pt2, s2).
     Inr (Some (pte_addr t2 (vpn_leaf v)), pt2, s2)))"
proof -
  have step: "find_pte_create_loop t ((n, i) # rest) p u =
      bindR (descend t i p u) (\<lambda>(t', p', u'). find_pte_create_loop t' rest p' u')"
    if "n \<noteq> 2" "unat i < 512" for t n i rest p and u :: "'a world_scheme"
    using that by (cases "frame_alloc_unwrap u")
      (auto simp: descend_def get_pte_array_ok pte_valid_def Let_def pte_at_store_same simp flip: pte_at_def)
  show ?thesis
    by (simp add: find_pte_create_def indexes_eq step unat_and_511 get_pte_array_ok
        vpn_path_def vpn_leaf_def del: find_pte_create_loop.simps(2))
       (simp add: get_pte_array_ok unat_and_511)
qed

lemma descend_present:
  assumes "table_at (mem s) (root_ppn pt) \<pi> = Some t" "pte_valid (pte_at (mem s) t i)"
  shows "\<exists>t'. descend t i pt s = Inr (t', pt, s) \<and> table_at (mem s) (root_ppn pt) (\<pi> @ [i]) = Some t'"
  using assms by (simp add: descend_def table_at_snoc)

lemma descend_full:
  assumes "alloc_ok base s" "\<not> pte_valid (pte_at (mem s) t i)" "free_frames s = 0"
  shows "descend t i pt s = Inl UnwrapNone"
  using assms
  by (auto simp: descend_def frame_alloc_unwrap_def frame_alloc_def alloc_ok_def free_frames_def
      stack.alloc_none)

text \<open>
  An absent table is a cleared frame, linked: the view does not change, the path
  \<open>\<pi> @ [i]\<close> exists now and no other path is affected.
\<close>

lemma leaf_at_link:
  assumes tree: "tree_ok m r F" and pi: "path_ok \<pi>" "length \<pi> \<le> 1" "table_at m r \<pi> = Some t"
    and i: "unat i < 512" and inv: "\<not> pte_valid (pte_at m t i)" and f: "f \<notin> F" "ppn_ok f"
  shows "leaf_at (link t i f m) r v = leaf_at m r v"
proof -
  note at = table_at_link [OF assms vpn_path_ok(1) [of v]]
  have t: "t \<in> F" "ppn_ok t" "t \<noteq> f"
    using tree_ok_in [OF tree pi(1,3)] tree_ok_ppn [OF tree] f(1) by auto
  show ?thesis
  proof (cases "vpn_path v = \<pi> @ [i]")
    case True
    have new: "table_at (link t i f m) r (vpn_path v) = Some f" using at True by simp
    have old: "table_at m r (\<pi> @ [i]) = None" using pi(3) inv by (simp add: table_at_snoc)
    with new show ?thesis using t f(2) i
      by (simp only: leaf_at_def True) (simp add: pte_at_link)
  next
    case False
    then have same: "table_at (link t i f m) r (vpn_path v) = table_at m r (vpn_path v)"
      using at by simp
    show ?thesis
    proof (cases "table_at m r (vpn_path v)")
      case (Some u)
      have "u \<in> F" using tree_ok_in [OF tree _ Some] by simp
      then have "ppn_ok u" "u \<noteq> f" using tree_ok_ppn [OF tree] f(1) by auto
      moreover have "u \<noteq> t" using tree_ok_inj [OF tree vpn_path_ok(1) pi(1) Some] pi(2,3) by auto
      ultimately have "pte_at (link t i f m) u (vpn_leaf v) = pte_at m u (vpn_leaf v)"
        using t f(2) i by (simp add: pte_at_link)
      with same Some show ?thesis by (simp add: leaf_at_def)
    qed (simp add: leaf_at_def same)
  qed
qed

lemma descend_absent:
  assumes inv: "sv39_inv base pt s" and pi: "path_ok \<pi>" "length \<pi> \<le> 1"
    and t: "table_at (mem s) (root_ppn pt) \<pi> = Some t" and i: "unat i < 512"
    and absent: "\<not> pte_valid (pte_at (mem s) t i)" and free: "0 < free_frames s"
  obtains f pt' s' where "descend t i pt s = Inr (f, pt', s')" "sv39_inv base pt' s'"
    "root_ppn pt' = root_ppn pt" "sv39_view pt' s' = sv39_view pt s"
    "grown base (sv39_tables pt) (sv39_tables pt') s s'" "free_frames s = Suc (free_frames s')"
    "\<And>\<rho>. path_ok \<rho> \<Longrightarrow> table_at (mem s') (root_ppn pt) \<rho> =
       (if \<rho> = \<pi> @ [i] then Some f else table_at (mem s) (root_ppn pt) \<rho>)"
proof -
  note parts = sv39_inv_parts [OF inv]
  obtain ft u where u: "frame_alloc_unwrap s = Inr (ft, u)"
    using frame_alloc_unwrap_progress [OF parts(1) free] by blast
  define f where "f = ft_ppn ft"
  define pt' where "pt' = pt\<lparr>pt_frames := pt_frames pt @ [ft]\<rparr>"
  define s' where "s' = store_pte (pte_addr t i) (PageTableEntry_new f PTEFlags_V) u"
  note c = frame_alloc_unwrap_cases [OF parts(1) u, folded f_def]
  have m: "mem s' = link t i f (mem s)"
    by (simp add: s'_def store_pte_def link_def set_pte_def c(6))
  have fF: "f \<notin> sv39_tables pt" using c(2) parts(2) by auto
  note lk = parts(3) pi t i absent fF c(3)
  have T: "sv39_tables pt' = insert f (sv39_tables pt)" by (simp add: sv39_tables_def pt'_def f_def)
  have R: "root_ppn pt' = root_ppn pt" by (simp add: pt'_def)
  have tF: "t \<in> sv39_tables pt" "ppn_ok t"
    using tree_ok_in [OF parts(3) pi(1) t] tree_ok_ppn [OF parts(3)] by auto
  have a: "alloc_ok base s'" "live base s' = insert f (live base s)" "free_frames s = Suc (free_frames s')"
    "world.more s' = world.more s" "frames_end s' = frames_end s" "recycled s = [] \<longrightarrow> recycled s' = []"
    using c frame_alloc_end [OF u] frame_alloc_recycled [OF u] by (simp_all add: s'_def store_pte_def)
  have "page_same q (mem s) (mem s')" if "q \<notin> insert f (sv39_tables pt)" for q
    using that tF i c(3) unfolding m link_def
    by (metis insert_iff page_same_set_pte page_same_trans page_same_zero_page)
  then have g: "grown base (sv39_tables pt) (sv39_tables pt') s s'"
    using a parts(2) c(2) unfolding grown_def T by auto
  show thesis
  proof (rule that [of f pt' s'])
    show "descend t i pt s = Inr (f, pt', s')"
      using absent u c(3) by (simp add: descend_def pt'_def s'_def f_def pte_ppn_new)
    show "sv39_inv base pt' s'"
      using a parts(2) tree_ok_link [OF lk] by (auto simp: sv39_inv_def T m R)
    show "sv39_view pt' s' = sv39_view pt s"
      using leaf_at_link [OF lk] by (auto simp: sv39_view_def fun_eq_iff m R)
    show "table_at (mem s') (root_ppn pt) \<rho> =
        (if \<rho> = \<pi> @ [i] then Some f else table_at (mem s) (root_ppn pt) \<rho>)" if "path_ok \<rho>" for \<rho>
      unfolding m by (rule table_at_link [OF lk that])
  qed (use g a R in simp_all)
qed

text \<open>Both cases: the next table is there afterwards.\<close>

lemma descend_ok:
  assumes inv: "sv39_inv base pt s" and pi: "path_ok \<pi>" "length \<pi> \<le> 1"
    and t: "table_at (mem s) (root_ppn pt) \<pi> = Some t" and i: "unat i < 512"
    and free: "table_at (mem s) (root_ppn pt) (\<pi> @ [i]) = None \<Longrightarrow> 0 < free_frames s"
  obtains f pt' s' where "descend t i pt s = Inr (f, pt', s')" "sv39_inv base pt' s'"
    "root_ppn pt' = root_ppn pt" "sv39_view pt' s' = sv39_view pt s"
    "grown base (sv39_tables pt) (sv39_tables pt') s s'"
    "free_frames s = free_frames s' +
       (if table_at (mem s) (root_ppn pt) (\<pi> @ [i]) = None then 1 else 0)"
    "\<And>\<rho>. path_ok \<rho> \<Longrightarrow> table_at (mem s') (root_ppn pt) \<rho> =
       (if \<rho> = \<pi> @ [i] then Some f else table_at (mem s) (root_ppn pt) \<rho>)"
proof (cases "pte_valid (pte_at (mem s) t i)")
  case True
  obtain f where f: "descend t i pt s = Inr (f, pt, s)"
    "table_at (mem s) (root_ppn pt) (\<pi> @ [i]) = Some f"
    using descend_present [OF t True] by blast
  show thesis
    by (rule that [OF f(1) inv])
       (use f(2) grown_refl sv39_inv_parts [OF inv] in auto)
next
  case False
  then have n: "table_at (mem s) (root_ppn pt) (\<pi> @ [i]) = None" using t by (simp add: table_at_snoc)
  show thesis
    by (rule descend_absent [OF inv pi t i False free [OF n]], rule that, assumption+)
       (simp_all only: n simp_thms if_True Suc_eq_plus1)
qed

section \<open>The leaf entry\<close>

lemma table_at_prefix:
  assumes "table_at m r (vpn_path v) = Some t"
  shows "table_at m r [hd (vpn_path v)] \<noteq> None"
proof -
  have "table_at m r ([hd (vpn_path v)] @ [last (vpn_path v)]) = Some t" using assms by simp
  then show ?thesis by (auto simp only: table_at_snoc split: option.splits)
qed

lemma need_cost:
  "sv39_need pt s v =
     (if table_at (mem s) (root_ppn pt) [hd (vpn_path v)] = None then 1 else 0) +
     (if table_at (mem s) (root_ppn pt) (vpn_path v) = None then 1 else 0)"
  using table_at_prefix [of "mem s" "root_ppn pt" v]
  by (cases "table_at (mem s) (root_ppn pt) (vpn_path v)") (auto simp: sv39_need_def)

lemma find_pte_create_ok:
  assumes inv: "sv39_inv base pt s" and free: "sv39_need pt s v \<le> free_frames s"
  obtains t pt' s' where "find_pte_create pt v s = Inr (Some (pte_addr t (vpn_leaf v)), pt', s')"
    "sv39_inv base pt' s'" "root_ppn pt' = root_ppn pt" "sv39_view pt' s' = sv39_view pt s"
    "table_at (mem s') (root_ppn pt) (vpn_path v) = Some t"
    "grown base (sv39_tables pt) (sv39_tables pt') s s'" "free_frames s = free_frames s' + sv39_need pt s v"
proof -
  let ?r = "root_ppn pt" and ?i = "hd (vpn_path v)" and ?j = "last (vpn_path v)"
  note cost = free [unfolded need_cost]
  obtain t1 pt1 s1 where 1: "descend ?r ?i pt s = Inr (t1, pt1, s1)" "sv39_inv base pt1 s1"
    "root_ppn pt1 = ?r" "sv39_view pt1 s1 = sv39_view pt s"
    "grown base (sv39_tables pt) (sv39_tables pt1) s s1"
    "free_frames s = free_frames s1 + (if table_at (mem s) ?r [?i] = None then 1 else 0)"
    "\<And>\<rho>. path_ok \<rho> \<Longrightarrow> table_at (mem s1) ?r \<rho> = (if \<rho> = [?i] then Some t1 else table_at (mem s) ?r \<rho>)"
    by (rule descend_ok [OF inv, of "[]" ?r ?i, unfolded one_more_index])
       (use cost in \<open>simp_all split: if_splits\<close>)
  have t1: "table_at (mem s1) (root_ppn pt1) [?i] = Some t1"
    using 1(3) 1(7) [of "[?i]"] by simp
  have same: "table_at (mem s1) (root_ppn pt1) (vpn_path v) = table_at (mem s) ?r (vpn_path v)"
    using 1(3) 1(7) [of "vpn_path v"] by simp
  obtain t2 pt2 s2 where 2: "descend t1 ?j pt1 s1 = Inr (t2, pt2, s2)" "sv39_inv base pt2 s2"
    "root_ppn pt2 = root_ppn pt1" "sv39_view pt2 s2 = sv39_view pt1 s1"
    "grown base (sv39_tables pt1) (sv39_tables pt2) s1 s2"
    "free_frames s1 = free_frames s2 + (if table_at (mem s1) (root_ppn pt1) (vpn_path v) = None then 1 else 0)"
    "\<And>\<rho>. path_ok \<rho> \<Longrightarrow> table_at (mem s2) (root_ppn pt1) \<rho> =
       (if \<rho> = vpn_path v then Some t2 else table_at (mem s1) (root_ppn pt1) \<rho>)"
    by (rule descend_ok [OF 1(2) vpn_path_ok(2) _ t1, of ?j, unfolded one_more_index])
       (use cost 1(6) same in \<open>simp_all split: if_splits\<close>)
  show thesis
  proof (rule that [of t2 pt2 s2])
    show "find_pte_create pt v s = Inr (Some (pte_addr t2 (vpn_leaf v)), pt2, s2)"
      by (simp add: find_pte_create_descend 1(1) 2(1))
    show "table_at (mem s2) ?r (vpn_path v) = Some t2"
      using 2(7) [of "vpn_path v"] 1(3) by simp
    show "free_frames s = free_frames s2 + sv39_need pt s v"
      unfolding need_cost using 1(6) 2(6) same by simp
    show "grown base (sv39_tables pt) (sv39_tables pt2) s s2" by (rule grown_trans [OF 1(5) 2(5)])
  qed (simp_all add: 2 1)
qed

lemma find_pte_create_full:
  assumes inv: "sv39_inv base pt s" and full: "free_frames s < sv39_need pt s v"
  shows "find_pte_create pt v s = Inl UnwrapNone"
proof -
  let ?r = "root_ppn pt" and ?i = "hd (vpn_path v)" and ?j = "last (vpn_path v)"
  note cost = full [unfolded need_cost]
  have absent: "\<not> pte_valid (pte_at m t i)" if "table_at m r \<pi> = Some t" "table_at m r (\<pi> @ [i]) = None"
    for m r \<pi> t i using that by (simp add: table_at_snoc split: if_splits)
  show ?thesis
  proof (cases "table_at (mem s) ?r [?i] = None \<and> free_frames s = 0")
    case True
    then have "\<not> pte_valid (pte_at (mem s) ?r ?i)" using absent [of _ _ "[]"] by simp
    with True show ?thesis
      by (simp add: find_pte_create_descend descend_full [OF sv39_inv_parts(1) [OF inv]])
  next
    case False
    obtain t1 pt1 s1 where 1: "descend ?r ?i pt s = Inr (t1, pt1, s1)" "sv39_inv base pt1 s1"
      "free_frames s = free_frames s1 + (if table_at (mem s) ?r [?i] = None then 1 else 0)"
      "\<And>\<rho>. path_ok \<rho> \<Longrightarrow> table_at (mem s1) ?r \<rho> = (if \<rho> = [?i] then Some t1 else table_at (mem s) ?r \<rho>)"
      by (rule descend_ok [OF inv, of "[]" ?r ?i, unfolded one_more_index]) (use False in auto)
    have t1: "table_at (mem s1) ?r [?i] = Some t1" using 1(4) [of "[?i]"] by simp
    have z: "table_at (mem s1) ?r (vpn_path v) = None" "free_frames s1 = 0"
      using cost 1(3) 1(4) [of "vpn_path v"] by (auto split: if_splits)
    then have "\<not> pte_valid (pte_at (mem s1) t1 ?j)" using absent [OF t1, of ?j] by simp
    with z show ?thesis
      by (simp add: find_pte_create_descend 1(1) descend_full [OF sv39_inv_parts(1) [OF 1(2)]])
  qed
qed

text \<open>Writing the leaf entry of \<open>v\<close> changes the view at \<open>v\<close> only.\<close>

lemma leaf_at_set_leaf:
  assumes tree: "tree_ok m r F" and t: "table_at m r (vpn_path v) = Some t"
    and ok: "vpn_ok v" "vpn_ok w"
  shows "leaf_at (set_pte t (vpn_leaf v) e m) r w =
    (if w = v then if pte_valid e then Some e else None else leaf_at m r w)"
proof -
  have same: "table_at (set_pte t (vpn_leaf v) e m) r (vpn_path w) = table_at m r (vpn_path w)"
    by (rule table_at_set_leaf [OF tree vpn_path_ok(1) vpn_path_bounds(1) t]) simp_all
  have tp: "ppn_ok t" using tree_ok_ppn [OF tree tree_ok_in [OF tree vpn_path_ok(1) t]] .
  show ?thesis
  proof (cases "table_at m r (vpn_path w)")
    case None
    then have "w \<noteq> v" using t by auto
    then show ?thesis using same None by (simp add: leaf_at_def)
  next
    case (Some u)
    have "ppn_ok u" using tree_ok_ppn [OF tree tree_ok_in [OF tree vpn_path_ok(1) Some]] .
    moreover have "t = u \<and> vpn_leaf v = vpn_leaf w \<longleftrightarrow> w = v"
      using tree_ok_inj [OF tree vpn_path_ok(1) vpn_path_ok(1) t, of w] Some t ok path_leaf_inj by auto
    ultimately have "pte_at (set_pte t (vpn_leaf v) e m) u (vpn_leaf w) =
        (if w = v then e else pte_at m u (vpn_leaf w))"
      using tp by (simp add: pte_at_set_pte)
    then show ?thesis using same Some by (cases "w = v") (simp_all add: leaf_at_def)
  qed
qed

lemma store_leaf:
  assumes inv: "sv39_inv base pt s" and ok: "vpn_ok v"
    and t: "table_at (mem s) (root_ppn pt) (vpn_path v) = Some t"
    and s'_def: "s' = store_pte (pte_addr t (vpn_leaf v)) e s"
  shows "sv39_inv base pt s'" "grown base (sv39_tables pt) (sv39_tables pt) s s'"
    "free_frames s' = free_frames s"
    "sv39_view pt s' = (sv39_view pt s)(v := if pte_valid e then Some e else None)"
proof -
  note parts = sv39_inv_parts [OF inv]
  have m: "mem s' = set_pte t (vpn_leaf v) e (mem s)" by (simp add: s'_def store_pte_def set_pte_def)
  have a: "alloc_ok base s'" "live base s' = live base s" "world.more s' = world.more s"
    "frames_end s' = frames_end s" "recycled s' = recycled s"
    using parts(1) by (simp_all add: s'_def store_pte_def)
  have tF: "t \<in> sv39_tables pt" "ppn_ok t"
    using tree_ok_in [OF parts(3) vpn_path_ok(1) t] tree_ok_ppn [OF parts(3)] by auto
  show "free_frames s' = free_frames s" by (simp add: s'_def store_pte_def)
  show "sv39_inv base pt s'"
    using a parts tree_ok_set_leaf [OF parts(3) parts(3) vpn_path_ok(1) vpn_path_bounds(1) t]
    by (simp add: sv39_inv_def m)
  have "page_same q (mem s) (mem s')" if "q \<notin> sv39_tables pt" for q
    unfolding m by (rule page_same_set_pte) (use that tF in auto)
  then show "grown base (sv39_tables pt) (sv39_tables pt) s s'"
    using a parts(2) by (auto simp: grown_def)
  show "sv39_view pt s' = (sv39_view pt s)(v := if pte_valid e then Some e else None)"
    using leaf_at_set_leaf [OF parts(3) t ok] ok by (auto simp: sv39_view_def m fun_eq_iff)
qed

section \<open>The trait operations\<close>

lemma view_table:
  assumes "sv39_view pt s v = Some e"
  obtains t where "table_at (mem s) (root_ppn pt) (vpn_path v) = Some t" "vpn_ok v"
    "pte_at (mem s) t (vpn_leaf v) = e" "pte_valid e"
  using assms by (auto simp: sv39_view_def leaf_at_def split: option.splits if_splits)

lemma view_none:
  assumes "sv39_view pt s v = None" "vpn_ok v" "table_at (mem s) (root_ppn pt) (vpn_path v) = Some t"
  shows "\<not> pte_valid (pte_at (mem s) t (vpn_leaf v))"
  using assms by (auto simp: sv39_view_def leaf_at_def split: if_splits)

lemma sv39_map_new:
  assumes "sv39_inv base pt s" "vpn_ok v" "sv39_view pt s v = None" "sv39_need pt s v \<le> free_frames s"
  shows "\<exists>pt' s'. sv39_map pt v ppn fl s = Inr (pt', s') \<and> sv39_inv base pt' s' \<and>
     sv39_view pt' s' = (sv39_view pt s)(v \<mapsto> PageTableEntry_new ppn (fl OR PTEFlags_V)) \<and>
     grown base (sv39_tables pt) (sv39_tables pt') s s' \<and> free_frames s = free_frames s' + sv39_need pt s v"
proof -
  obtain t pt' u where u: "find_pte_create pt v s = Inr (Some (pte_addr t (vpn_leaf v)), pt', u)"
    "sv39_inv base pt' u" "root_ppn pt' = root_ppn pt" "sv39_view pt' u = sv39_view pt s"
    "table_at (mem u) (root_ppn pt) (vpn_path v) = Some t"
    "grown base (sv39_tables pt) (sv39_tables pt') s u" "free_frames s = free_frames u + sv39_need pt s v"
    by (rule find_pte_create_ok [OF assms(1,4)])
  have t: "table_at (mem u) (root_ppn pt') (vpn_path v) = Some t" using u(3,5) by simp
  let ?e = "PageTableEntry_new ppn (fl OR PTEFlags_V)"
  note st = store_leaf [OF u(2) assms(2) t refl, of ?e]
  have "\<not> bit (pte_bits (load_pte (mem u) (pte_addr t (vpn_leaf v)))) 0"
    using view_none [OF _ assms(2) t] assms(3) u(4) by (simp add: pte_valid_def pte_at_def)
  then have "sv39_map pt v ppn fl s = Inr (pt', store_pte (pte_addr t (vpn_leaf v)) ?e u)"
    by (simp add: sv39_map_def u(1))
  moreover have "pte_valid ?e" by (simp add: pte_valid_def bit_or_iff)
  ultimately show ?thesis using st u(4,7) grown_trans [OF u(6) st(2)] by simp
qed

lemma sv39_map_mapped:
  assumes "sv39_inv base pt s" "sv39_view pt s v = Some e"
  shows "sv39_map pt v ppn fl s = Inl AssertFailed"
proof -
  obtain t where t: "table_at (mem s) (root_ppn pt) (vpn_path v) = Some t" "vpn_ok v"
    using view_table [OF assms(2)] by metis
  have z: "sv39_need pt s v = 0" using t(1) table_at_prefix [OF t(1)] by (simp add: sv39_need_def)
  obtain t' pt' u where u: "find_pte_create pt v s = Inr (Some (pte_addr t' (vpn_leaf v)), pt', u)"
    "root_ppn pt' = root_ppn pt" "sv39_view pt' u = sv39_view pt s"
    "table_at (mem u) (root_ppn pt) (vpn_path v) = Some t'"
    by (rule find_pte_create_ok [OF assms(1), of v]) (simp_all add: z)
  have "sv39_view pt' u v = Some e" using u(3) assms(2) by simp
  then have "bit (pte_bits (load_pte (mem u) (pte_addr t' (vpn_leaf v)))) 0"
    using u(2,4) by (auto elim!: view_table simp: pte_valid_def pte_at_def)
  then show ?thesis by (simp add: sv39_map_def u(1))
qed

lemma sv39_map_full:
  "sv39_inv base pt s \<Longrightarrow> free_frames s < sv39_need pt s v \<Longrightarrow> sv39_map pt v ppn fl s = Inl UnwrapNone"
  by (simp add: sv39_map_def find_pte_create_full)

lemma sv39_unmap_mapped:
  assumes "sv39_inv base pt s" "sv39_view pt s v = Some e"
  shows "\<exists>s'. sv39_unmap pt v s = Inr (pt, s') \<and> sv39_inv base pt s' \<and>
     sv39_view pt s' = (sv39_view pt s)(v := None) \<and>
     grown base (sv39_tables pt) (sv39_tables pt) s s' \<and> free_frames s' = free_frames s"
proof -
  obtain t where t: "table_at (mem s) (root_ppn pt) (vpn_path v) = Some t" "vpn_ok v"
    "pte_at (mem s) t (vpn_leaf v) = e" "pte_valid e"
    by (rule view_table [OF assms(2)])
  note st = store_leaf [OF assms(1) t(2,1) refl, of PageTableEntry_empty]
  have "sv39_unmap pt v s = Inr (pt, store_pte (pte_addr t (vpn_leaf v)) PageTableEntry_empty s)"
    using t by (simp add: sv39_unmap_def find_pte_eq pte_valid_def pte_at_def)
  then show ?thesis using st by (simp add: PageTableEntry_empty_def)
qed

lemma sv39_unmap_missing:
  assumes "vpn_ok v" "sv39_view pt s v = None"
  shows "sv39_unmap pt v s =
    Inl (if table_at (mem s) (root_ppn pt) (vpn_path v) = None then UnwrapNone else AssertFailed)"
  using view_none [OF assms(2,1)]
  by (cases "table_at (mem s) (root_ppn pt) (vpn_path v)")
     (simp_all add: sv39_unmap_def find_pte_eq pte_valid_def pte_at_def)

lemma sv39_translate_eq:
  "sv39_translate pt v s = Inr (map_option (\<lambda>t. pte_at (mem s) t (vpn_leaf v))
     (table_at (mem s) (root_ppn pt) (vpn_path v)))"
  by (simp add: sv39_translate_def find_pte_eq option.map_comp comp_def pte_at_def)

lemma sv39_translate_mapped:
  "sv39_view pt s v = Some e \<Longrightarrow> sv39_translate pt v s = Inr (Some e)"
  by (auto simp: sv39_translate_eq elim!: view_table)

lemma sv39_translate_missing:
  assumes "vpn_ok v" "sv39_view pt s v = None"
  shows "sv39_translate pt v s = Inr None \<or>
    (\<exists>e. sv39_translate pt v s = Inr (Some e) \<and> is_valid e = Inr False)"
  using view_none [OF assms(2,1)]
  by (cases "table_at (mem s) (root_ppn pt) (vpn_path v)") (auto simp: sv39_translate_eq pte_valid_def)

lemma sv39_local:
  assumes "sv39_inv base pt s" "alloc_ok base s'" "sv39_tables pt \<subseteq> live base s'"
    "\<And>q. q \<in> sv39_tables pt \<Longrightarrow> page_same q (mem s) (mem s')"
  shows "sv39_inv base pt s'" "sv39_view pt s' = sv39_view pt s" "sv39_need pt s' = sv39_need pt s"
proof -
  note tree = sv39_inv_parts(3) [OF assms(1)]
  note at = table_at_local [OF tree assms(4)]
  show "sv39_inv base pt s'"
    using assms(2,3) tree_ok_local [OF tree tree assms(4)] by (simp add: sv39_inv_def)
  show "sv39_need pt s' = sv39_need pt s" by (simp add: sv39_need_def fun_eq_iff at)
  have "pte_at (mem s') t (vpn_leaf v) = pte_at (mem s) t (vpn_leaf v)"
    if "table_at (mem s) (root_ppn pt) (vpn_path v) = Some t" for t v
    using tree_ok_in [OF tree _ that] tree_ok_ppn [OF tree] assms(4) by (intro pte_at_page_same) auto
  then show "sv39_view pt s' = sv39_view pt s"
    by (auto simp: sv39_view_def leaf_at_def fun_eq_iff at split: option.splits)
qed

text \<open>Neighbours share their tables.\<close>

lemma vpn_path_eq_iff:
  assumes "vpn_ok v" "vpn_ok w"
  shows "vpn_path v = vpn_path w \<longleftrightarrow> unat (vpn_0 v) div 512 = unat (vpn_0 w) div 512"
    and "hd (vpn_path v) = hd (vpn_path w) \<longleftrightarrow> unat (vpn_0 v) div 2 ^ 18 = unat (vpn_0 w) div 2 ^ 18"
proof -
  have lt: "n div 2 ^ 18 < 512" if "n < 2 ^ 27" for n :: nat using that by (simp add: less_mult_imp_div_less)
  have two: "n div 2 ^ 18 = n div 512 div 512" for n :: nat by (simp add: div_mult2_eq)
  have split: "n div 512 = (n div 2 ^ 18) * 512 + n div 512 mod 512" for n :: nat
    by (simp only: two div_mult_mod_eq)
  let ?n = "unat (vpn_0 v)" and ?k = "unat (vpn_0 w)"
  note s = lt [OF assms(1) [unfolded vpn_ok_def]] lt [OF assms(2) [unfolded vpn_ok_def]]
  show 1: "hd (vpn_path v) = hd (vpn_path w) \<longleftrightarrow> ?n div 2 ^ 18 = ?k div 2 ^ 18"
    using s by (simp add: vpn_path_def usize_eq_iff_unat unat_and_511 unat_drop_bit)
  have up: "?n div 512 = ?k div 512 \<Longrightarrow> ?n div 2 ^ 18 = ?k div 2 ^ 18" by (simp only: two)
  have "last (vpn_path v) = last (vpn_path w) \<longleftrightarrow> ?n div 512 mod 512 = ?k div 512 mod 512"
    by (simp add: vpn_path_def usize_eq_iff_unat unat_and_511 unat_drop_bit)
  then show "vpn_path v = vpn_path w \<longleftrightarrow> ?n div 512 = ?k div 512"
    using 1 up split [of ?n] split [of ?k] by (metis vpn_path_shape)
qed

interpretation sv39: page_table_contract base sv39_map sv39_unmap sv39_translate "sv39_inv base" sv39_view
    sv39_tables sv39_need
  for base
proof (unfold_locales, goal_cases)
  case (1 p s)
  then show ?case by (simp add: sv39_inv_parts)
next
  case (2 p s s')
  then show ?case by (simp add: sv39_local)
next
  case (3 p s v e)
  then show ?case by (rule view_table)
next
  case (4 p s v ppn fl)
  then show ?case by (rule sv39_map_new)
next
  case (5 p s v ppn fl)
  then show ?case using sv39_map_mapped by blast
next
  case (6 p s v ppn fl)
  then show ?case using sv39_map_full by blast
next
  case (7 p s v)
  then show ?case using sv39_unmap_mapped [of base p s v] by auto
next
  case (8 p s v)
  then show ?case using sv39_unmap_missing [of v p s] by simp
next
  case (9 p s v e)
  then show ?case using sv39_translate_mapped by blast
next
  case (10 p s v)
  then show ?case using sv39_translate_missing by blast
next
  case (11 p s v)
  then show ?case by (simp add: sv39_need_def)
next
  case (12 p s w v)
  then obtain e where "sv39_view p s w = Some e" by blast
  then obtain t where t: "table_at (mem s) (root_ppn p) (vpn_path w) = Some t" "vpn_ok w"
    by (rule view_table)
  then show ?case using 12(3,4) vpn_path_eq_iff(1) [of v w] table_at_prefix [OF t(1)]
    by (simp add: sv39_need_def)
next
  case (13 p s w v)
  then obtain e where "sv39_view p s w = Some e" by blast
  then obtain t where t: "table_at (mem s) (root_ppn p) (vpn_path w) = Some t" "vpn_ok w"
    by (rule view_table)
  then show ?case using 13(3,4) vpn_path_eq_iff(2) [of v w] table_at_prefix [OF t(1)]
    by (simp add: sv39_need_def)
qed

section \<open>Properties\<close>

text \<open>An empty table in a small world, for the witnesses.\<close>

definition tiny_world :: world where
  "tiny_world = \<lparr>mem = (\<lambda>_. 0), FRAME_ALLOCATOR = Some \<lparr>fa_current = 0x81, fa_end = 0x90, fa_recycled = []\<rparr>\<rparr>"

definition tiny_table :: PageTableSv39 where
  "tiny_table = \<lparr>root_ppn = PhysPageNum 0x80, pt_frames = [FrameTracker (PhysPageNum 0x80)]\<rparr>"

lemma pte_at_tiny: "pte_at (mem tiny_world) p i = PageTableEntry 0"
  by (simp add: pte_at_def load_pte_def tiny_world_def read_u64_def read_le_zero)

lemma tiny_inv: "sv39_inv 0x80 tiny_table tiny_world"
proof -
  have "table_at (mem tiny_world) r \<pi> = (if \<pi> = [] then Some r else None)" for r \<pi>
    by (cases \<pi>) (simp_all add: table_at.simps pte_at_tiny)
  then have "tree_ok (mem tiny_world) (root_ppn tiny_table) (sv39_tables tiny_table)"
    by (auto simp: tree_ok_def tiny_table_def sv39_tables_def ppn_ok_def pte_at_tiny split: if_splits)
  then show ?thesis
    by (simp add: sv39_inv_def alloc_ok_def live_def fa_inv_def fa_live_def tiny_world_def sv39_tables_def
        tiny_table_def)
qed

lemma tiny_free: "sv39_view tiny_table tiny_world v = None" "free_frames tiny_world = 15"
  by (auto simp: sv39_view_def leaf_at_def pte_at_tiny split: option.splits)
     (simp add: free_frames_def tiny_world_def fa_free_def)

text \<open>
  C5. \<open>PageTableSv39::map\<close> refines the update of a partial map: on a well-formed table
  and an unmapped page it returns when enough frames are free, it adds this one
  translation to the view and changes no other, it keeps the table well-formed, it
  takes exactly the missing tables from the allocator, and it changes no page of
  memory outside the table's own frames.
\<close>

theorem map_refines_update:
  assumes "sv39_inv base pt s" "vpn_ok v" "sv39_view pt s v = None" "sv39_need pt s v \<le> free_frames s"
  shows "\<exists>pt' s'. sv39_map pt v ppn flags s = Inr (pt', s') \<and> sv39_inv base pt' s' \<and>
    sv39_view pt' s' = (sv39_view pt s)(v \<mapsto> PageTableEntry_new ppn (flags OR PTEFlags_V)) \<and>
    free_frames s = free_frames s' + sv39_need pt s v \<and>
    (\<forall>q. q \<notin> sv39_tables pt' \<longrightarrow> page_same q (mem s) (mem s')) \<and>
    sv39_tables pt \<subseteq> sv39_tables pt' \<and> (sv39_tables pt' - sv39_tables pt) \<inter> live base s = {}"
  using sv39.map_new [OF assms, of ppn flags] unfolding grown_def by blast

theorem map_refines_update_witness:
  "\<exists>pt' s'. sv39_map tiny_table (VirtPageNum 5) (PhysPageNum 7) PTEFlags_R tiny_world = Inr (pt', s') \<and>
     sv39_view pt' s' (VirtPageNum 5) = Some (PageTableEntry_new (PhysPageNum 7) (PTEFlags_R OR PTEFlags_V))"
proof -
  have "vpn_ok (VirtPageNum 5)" by (simp add: vpn_ok_def)
  moreover have "sv39_need tiny_table tiny_world (VirtPageNum 5) \<le> free_frames tiny_world"
    by (simp add: sv39_need_def tiny_free)
  ultimately show ?thesis
    using map_refines_update [OF tiny_inv _ tiny_free(1), of "VirtPageNum 5" "PhysPageNum 7" PTEFlags_R] by auto
qed

text \<open>
  C21. Every other outcome of \<open>map\<close> is a panic: a page that is mapped already fails the
  assertion, and a table that cannot be allocated is an \<open>unwrap\<close> of \<open>None\<close>.
\<close>

theorem map_errors:
  assumes "sv39_inv base pt s" "vpn_ok v"
  shows "case sv39_map pt v ppn flags s of
      Inl err \<Rightarrow> sv39_view pt s v \<noteq> None \<and> err = AssertFailed \<or>
        sv39_view pt s v = None \<and> free_frames s < sv39_need pt s v \<and> err = UnwrapNone
    | Inr _ \<Rightarrow> sv39_view pt s v = None \<and> sv39_need pt s v \<le> free_frames s"
proof (cases "sv39_view pt s v")
  case None
  then show ?thesis
    using sv39.map_full [OF assms None] sv39.map_new [OF assms None, of ppn flags]
    by (cases "free_frames s < sv39_need pt s v") auto
next
  case (Some e)
  then show ?thesis using sv39_map_mapped [OF assms(1) Some] by simp
qed

theorem map_errors_witness:
  "sv39_map tiny_table (VirtPageNum 5) (PhysPageNum 7) 0 (tiny_world\<lparr>FRAME_ALLOCATOR :=
     Some \<lparr>fa_current = 0x81, fa_end = 0x81, fa_recycled = []\<rparr>\<rparr>) = Inl UnwrapNone"
proof -
  let ?w = "tiny_world\<lparr>FRAME_ALLOCATOR := Some \<lparr>fa_current = 0x81, fa_end = 0x81, fa_recycled = []\<rparr>\<rparr>"
  have inv: "sv39_inv 0x80 tiny_table ?w"
    using sv39_local(1) [OF tiny_inv, of ?w]
    by (simp add: alloc_ok_def fa_inv_def live_def fa_live_def sv39_tables_def tiny_table_def)
  have "sv39_view tiny_table ?w (VirtPageNum 5) = None"
    using tiny_free(1) [of "VirtPageNum 5"] by (simp add: sv39_view_def split: if_splits)
  moreover have "free_frames ?w < sv39_need tiny_table ?w (VirtPageNum 5)"
    using pte_at_tiny by (simp add: free_frames_def fa_free_def sv39_need_def table_at.simps)
  ultimately show ?thesis
    using map_errors [OF inv, of "VirtPageNum 5" "PhysPageNum 7" 0]
    by (auto simp: vpn_ok_def split: sum.splits)
qed

text \<open>
  C20. \<open>unmap\<close> undoes \<open>map\<close>: a page that was mapped and is unmapped again leaves the view
  as it was before, and the tables that were made for it stay with the page table.
\<close>

theorem unmap_undoes_map:
  assumes "sv39_inv base pt s" "vpn_ok v" "sv39_map pt v ppn flags s = Inr (pt', s')"
  shows "\<exists>s''. sv39_unmap pt' v s' = Inr (pt', s'') \<and> sv39_inv base pt' s'' \<and>
    sv39_view pt' s'' = sv39_view pt s \<and> free_frames s'' = free_frames s'"
proof -
  note m = sv39.map_returned [OF assms]
  have "sv39_view pt' s' v = Some (PageTableEntry_new ppn (flags OR PTEFlags_V))" by (simp add: m(3))
  from sv39_unmap_mapped [OF m(2) this] show ?thesis using m(1,3) by (auto simp: fun_upd_idem)
qed

theorem unmap_undoes_map_witness:
  "\<exists>pt' s' s''. sv39_map tiny_table (VirtPageNum 5) (PhysPageNum 7) PTEFlags_R tiny_world = Inr (pt', s') \<and>
     sv39_unmap pt' (VirtPageNum 5) s' = Inr (pt', s'') \<and> sv39_view pt' s'' = sv39_view tiny_table tiny_world"
proof -
  have ok: "vpn_ok (VirtPageNum 5)" by (simp add: vpn_ok_def)
  have "sv39_need tiny_table tiny_world (VirtPageNum 5) \<le> free_frames tiny_world"
    by (simp add: sv39_need_def tiny_free)
  then obtain pt' s' where m: "sv39_map tiny_table (VirtPageNum 5) (PhysPageNum 7) PTEFlags_R tiny_world = Inr (pt', s')"
    using sv39_map_new [OF tiny_inv ok tiny_free(1)] by blast
  with unmap_undoes_map [OF tiny_inv ok m] show ?thesis by blast
qed

end
