(* ===== verification/Sv39_Guest.thy ===== *)
theory Sv39_Guest
  imports Sv39_Correct
begin

text \<open>
  The constructors of the Sv39 tables: \<open>PageTableSv39::new\<close> and the trait
  \<open>GuestPageTable\<close> with \<open>new_guest\<close>, whose root is four consecutive frames (the
  Sv39x4 root of the second translation stage).
\<close>

section \<open>Empty tables\<close>

definition zeroed :: "memory \<Rightarrow> PhysPageNum \<Rightarrow> bool" where
  "zeroed m p \<longleftrightarrow> (\<forall>i. unat i < 512 \<longrightarrow> pte_at m p i = PageTableEntry 0)"

lemma frame_alloc_zeroed:
  assumes "alloc_ok base s" "frame_alloc_unwrap s = Inr (ft, s')"
  shows "zeroed (mem s') (ft_ppn ft)"
    and "p \<in> live base s \<Longrightarrow> zeroed (mem s) p \<Longrightarrow> zeroed (mem s') p"
proof -
  note c = frame_alloc_unwrap_cases [OF assms]
  show "zeroed (mem s') (ft_ppn ft)" using c(3,6) by (simp add: zeroed_def pte_at_zero_page)
  show "zeroed (mem s') p" if "p \<in> live base s" "zeroed (mem s) p"
    using that c(3,6) live_ppn_ok [OF assms(1)] by (simp add: zeroed_def pte_at_zero_page)
qed

lemma table_at_zeroed: "zeroed m r \<Longrightarrow> path_ok \<pi> \<Longrightarrow> table_at m r \<pi> = (if \<pi> = [] then Some r else None)"
  by (cases \<pi>) (auto simp: zeroed_def path_ok_def table_at.simps)

lemma tree_ok_zeroed:
  assumes "zeroed m r" "r \<in> F" "\<And>p. p \<in> F \<Longrightarrow> ppn_ok p"
  shows "tree_ok m r F"
  using assms
  by (auto simp: tree_ok_def table_at_zeroed path_ok_def zeroed_def split: if_splits)

lemma view_zeroed: "zeroed (mem s) (root_ppn pt) \<Longrightarrow> sv39_view pt s = Map.empty"
  by (auto simp: sv39_view_def leaf_at_def table_at_zeroed fun_eq_iff
      simp del: vpn_path_shape) (simp add: vpn_path_def)

lemma sv39_inv_zeroed:
  assumes "alloc_ok base s" "sv39_tables pt \<subseteq> live base s" "root_ppn pt \<in> sv39_tables pt"
    "zeroed (mem s) (root_ppn pt)"
  shows "sv39_inv base pt s"
  using assms live_ppn_ok [OF assms(1)] by (auto simp: sv39_inv_def intro!: tree_ok_zeroed)

section \<open>\<open>PageTableSv39::new\<close>\<close>

lemma PageTableSv39_new_returned:
  assumes "alloc_ok base s" "PageTableSv39_new s = Inr (pt, s')"
  shows "sv39_inv base pt s'" "sv39_view pt s' = Map.empty" "grown base {} (sv39_tables pt) s s'"
    "free_frames s = Suc (free_frames s')" "sv39_tables pt = {root_ppn pt}"
proof -
  obtain ft where ft: "frame_alloc_unwrap s = Inr (ft, s')"
    "pt = \<lparr>root_ppn = ft_ppn ft, pt_frames = [ft]\<rparr>"
    using assms(2) by (auto simp: PageTableSv39_new_def result_simps)
  note c = frame_alloc_unwrap_cases [OF assms(1) ft(1)]
  show T: "sv39_tables pt = {root_ppn pt}" by (simp add: sv39_tables_def ft(2))
  have z: "zeroed (mem s') (root_ppn pt)" using frame_alloc_zeroed(1) [OF assms(1) ft(1)] ft(2) by simp
  show "sv39_inv base pt s'" by (rule sv39_inv_zeroed) (use c z T in \<open>auto simp: ft(2)\<close>)
  show "sv39_view pt s' = Map.empty" using z by (rule view_zeroed)
  show "grown base {} (sv39_tables pt) s s'"
    using grown_frame_alloc [OF assms(1) ft(1), of "{}"] T ft(2) by simp
  show "free_frames s = Suc (free_frames s')" using c(5) .
qed

lemma PageTableSv39_new_progress:
  assumes "alloc_ok base s" "0 < free_frames s"
  shows "\<exists>pt s'. PageTableSv39_new s = Inr (pt, s')"
  using frame_alloc_unwrap_progress [OF assms] by (auto simp: PageTableSv39_new_def)

section \<open>\<open>new_guest\<close>\<close>

abbreviation ppns :: "FrameTracker list \<Rightarrow> PhysPageNum set" where
  "ppns fs \<equiv> ft_ppn ` set fs"

abbreviation all_zeroed :: "'x world_scheme \<Rightarrow> FrameTracker list \<Rightarrow> bool" where
  "all_zeroed s fs \<equiv> \<forall>p \<in> ppns fs. zeroed (mem s) p"

lemma frame_alloc_all_zeroed:
  assumes "alloc_ok base s" "frame_alloc_unwrap s = Inr (f, u)" "ppns fs \<subseteq> live base s" "all_zeroed s fs"
  shows "all_zeroed u (fs @ [f])"
  using frame_alloc_zeroed [OF assms(1,2)] assms(3,4) by auto

lemma new_guest_loop_returned:
  "new_guest_loop frames rf s = Inr (frames', rf', s') \<Longrightarrow> alloc_ok base s \<Longrightarrow>
   ppns (frames @ [rf]) \<subseteq> live base s \<Longrightarrow> all_zeroed s (frames @ [rf]) \<Longrightarrow>
   ppn_0 (ft_ppn rf') AND 3 = 0 \<and> all_zeroed s' (frames' @ [rf']) \<and>
   grown base (ppns (frames @ [rf])) (ppns (frames' @ [rf'])) s s'"
proof (induction frames rf s rule: new_guest_loop.induct)
  case (1 frames rf s)
  show ?case
  proof (cases "ppn_0 (ft_ppn rf) AND 3 = 0")
    case True
    then have "frames' = frames" "rf' = rf" "s' = s" using 1(2) by (simp_all add: new_guest_loop.simps)
    then show ?thesis using True 1(5) grown_refl [OF 1(3,4)] by simp
  next
    case False
    then obtain f u where u: "frame_alloc_unwrap s = Inr (f, u)"
      "new_guest_loop (frames @ [rf]) f u = Inr (frames', rf', s')"
      using 1(2) by (subst (asm) new_guest_loop.simps) (auto simp: result_simps)
    note g = grown_frame_alloc [OF 1(3) u(1) 1(4)]
    have e: "insert (ft_ppn f) (ppns (frames @ [rf])) = ppns ((frames @ [rf]) @ [f])" by auto
    have "ppn_0 (ft_ppn rf') AND 3 = 0 \<and> all_zeroed s' (frames' @ [rf']) \<and>
        grown base (ppns ((frames @ [rf]) @ [f])) (ppns (frames' @ [rf'])) u s'"
      using grownD(1,3) [OF g, unfolded e] frame_alloc_all_zeroed [OF 1(3) u(1) 1(4,5)]
      by (intro 1(1) [OF False u(1) refl u(2)])
    then show ?thesis using grown_trans [OF g [unfolded e]] by blast
  qed
qed

lemma more_frames_returned:
  assumes "foldR (\<lambda>_ (fs, t). bindR (frame_alloc_unwrap t) (\<lambda>(f, t'). Inr (fs @ [f], t')))
      ns (fs, s) = Inr (fs', s')"
    "alloc_ok base s" "ppns fs \<subseteq> live base s" "all_zeroed s fs"
  shows "grown base (ppns fs) (ppns fs') s s' \<and> all_zeroed s' fs'"
  using assms
proof (induction ns arbitrary: fs s)
  case Nil
  then show ?case by (auto intro: grown_refl)
next
  case (Cons n ns)
  then obtain f u where u: "frame_alloc_unwrap s = Inr (f, u)"
    "foldR (\<lambda>_ (fs, t). bindR (frame_alloc_unwrap t) (\<lambda>(f, t'). Inr (fs @ [f], t')))
      ns (fs @ [f], u) = Inr (fs', s')" by (auto simp: result_simps)
  have e: "insert (ft_ppn f) (ppns fs) = ppns (fs @ [f])" by auto
  note g = grown_frame_alloc [OF Cons.prems(2) u(1) Cons.prems(3), unfolded e]
  note IH = Cons.IH [OF u(2) grownD(1) [OF g] grownD(3) [OF g] frame_alloc_all_zeroed [OF Cons.prems(2) u(1) Cons.prems(3,4)]]
  then show ?case using grown_trans [OF g conjunct1 [OF IH]] by blast
qed

lemma new_guest_returned:
  assumes ok: "alloc_ok base s" and ret: "new_guest s = Inr (pt, s')"
  shows "sv39_inv base pt s'" "sv39_view pt s' = Map.empty" "grown base {} (sv39_tables pt) s s'"
    "ppn_0 (root_ppn pt) AND 3 = 0" "\<forall>p \<in> sv39_tables pt. zeroed (mem s') p"
proof -
  obtain rf s1 frames rf' s2 fs where r: "frame_alloc_unwrap s = Inr (rf, s1)"
    "new_guest_loop [] rf s1 = Inr (frames, rf', s2)"
    "foldR (\<lambda>_ (fs, t). bindR (frame_alloc_unwrap t) (\<lambda>(f, t'). Inr (fs @ [f], t')))
       [0..<3] (frames @ [rf'], s2) = Inr (fs, s')"
    "pt = \<lparr>root_ppn = ft_ppn rf', pt_frames = fs\<rparr>"
    using ret by (auto simp: new_guest_def result_simps Let_def)
  have e: "insert (ft_ppn rf) {} = ppns ([] @ [rf])" by simp
  note g1 = grown_frame_alloc [OF ok r(1), of "{}", unfolded e, OF empty_subsetI]
  have z1: "all_zeroed s1 ([] @ [rf])" by (rule frame_alloc_all_zeroed [OF ok r(1)]) simp_all
  note l = new_guest_loop_returned [OF r(2) grownD(1) [OF g1] grownD(3) [OF g1] z1]
  note g2 = grown_trans [OF g1 conjunct2 [OF conjunct2 [OF l]]]
  note m = more_frames_returned [OF r(3) grownD(1) [OF g2] grownD(3) [OF g2] conjunct1 [OF conjunct2 [OF l]]]
  have T: "sv39_tables pt = ppns fs" by (simp add: sv39_tables_def r(4))
  show g3: "grown base {} (sv39_tables pt) s s'" unfolding T using grown_trans [OF g2] m by blast
  show zs: "\<forall>p \<in> sv39_tables pt. zeroed (mem s') p" using m unfolding T by blast
  have root: "root_ppn pt \<in> sv39_tables pt" using grownD(2) [OF conjunct1 [OF m]] unfolding T by (simp add: r(4))
  then have z: "zeroed (mem s') (root_ppn pt)" using zs by blast
  then show "sv39_inv base pt s'" using grownD(1,3) [OF g3] root by (intro sv39_inv_zeroed)
  show "sv39_view pt s' = Map.empty" using z by (rule view_zeroed)
  show "ppn_0 (root_ppn pt) AND 3 = 0" using l by (simp add: r(4))
qed

text \<open>
  From an allocator that has nothing recycled, as at boot, at most three frames
  are skipped and the four root frames are consecutive.
\<close>

definition fresh :: "usize \<Rightarrow> usize \<Rightarrow> 'x world_scheme \<Rightarrow> bool" where
  "fresh c e s \<longleftrightarrow> FRAME_ALLOCATOR s = Some \<lparr>fa_current = c, fa_end = e, fa_recycled = []\<rparr> \<and>
     unat e \<le> 2 ^ 44"

lemma fresh_grown:
  assumes "fresh c e s" "grown base T T' s s'"
  shows "\<exists>c'. fresh c' e s'"
proof -
  have "frames_end s' = Some e" "recycled s' = []"
    using assms(1) grownD(8,9) [OF assms(2)] by (simp_all add: fresh_def frames_end_def recycled_def)
  then obtain fa where "FRAME_ALLOCATOR s' = Some fa" "fa_end fa = e" "fa_recycled fa = []"
    by (auto simp: frames_end_def recycled_def)
  then have "fresh (fa_current fa) e s'" using assms(1) by (simp add: fresh_def)
  then show ?thesis ..
qed

lemma frame_alloc_fresh:
  assumes "fresh c e s" "unat c < unat e"
  shows "\<exists>s'. frame_alloc_unwrap s = Inr (FrameTracker (PhysPageNum c), s') \<and> fresh (c + 1) e s'"
proof -
  have "alloc \<lparr>fa_current = c, fa_end = e, fa_recycled = []\<rparr> =
      Inr (Some (PhysPageNum c), \<lparr>fa_current = c + 1, fa_end = e, fa_recycled = []\<rparr>)"
    using assms alloc_fresh(1) [of 0 "\<lparr>fa_current = c, fa_end = e, fa_recycled = []\<rparr>"]
    by (simp add: fresh_def fa_inv_def word_less_nat_alt word_le_nat_alt)
  then show ?thesis using assms
    by (simp add: fresh_def frame_alloc_unwrap_def frame_alloc_def FrameTracker_new_def Let_def)
qed

lemma and_3_iff: "(c::usize) AND 3 = 0 \<longleftrightarrow> unat c mod 4 = 0"
proof -
  have "unat (c AND mask 2) = unat c mod 4" by (simp only: unat_and_mask) simp
  then have "unat (c AND 3) = unat c mod 4" by (simp add: mask_eq_exp_minus_1)
  then show ?thesis by (simp only: usize_eq_iff_unat unsigned_0)
qed

lemma aligned_gap: "Suc n < 4 \<Longrightarrow> (k + Suc n) mod 4 = 0 \<Longrightarrow> k mod 4 \<noteq> (0::nat)"
  by presburger

lemma aligned_next: "(k + 3 * k mod 4) mod 4 = (0::nat)"
  by presburger

lemma new_guest_loop_fresh:
  "fresh (c + 1) e s \<Longrightarrow> n < 4 \<Longrightarrow> (unat c + n) mod 4 = 0 \<Longrightarrow> unat c + n < unat e \<Longrightarrow>
   \<exists>fs' s'. new_guest_loop fs (FrameTracker (PhysPageNum c)) s =
     Inr (fs', FrameTracker (PhysPageNum (c + word_of_nat n)), s') \<and> fresh (c + word_of_nat n + 1) e s'"
proof (induction n arbitrary: c fs s)
  case 0
  then show ?case by (subst new_guest_loop.simps) (simp add: and_3_iff)
next
  case (Suc n)
  have "unat c mod 4 \<noteq> 0"
    using Suc.prems(2,3) by (meson aligned_gap)
  then have una: "c AND 3 \<noteq> 0" by (simp add: and_3_iff)
  have c1: "unat (c + 1) = unat c + 1"
    using Suc.prems(4) unat_lt_64 [of e] by (subst unat_add_no_wrap) (simp_all del: unat_lt_64)
  obtain u where u: "frame_alloc_unwrap s = Inr (FrameTracker (PhysPageNum (c + 1)), u)"
    "fresh (c + 1 + 1) e u"
    using frame_alloc_fresh [OF Suc.prems(1)] Suc.prems(4) c1 by auto
  obtain fs' s' where "new_guest_loop (fs @ [FrameTracker (PhysPageNum c)]) (FrameTracker (PhysPageNum (c + 1))) u =
      Inr (fs', FrameTracker (PhysPageNum (c + 1 + word_of_nat n)), s')"
    "fresh (c + 1 + word_of_nat n + 1) e s'"
    using Suc.IH [OF u(2)] Suc.prems(2-4) c1 by fastforce
  then show ?case using una u(1) by (subst new_guest_loop.simps) (simp add: ac_simps)
qed

lemma new_guest_fresh:
  assumes f: "fresh c e s" and room: "unat c + 7 \<le> unat e"
  shows "\<exists>pt s'. new_guest s = Inr (pt, s') \<and> unat c \<le> unat (ppn_0 (root_ppn pt)) \<and>
    unat (ppn_0 (root_ppn pt)) \<le> unat c + 3 \<and> fresh (ppn_0 (root_ppn pt) + 4) e s' \<and>
    (\<forall>k < 4. PhysPageNum (ppn_0 (root_ppn pt) + word_of_nat k) \<in> sv39_tables pt)"
proof -
  define n where "n = (3 * unat c) mod 4"
  have n: "n < 4" "(unat c + n) mod 4 = 0"
    unfolding n_def by simp (rule aligned_next)
  define r where "r = c + word_of_nat n"
  have e: "unat e < 2 ^ 64" by simp
  have ra: "unat (r + word_of_nat k) = unat c + n + k" if "k \<le> 3" for k
  proof -
    have "unat (word_of_nat (n + k) :: usize) = n + k" using n that by (intro unat_word_of_nat_usize) simp
    then have "unat (c + word_of_nat (n + k)) = unat c + (n + k)"
      using n(1) that room e by (subst unat_add_no_wrap) (simp_all del: unat_lt_64)
    then show ?thesis by (simp add: r_def ac_simps)
  qed
  obtain s1 where s1: "frame_alloc_unwrap s = Inr (FrameTracker (PhysPageNum c), s1)" "fresh (c + 1) e s1"
    using frame_alloc_fresh [OF f] room by auto
  obtain fs s2 where s2: "new_guest_loop [] (FrameTracker (PhysPageNum c)) s1 =
      Inr (fs, FrameTracker (PhysPageNum r), s2)" "fresh (r + 1) e s2"
    using new_guest_loop_fresh [OF s1(2) n, of "[]"] n(1) room unfolding r_def by auto
  obtain s3 where s3: "frame_alloc_unwrap s2 = Inr (FrameTracker (PhysPageNum (r + 1)), s3)" "fresh (r + 1 + 1) e s3"
    using frame_alloc_fresh [OF s2(2)] ra [of 1] n(1) room by auto
  obtain s4 where s4: "frame_alloc_unwrap s3 = Inr (FrameTracker (PhysPageNum (r + 1 + 1)), s4)" "fresh (r + 1 + 1 + 1) e s4"
    using frame_alloc_fresh [OF s3(2)] ra [of 2] n(1) room by (auto simp: ac_simps)
  obtain s5 where s5: "frame_alloc_unwrap s4 = Inr (FrameTracker (PhysPageNum (r + 1 + 1 + 1)), s5)" "fresh (r + 1 + 1 + 1 + 1) e s5"
    using frame_alloc_fresh [OF s4(2)] ra [of 3] n(1) room by (auto simp: ac_simps)
  have three: "[0..<3] = [0, 1, 2::nat]" by (simp add: upt_rec)
  let ?pt = "\<lparr>root_ppn = PhysPageNum r, pt_frames = fs @ [FrameTracker (PhysPageNum r),
    FrameTracker (PhysPageNum (r + 1)), FrameTracker (PhysPageNum (r + 2)), FrameTracker (PhysPageNum (r + 3))]\<rparr>"
  have "new_guest s = Inr (?pt, s5)"
    by (simp add: new_guest_def s1(1) s2(1) s3(1) s4(1) s5(1) three ac_simps)
  moreover have "PhysPageNum (r + word_of_nat k) \<in> sv39_tables ?pt" if "k < 4" for k
    using that by (auto simp: sv39_tables_def less_Suc_eq numeral_eq_Suc)
  moreover have "fresh (r + 4) e s5" using s5(2) by (simp add: ac_simps)
  ultimately show ?thesis using ra [of 0] n(1) by (intro exI [of _ ?pt] exI [of _ s5]) auto
qed

text \<open>Whenever it returns, the four frames are consecutive.\<close>

lemma frame_alloc_fresh_returned:
  assumes "fresh c e s" "unat c \<le> unat e" "frame_alloc_unwrap s = Inr (ft, s')"
  shows "ft = FrameTracker (PhysPageNum c) \<and> fresh (c + 1) e s' \<and> unat (c + 1) = unat c + 1 \<and> unat (c + 1) \<le> unat e"
proof -
  have "unat c < unat e"
    using assms by (auto simp: fresh_def frame_alloc_unwrap_def frame_alloc_def alloc_def Let_def le_less usize_eq_iff_unat)
  then have "unat (c + 1) = unat c + 1"
    using unat_lt_64 [of e] by (subst unat_add_no_wrap) (simp_all del: unat_lt_64)
  with \<open>unat c < unat e\<close> show ?thesis using frame_alloc_fresh [OF assms(1)] assms(3) by auto
qed

lemma new_guest_loop_fresh_returned:
  "new_guest_loop fs (FrameTracker (PhysPageNum r)) s = Inr (fs', root, s') \<Longrightarrow> fresh (r + 1) e s \<Longrightarrow> unat (r + 1) \<le> unat e \<Longrightarrow>
   \<exists>r'. root = FrameTracker (PhysPageNum r') \<and> fresh (r' + 1) e s' \<and> unat (r' + 1) \<le> unat e"
proof (induction fs "FrameTracker (PhysPageNum r)" s arbitrary: r rule: new_guest_loop.induct)
  case (1 fs s)
  show ?case
  proof (cases "r AND 3 = 0")
    case True
    then show ?thesis using 1(2-4) by (subst (asm) new_guest_loop.simps) auto
  next
    case False
    then obtain f u where u: "frame_alloc_unwrap s = Inr (f, u)"
      "new_guest_loop (fs @ [FrameTracker (PhysPageNum r)]) f u = Inr (fs', root, s')"
      using 1(2) by (subst (asm) new_guest_loop.simps) auto
    note a = frame_alloc_fresh_returned [OF 1(3,4) u(1)]
    then have f: "f = FrameTracker (PhysPageNum (r + 1))" by blast
    show ?thesis using 1(1) [OF _ u(1) [unfolded f] refl] u(2) False a f by simp
  qed
qed

lemma new_guest_fresh_root:
  assumes f: "fresh c e s" "unat c \<le> unat e" and ret: "new_guest s = Inr (pt, s')"
  shows "\<forall>k < 4. PhysPageNum (ppn_0 (root_ppn pt) + word_of_nat k) \<in> sv39_tables pt"
proof -
  have three: "[0..<3] = [0, 1, 2::nat]" by (simp add: upt_rec)
  obtain f0 s1 fs root s2 f1 s3 f2 s4 f3 where r: "frame_alloc_unwrap s = Inr (f0, s1)"
    "new_guest_loop [] f0 s1 = Inr (fs, root, s2)" "frame_alloc_unwrap s2 = Inr (f1, s3)"
    "frame_alloc_unwrap s3 = Inr (f2, s4)" "frame_alloc_unwrap s4 = Inr (f3, s')"
    "pt = \<lparr>root_ppn = ft_ppn root, pt_frames = fs @ [root, f1, f2, f3]\<rparr>"
    using ret by (auto simp: new_guest_def three)
  note a0 = frame_alloc_fresh_returned [OF f r(1)]
  obtain q where q: "root = FrameTracker (PhysPageNum q)" "fresh (q + 1) e s2" "unat (q + 1) \<le> unat e"
    using new_guest_loop_fresh_returned [of "[]" c s1 fs root s2 e] a0 r(2) by blast
  note a1 = frame_alloc_fresh_returned [OF q(2,3) r(3)]
  note a2 = frame_alloc_fresh_returned [OF _ _ r(4), of "q + 1 + 1" e]
  note a3 = frame_alloc_fresh_returned [OF _ _ r(5), of "q + 1 + 1 + 1" e]
  have "f1 = FrameTracker (PhysPageNum (q + 1))" "f2 = FrameTracker (PhysPageNum (q + 2))"
    "f3 = FrameTracker (PhysPageNum (q + 3))"
    using a1 a2 a3 by (simp_all add: ac_simps)
  then show ?thesis using q(1) unfolding r(6) by (auto simp: sv39_tables_def less_Suc_eq numeral_eq_Suc)
qed

lemma fresh_alloc_ok: "fresh c e s \<Longrightarrow> base \<le> unat c \<Longrightarrow> unat c \<le> unat e \<Longrightarrow> alloc_ok base s"
  by (simp add: fresh_def alloc_ok_def fa_inv_def word_le_nat_alt)

lemma fresh_free: "fresh c e s \<Longrightarrow> free_frames s = unat e - unat c"
  by (simp add: fresh_def free_frames_def fa_free_def)

section \<open>The trait \<open>GuestPageTable\<close>\<close>

text \<open>
  A guest page table is a page table that can be made empty with a root of which
  the lowest two bits of the frame number are clear.
\<close>

locale guest_page_table_contract = page_table_contract base pmap punmap ptranslate inv view tables need
  for base :: nat and pmap :: "'p \<Rightarrow> VirtPageNum \<Rightarrow> PhysPageNum \<Rightarrow> PTEFlags \<Rightarrow> 'x world_scheme \<Rightarrow>
      ('p \<times> 'x world_scheme) result" and punmap ptranslate inv view tables need +
  fixes pnew_guest :: "'x world_scheme \<Rightarrow> ('p \<times> 'x world_scheme) result" and root :: "'p \<Rightarrow> PhysPageNum"
  assumes new_guest_empty: "alloc_ok base s \<Longrightarrow> pnew_guest s = Inr (p, s') \<Longrightarrow>
      inv p s' \<and> view p s' = Map.empty \<and> grown base {} (tables p) s s' \<and> ppn_0 (root p) AND 3 = 0"
begin

text \<open>A new guest table takes nothing from a table that is already there.\<close>

lemma new_guest_keeps:
  assumes "inv p s" "pnew_guest s = Inr (q, s')"
  shows "inv p s' \<and> view p s' = view p s \<and> tables p \<inter> tables q = {}"
proof -
  have "grown base {} (tables q) s s'" using new_guest_empty assms inv_tables by blast
  with inv_grown_other [OF assms(1)] show ?thesis by blast
qed

end

interpretation sv39_guest: guest_page_table_contract base sv39_map sv39_unmap sv39_translate "sv39_inv base"
    sv39_view sv39_tables sv39_need new_guest root_ppn
  for base
  by unfold_locales (blast intro: new_guest_returned)

section \<open>Recycled frames\<close>

lemma frame_alloc_unwrap_recycled:
  assumes "FRAME_ALLOCATOR s = Some fa" "fa_recycled fa = xs @ [x]" "unat x < 2 ^ 44"
  shows "\<exists>s'. frame_alloc_unwrap s = Inr (FrameTracker (PhysPageNum x), s') \<and>
    FRAME_ALLOCATOR s' = Some (fa\<lparr>fa_recycled := xs\<rparr>)"
  using assms by (simp add: frame_alloc_unwrap_def frame_alloc_def alloc_def FrameTracker_new_def Let_def PhysPageNum_from_small)

lemma new_guest_loop_recycled:
  assumes "FRAME_ALLOCATOR s = Some fa" "fa_recycled fa = xs @ rev vs" "\<forall>x \<in> set vs. unat x < 2 ^ 44"
    and "\<forall>x \<in> set (butlast (v # vs)). x AND 3 \<noteq> 0" "last (v # vs) AND 3 = 0"
  shows "\<exists>s'. new_guest_loop frames (FrameTracker (PhysPageNum v)) s =
      Inr (frames @ map (\<lambda>x. FrameTracker (PhysPageNum x)) (butlast (v # vs)), FrameTracker (PhysPageNum (last (v # vs))), s') \<and>
    FRAME_ALLOCATOR s' = Some (fa\<lparr>fa_recycled := xs\<rparr>)"
  using assms
proof (induction vs arbitrary: frames v s fa)
  case Nil
  then show ?case by (simp add: new_guest_loop.simps)
next
  case (Cons u us)
  obtain s1 where s1: "frame_alloc_unwrap s = Inr (FrameTracker (PhysPageNum u), s1)"
    "FRAME_ALLOCATOR s1 = Some (fa\<lparr>fa_recycled := xs @ rev us\<rparr>)"
    using frame_alloc_unwrap_recycled [OF Cons.prems(1), of "xs @ rev us" u] Cons.prems(2,3) by auto
  obtain s' where "new_guest_loop (frames @ [FrameTracker (PhysPageNum v)]) (FrameTracker (PhysPageNum u)) s1 =
      Inr ((frames @ [FrameTracker (PhysPageNum v)]) @ map (\<lambda>x. FrameTracker (PhysPageNum x)) (butlast (u # us)),
        FrameTracker (PhysPageNum (last (u # us))), s')" "FRAME_ALLOCATOR s' = Some (fa\<lparr>fa_recycled := xs\<rparr>)"
    using Cons.IH [OF s1(2), of u "frames @ [FrameTracker (PhysPageNum v)]"] Cons.prems(3-5) by auto
  then show ?case using s1(1) Cons.prems(4) by (simp add: new_guest_loop.simps [of frames])
qed

section \<open>Properties\<close>

text \<open>
  C25. The guest root: from an allocator with nothing recycled and seven free frames
  \<open>new_guest\<close> returns an empty table whose root frame number is a multiple of four,
  and the root and the three frames behind it, the 16 KiB that the Sv39x4 root takes,
  all belong to the table.
\<close>

theorem new_guest_root:
  assumes "fresh c e s" "unat c + 7 \<le> unat e"
  shows "\<exists>pt s'. new_guest s = Inr (pt, s') \<and> sv39_inv (unat c) pt s' \<and> sv39_view pt s' = Map.empty \<and>
    unat (ppn_0 (root_ppn pt)) mod 4 = 0 \<and>
    (\<forall>k < 4. PhysPageNum (ppn_0 (root_ppn pt) + word_of_nat k) \<in> sv39_tables pt)"
proof -
  obtain pt s' where n: "new_guest s = Inr (pt, s')"
    "\<forall>k < 4. PhysPageNum (ppn_0 (root_ppn pt) + word_of_nat k) \<in> sv39_tables pt"
    using new_guest_fresh [OF assms] by blast
  have "alloc_ok (unat c) s" by (rule fresh_alloc_ok [OF assms(1)]) (use assms(2) in simp_all)
  from sv39_guest.new_guest_empty [OF this n(1)] n show ?thesis by (auto simp: and_3_iff)
qed

theorem new_guest_root_witness:
  "\<exists>pt s'. new_guest tiny_world = Inr (pt, s') \<and> unat (ppn_0 (root_ppn pt)) mod 4 = 0 \<and>
     PhysPageNum (ppn_0 (root_ppn pt) + 3) \<in> sv39_tables pt"
proof -
  have "fresh 0x81 0x90 tiny_world" by (simp add: fresh_def tiny_world_def)
  from new_guest_root [OF this] obtain pt s' where n: "new_guest tiny_world = Inr (pt, s')"
    "unat (ppn_0 (root_ppn pt)) mod 4 = 0"
    "\<forall>k < 4. PhysPageNum (ppn_0 (root_ppn pt) + word_of_nat k) \<in> sv39_tables pt" by auto
  from n(3) [rule_format, of 3] n(1,2) show ?thesis by auto
qed

text \<open>
  C35. The four root frames are consecutive only when the allocator happens to hand them
  out so: with recycled frames \<open>new_guest\<close> skips the unaligned ones, takes the first
  aligned frame for the root and the next three as they come, and does not look at
  their numbers. The 16 KiB of the Sv39x4 root belong to the table exactly when the
  three frames behind the root are among those taken.
\<close>

theorem new_guest_root_recycled:
  assumes "alloc_ok base s" "FRAME_ALLOCATOR s = Some fa" "fa_recycled fa = rest @ rev (us @ [a, b, c, d])"
    and "\<forall>u \<in> set us. u AND 3 \<noteq> 0" "a AND 3 = 0"
  shows "\<exists>pt s'. new_guest s = Inr (pt, s') \<and> ppn_0 (root_ppn pt) = a \<and>
    FRAME_ALLOCATOR s' = Some (fa\<lparr>fa_recycled := rest\<rparr>) \<and> sv39_tables pt = PhysPageNum ` set (us @ [a, b, c, d]) \<and>
    ((\<forall>k < 4. PhysPageNum (a + word_of_nat k) \<in> sv39_tables pt) \<longleftrightarrow> {a + 1, a + 2, a + 3} \<subseteq> set us \<union> {b, c, d})"
proof -
  let ?ft = "\<lambda>x. FrameTracker (PhysPageNum x)"
  have small: "unat x < 2 ^ 44" if "x \<in> set (us @ [a, b, c, d])" for x
  proof -
    have inv: "fa_inv base fa" using assms(1,2) by (simp add: alloc_ok_def)
    have "x \<in> set (fa_recycled fa)" using that unfolding assms(3) by auto
    then have "x < fa_current fa" "fa_current fa \<le> fa_end fa" "unat (fa_end fa) \<le> 2 ^ 44"
      using inv by (auto simp: fa_inv_def)
    then show ?thesis by (simp add: word_less_nat_alt word_le_nat_alt)
  qed
  obtain v vs where vs: "us @ [a] = v # vs" by (cases us) auto
  let ?rest = "rest @ [d, c, b]"
  have r: "fa_recycled fa = (?rest @ rev vs) @ [v]"
    using assms(3) arg_cong [OF vs, of rev] by simp
  have ne: "set us \<union> {a} = set (v # vs)" using arg_cong [OF vs, of set] by simp
  have v44: "unat v < 2 ^ 44" and vs44: "\<forall>x \<in> set vs. unat x < 2 ^ 44" using small ne by auto
  obtain s1 where s1: "frame_alloc_unwrap s = Inr (?ft v, s1)" "FRAME_ALLOCATOR s1 = Some (fa\<lparr>fa_recycled := ?rest @ rev vs\<rparr>)"
    using frame_alloc_unwrap_recycled [OF assms(2) r v44] by blast
  have l: "last (v # vs) = a" "butlast (v # vs) = us" unfolding vs [symmetric] by simp_all
  obtain s2 where s2: "new_guest_loop [] (?ft v) s1 = Inr (map ?ft us, ?ft a, s2)"
    "FRAME_ALLOCATOR s2 = Some (fa\<lparr>fa_recycled := ?rest\<rparr>)"
    using new_guest_loop_recycled [OF s1(2) _ vs44, where v = v and xs = ?rest and frames = "[]"] assms(4,5) unfolding l by auto
  obtain s3 where s3: "frame_alloc_unwrap s2 = Inr (?ft b, s3)" "FRAME_ALLOCATOR s3 = Some (fa\<lparr>fa_recycled := rest @ [d, c]\<rparr>)"
    using frame_alloc_unwrap_recycled [OF s2(2), of "rest @ [d, c]" b] small by auto
  obtain s4 where s4: "frame_alloc_unwrap s3 = Inr (?ft c, s4)" "FRAME_ALLOCATOR s4 = Some (fa\<lparr>fa_recycled := rest @ [d]\<rparr>)"
    using frame_alloc_unwrap_recycled [OF s3(2), of "rest @ [d]" c] small by auto
  obtain s5 where s5: "frame_alloc_unwrap s4 = Inr (?ft d, s5)" "FRAME_ALLOCATOR s5 = Some (fa\<lparr>fa_recycled := rest\<rparr>)"
    using frame_alloc_unwrap_recycled [OF s4(2), of rest d] small by auto
  let ?pt = "\<lparr>root_ppn = PhysPageNum a, pt_frames = map ?ft (us @ [a, b, c, d])\<rparr>"
  have n: "new_guest s = Inr (?pt, s5)"
    using s1(1) s2(1) s3(1) s4(1) s5(1) by (simp add: new_guest_def Let_def upt_rec)
  have t: "sv39_tables ?pt = PhysPageNum ` set (us @ [a, b, c, d])" by (simp add: sv39_tables_def image_image)
  have four: "(\<forall>k < 4. P k) \<longleftrightarrow> P 0 \<and> P 1 \<and> P 2 \<and> P 3" for P :: "nat \<Rightarrow> bool"
    by (auto simp: All_less_Suc eval_nat_numeral)
  have "(\<forall>k < 4. PhysPageNum (a + word_of_nat k) \<in> sv39_tables ?pt) \<longleftrightarrow>
      {a + 1, a + 2, a + 3} \<subseteq> set (us @ [a, b, c, d])"
    unfolding t four by (simp add: image_iff)
  also have "\<dots> \<longleftrightarrow> {a + 1, a + 2, a + 3} \<subseteq> set us \<union> {b, c, d}" by auto
  finally show ?thesis using n t s5(2) by (intro exI [of _ ?pt] exI [of _ s5]) simp
qed

theorem new_guest_root_recycled_witness:
  "\<exists>(s::world) pt s'. alloc_ok 0x80 s \<and> new_guest s = Inr (pt, s') \<and> root_ppn pt = PhysPageNum 0x84 \<and>
     \<not> (\<forall>k < 4. PhysPageNum (0x84 + word_of_nat k) \<in> sv39_tables pt)"
proof -
  let ?fa = "\<lparr>fa_current = 0x90, fa_end = 0xa0, fa_recycled = [0x8c, 0x8a, 0x86, 0x84, 0x82]\<rparr>"
  let ?s = "\<lparr>mem = (\<lambda>_. 0), FRAME_ALLOCATOR = Some ?fa\<rparr> :: world"
  have ok: "alloc_ok 0x80 ?s" by (simp add: alloc_ok_def fa_inv_def)
  obtain pt s' where "new_guest ?s = Inr (pt, s')" "ppn_0 (root_ppn pt) = 0x84"
    "(\<forall>k < 4. PhysPageNum (0x84 + word_of_nat k) \<in> sv39_tables pt) \<longleftrightarrow>
      {0x84 + 1, 0x84 + 2, 0x84 + 3} \<subseteq> set [0x82] \<union> {0x86, 0x8a, 0x8c :: usize}"
    using new_guest_root_recycled [OF ok, of ?fa "[]" "[0x82]" "0x84" "0x86" "0x8a" "0x8c"] by auto
  then show ?thesis using ok by (cases "root_ppn pt") (intro exI [of _ ?s] exI [of _ pt] exI [of _ s'], simp)
qed

end
