(* ===== verification/Machine.thy ===== *)
theory Machine
  imports Constants "HOL-Library.Multiset"
begin

text \<open>
  The module \<open>fdt\<close> of \<^verbatim>\<open>src/hypervisor.rs\<close>: the description of a machine that the
  hypervisor reads from a flattened device tree. The crate \<open>fdt\<close> is not part of
  the repository; its functions are the fields of the record \<open>fdt_crate\<close>, an
  argument of \<open>parse\<close>.
\<close>

section \<open>The device-tree crate\<close>

record MemoryRegion =
  starting_address :: usize
  region_size :: "usize option"

record ('fdt, 'node) fdt_crate =
  from_ptr :: "usize \<Rightarrow> 'fdt option"
  memory_regions :: "'fdt \<Rightarrow> MemoryRegion list"
  find_all_nodes :: "'fdt \<Rightarrow> string \<Rightarrow> 'node list"
  node_reg :: "'node \<Rightarrow> MemoryRegion list option"

section \<open>Machine descriptions\<close>

record Device =
  base_address :: usize
  dev_size :: usize

record MachineMeta =
  physical_memory_offset :: usize
  physical_memory_size :: usize
  virtio :: "Device list"
  test_finisher_address :: "Device option"
  uart :: "Device option"
  clint :: "Device option"
  plic :: "Device option"
  pci :: "Device option"

definition MachineMeta_default :: MachineMeta where
  "MachineMeta_default = \<lparr>physical_memory_offset = 0, physical_memory_size = 0, virtio = [],
     test_finisher_address = None, uart = None, clint = None, plic = None, pci = None\<rparr>"

text \<open>\<open>ArrayVec<Device, 16>\<close>: \<open>push\<close> panics when the vector is full.\<close>

definition VIRTIO_CAPACITY :: nat where
  "VIRTIO_CAPACITY = 16"

definition virtio_push :: "Device \<Rightarrow> Device list \<Rightarrow> Device list result" where
  "virtio_push d ds = (if length ds < VIRTIO_CAPACITY then Inr (ds @ [d]) else Inl CapacityExceeded)"

text \<open>
  The body that every probing loop of \<open>parse\<close> has: the first register block of
  the node, if it has one, whose size must be present.
\<close>

definition node_device ::
  "('fdt, 'node) fdt_crate \<Rightarrow> 'node \<Rightarrow> (Device \<Rightarrow> MachineMeta \<Rightarrow> MachineMeta result) \<Rightarrow>
   MachineMeta \<Rightarrow> MachineMeta result" where
  "node_device api node k meta =
     (case Option.bind (node_reg api node) (\<lambda>regs. case regs of [] \<Rightarrow> None | r # _ \<Rightarrow> Some r) of
        None \<Rightarrow> Inr meta
      | Some reg \<Rightarrow>
          let base_addr = starting_address reg in
          bindR (unwrap (region_size reg)) (\<lambda>size.
          k \<lparr>base_address = base_addr, dev_size = size\<rparr> meta))"

definition probe ::
  "('fdt, 'node) fdt_crate \<Rightarrow> 'fdt \<Rightarrow> string \<Rightarrow> (Device \<Rightarrow> MachineMeta \<Rightarrow> MachineMeta result) \<Rightarrow>
   MachineMeta \<Rightarrow> MachineMeta result" where
  "probe api fdt path k meta = foldR (\<lambda>node. node_device api node k) (find_all_nodes api fdt path) meta"

definition virtio_found :: "Device \<Rightarrow> MachineMeta \<Rightarrow> MachineMeta result" where
  "virtio_found d m = bindR (virtio_push d (virtio m)) (\<lambda>v. Inr (m\<lparr>virtio := v\<rparr>))"

definition parse :: "('fdt, 'node) fdt_crate \<Rightarrow> usize \<Rightarrow> MachineMeta result" where
  "parse api dtb =
     (case from_ptr api dtb of
        None \<Rightarrow> Inl UnwrapErr
      | Some fdt \<Rightarrow>
          bindR (foldR (\<lambda>region meta.
              let meta1 = meta\<lparr>physical_memory_offset := starting_address region\<rparr> in
              bindR (unwrap (region_size region)) (\<lambda>size.
              Inr (meta1\<lparr>physical_memory_size := size\<rparr>)))
            (memory_regions api fdt) MachineMeta_default) (\<lambda>meta.
          bindR (probe api fdt ''/soc/virtio_mmio'' virtio_found meta) (\<lambda>meta.
          let meta = meta\<lparr>virtio := sort_key base_address (virtio meta)\<rparr> in
          bindR (probe api fdt ''/soc/test'' (\<lambda>d m. Inr (m\<lparr>test_finisher_address := Some d\<rparr>)) meta) (\<lambda>meta.
          bindR (probe api fdt ''/soc/uart'' (\<lambda>d m. Inr (m\<lparr>uart := Some d\<rparr>)) meta) (\<lambda>meta.
          bindR (probe api fdt ''/soc/clint'' (\<lambda>d m. Inr (m\<lparr>clint := Some d\<rparr>)) meta) (\<lambda>meta.
          bindR (probe api fdt ''/soc/plic'' (\<lambda>d m. Inr (m\<lparr>plic := Some d\<rparr>)) meta) (\<lambda>meta.
          probe api fdt ''/soc/pci'' (\<lambda>d m. Inr (m\<lparr>pci := Some d\<rparr>)) meta)))))))"

section \<open>What a parsed description is\<close>

text \<open>
  The devices of the virtio loop: the first register block of every node that has
  one, in the order of the tree.
\<close>

definition node_blocks :: "('fdt, 'node) fdt_crate \<Rightarrow> 'node list \<Rightarrow> MemoryRegion list" where
  "node_blocks api ns = List.map_filter (\<lambda>n. case node_reg api n of Some (r # _) \<Rightarrow> Some r | _ \<Rightarrow> None) ns"

definition block_device :: "MemoryRegion \<Rightarrow> Device" where
  "block_device r = \<lparr>base_address = starting_address r, dev_size = the (region_size r)\<rparr>"

lemma node_device_cases:
  "node_device api n k meta =
     (case node_reg api n of Some (r # _) \<Rightarrow>
        (case region_size r of None \<Rightarrow> Inl UnwrapNone | Some _ \<Rightarrow> k (block_device r) meta)
      | _ \<Rightarrow> Inr meta)"
  by (auto simp: node_device_def block_device_def Let_def split: option.splits list.splits)

lemma probe_virtio:
  assumes "foldR (\<lambda>node. node_device api node virtio_found) ns m = Inr m'"
    "length (virtio m) \<le> 16"
  shows "m' = m\<lparr>virtio := virtio m @ map block_device (node_blocks api ns)\<rparr> \<and> length (virtio m') \<le> 16"
  using assms
proof (induction ns arbitrary: m)
  case (Cons n ns)
  show ?case
  proof (cases "\<exists>r rs. node_reg api n = Some (r # rs)")
    case True
    then obtain r rs where r: "node_reg api n = Some (r # rs)" by blast
    obtain u where u: "node_device api n virtio_found m = Inr u"
      "foldR (\<lambda>node. node_device api node virtio_found) ns u = Inr m'" using Cons.prems(1) by auto
    from u(1) r have v: "length (virtio m) < 16" "u = m\<lparr>virtio := virtio m @ [block_device r]\<rparr>"
      by (auto simp: node_device_cases virtio_found_def virtio_push_def VIRTIO_CAPACITY_def
          split: option.splits if_splits)
    then have "length (virtio u) \<le> 16" by simp
    from Cons.IH [OF u(2) this] r v(2) show ?thesis
      by (auto simp add: node_blocks_def List.map_filter_simps)
  next
    case False
    then have "node_device api n k m = Inr m" for k m
      by (auto simp: node_device_cases split: option.splits list.splits)
    moreover have "node_blocks api (n # ns) = node_blocks api ns"
      using False by (auto simp: node_blocks_def List.map_filter_simps split: option.splits list.splits)
    ultimately show ?thesis using Cons by simp
  qed
qed (simp add: node_blocks_def List.map_filter_simps)

text \<open>The other loops keep the last device and leave the rest alone.\<close>

lemma probe_last:
  assumes "probe api fdt path (\<lambda>d m. Inr (upd d m)) m = Inr m'"
    and "\<And>d m. g (upd d m) = g m"
  shows "g m' = g m"
proof -
  have "g m' = g m"
    if "foldR (\<lambda>node. node_device api node (\<lambda>d m. Inr (upd d m))) ns m = Inr m'" for ns
    using that
  proof (induction ns arbitrary: m)
    case (Cons n ns)
    from Cons.prems obtain u where u: "node_device api n (\<lambda>d m. Inr (upd d m)) m = Inr u"
      "foldR (\<lambda>node. node_device api node (\<lambda>d m. Inr (upd d m))) ns u = Inr m'" by auto
    from u(1) have "g u = g m"
      by (auto simp: node_device_cases assms(2) split: option.splits list.splits)
    with Cons.IH [OF u(2)] show ?case by simp
  qed simp
  then show ?thesis using assms(1) by (simp add: probe_def)
qed

lemma parse_virtio:
  assumes "parse api dtb = Inr m"
  obtains fdt where "from_ptr api dtb = Some fdt"
    "virtio m = sort_key base_address
       (map block_device (node_blocks api (find_all_nodes api fdt ''/soc/virtio_mmio'')))"
    "length (virtio m) \<le> 16"
proof -
  obtain fdt where f: "from_ptr api dtb = Some fdt" using assms by (auto simp: parse_def split: option.splits)
  from assms f obtain m0 m1 m2 m3 m4 m5 where
    m0: "foldR (\<lambda>region meta.
              let meta1 = meta\<lparr>physical_memory_offset := starting_address region\<rparr> in
              bindR (unwrap (region_size region)) (\<lambda>size.
              Inr (meta1\<lparr>physical_memory_size := size\<rparr>)))
            (memory_regions api fdt) MachineMeta_default = Inr m0"
    and m1: "probe api fdt ''/soc/virtio_mmio'' virtio_found m0 = Inr m1"
    and m2: "probe api fdt ''/soc/test'' (\<lambda>d m. Inr (m\<lparr>test_finisher_address := Some d\<rparr>))
               (m1\<lparr>virtio := sort_key base_address (virtio m1)\<rparr>) = Inr m2"
    and m3: "probe api fdt ''/soc/uart'' (\<lambda>d m. Inr (m\<lparr>uart := Some d\<rparr>)) m2 = Inr m3"
    and m4: "probe api fdt ''/soc/clint'' (\<lambda>d m. Inr (m\<lparr>clint := Some d\<rparr>)) m3 = Inr m4"
    and m5: "probe api fdt ''/soc/plic'' (\<lambda>d m. Inr (m\<lparr>plic := Some d\<rparr>)) m4 = Inr m5"
    and m6: "probe api fdt ''/soc/pci'' (\<lambda>d m. Inr (m\<lparr>pci := Some d\<rparr>)) m5 = Inr m"
    by (simp only: parse_def option.case Let_def bindR_eq_Inr) blast
  have v0: "virtio m0 = []"
    by (rule foldR_inv [OF m0, of "\<lambda>m. virtio m = []"])
       (auto simp: MachineMeta_default_def Let_def)
  have v1: "virtio m1 = map block_device (node_blocks api (find_all_nodes api fdt ''/soc/virtio_mmio''))"
    "length (virtio m1) \<le> 16"
    using probe_virtio [OF m1 [unfolded probe_def]] v0 by auto
  have "virtio m = virtio (m1\<lparr>virtio := sort_key base_address (virtio m1)\<rparr>)"
    using probe_last [OF m2, of virtio] probe_last [OF m3, of virtio] probe_last [OF m4, of virtio]
      probe_last [OF m5, of virtio] probe_last [OF m6, of virtio] by simp
  then show thesis using v1 f by (intro that) simp_all
qed

section \<open>Properties\<close>

text \<open>
  C29. A parsed machine description lists the virtio devices of the tree, the first register
  block of each node that has one, sorted by address, and there are at most sixteen.
\<close>

theorem parse_sorts_virtio:
  assumes "parse api dtb = Inr m"
  shows "sorted (map base_address (virtio m)) \<and> length (virtio m) \<le> 16 \<and>
    (\<exists>fdt. from_ptr api dtb = Some fdt \<and>
       mset (virtio m) = mset (map block_device (node_blocks api (find_all_nodes api fdt ''/soc/virtio_mmio''))))"
  by (rule parse_virtio [OF assms]) auto



theorem parse_sorts_virtio_witness:
  "\<exists>(api :: (unit, usize) fdt_crate) m. parse api 0x82200000 = Inr m \<and> map base_address (virtio m) = [0x10001000, 0x10002000] \<and>
     sorted (map base_address (virtio m))"
proof -
  let ?api = "\<lparr>from_ptr = (\<lambda>_. Some ()),
    memory_regions = (\<lambda>_. [\<lparr>starting_address = 0x80000000, region_size = Some 0x8000000\<rparr>]),
    find_all_nodes = (\<lambda>_ path. if path = ''/soc/virtio_mmio'' then [0x10002000, 0x10001000] else []),
    node_reg = (\<lambda>n. Some [\<lparr>starting_address = n, region_size = Some 0x1000\<rparr>])\<rparr>"
  let ?m = "MachineMeta_default\<lparr>physical_memory_offset := 0x80000000, physical_memory_size := 0x8000000,
    virtio := [\<lparr>base_address = 0x10001000, dev_size = 0x1000\<rparr>, \<lparr>base_address = 0x10002000, dev_size = 0x1000\<rparr>]\<rparr>"
  have m: "parse ?api 0x82200000 = Inr ?m"
    by (simp add: parse_def probe_def node_device_def virtio_found_def virtio_push_def VIRTIO_CAPACITY_def
        MachineMeta_default_def)
  have "map base_address (virtio ?m) = [0x10001000, 0x10002000]" by simp
  with parse_sorts_virtio [OF m] m show ?thesis by (intro exI [of _ ?api] exI [of _ ?m] conjI) simp_all
qed

end
