(* ===== verification/Memory_Set.thy ===== *)
theory Memory_Set
  imports Sv39_Guest Machine
begin

text \<open>
  \<^verbatim>\<open>src/mm/memory_set.rs\<close> and \<^verbatim>\<open>src/mm/mod.rs\<close>: map areas and the two memory sets,
  the hypervisor's own (\<open>HostMemorySet\<close>) and a guest's (\<open>GuestMemorySet\<close>). The
  sources are generic in the page table; here the trait is the record
  \<open>PageTable\<close> of its functions, the first argument of the operations. The two
  structures have the same fields and the same \<open>impl\<close> of the trait \<open>MemorySet\<close>,
  so that one record models both. \<open>PhantomData\<close> has no run-time content.
\<close>

section \<open>The trait as a record\<close>

record ('p, 'w) PageTable =
  pt_new :: "'w \<Rightarrow> ('p \<times> 'w) result"
  pt_token :: "'p \<Rightarrow> usize"
  pt_map :: "'p \<Rightarrow> VirtPageNum \<Rightarrow> PhysPageNum \<Rightarrow> PTEFlags \<Rightarrow> 'w \<Rightarrow> ('p \<times> 'w) result"
  pt_unmap :: "'p \<Rightarrow> VirtPageNum \<Rightarrow> 'w \<Rightarrow> ('p \<times> 'w) result"
  pt_translate :: "'p \<Rightarrow> VirtPageNum \<Rightarrow> 'w \<Rightarrow> PageTableEntry option result"
  pt_translate_va :: "'p \<Rightarrow> usize \<Rightarrow> 'w \<Rightarrow> usize option result"
  pt_from_token :: "usize \<Rightarrow> 'p"
  pt_walk_page_table :: "usize \<Rightarrow> usize \<Rightarrow> (usize \<Rightarrow> usize result) \<Rightarrow> PageWalk option result"

record ('p, 'w) GuestPageTable = "('p, 'w) PageTable" +
  pt_new_guest :: "'w \<Rightarrow> ('p \<times> 'w) result"

definition Sv39 :: "(PageTableSv39, 'x world_scheme) GuestPageTable" where
  "Sv39 = \<lparr>pt_new = PageTableSv39_new, pt_token = token, pt_map = sv39_map, pt_unmap = sv39_unmap,
     pt_translate = sv39_translate, pt_translate_va = sv39_translate_va,
     pt_from_token = from_token, pt_walk_page_table = walk_page_table, pt_new_guest = new_guest\<rparr>"

lemma Sv39_sel [simp]:
  "pt_new Sv39 = PageTableSv39_new" "pt_token Sv39 = token" "pt_map Sv39 = sv39_map"
  "pt_unmap Sv39 = sv39_unmap" "pt_translate Sv39 = sv39_translate"
  "pt_translate_va Sv39 = sv39_translate_va" "pt_from_token Sv39 = from_token"
  "pt_walk_page_table Sv39 = walk_page_table" "pt_new_guest Sv39 = new_guest"
  by (simp_all add: Sv39_def)

section \<open>Map areas\<close>

datatype MapType = Framed | Linear

type_synonym MapPermission = u8

definition MapPermission_R :: MapPermission where "MapPermission_R = push_bit 1 1"
definition MapPermission_W :: MapPermission where "MapPermission_W = push_bit 2 1"
definition MapPermission_X :: MapPermission where "MapPermission_X = push_bit 3 1"
definition MapPermission_U :: MapPermission where "MapPermission_U = push_bit 4 1"

record MapArea =
  vpn_range :: "VirtPageNum SimpleRange"
  ppn_range :: "PhysPageNum SimpleRange option"
  data_frames :: "VirtPageNum \<rightharpoonup> FrameTracker"
  map_type :: MapType
  map_perm :: MapPermission

definition MapArea_new ::
  "VirtAddr \<Rightarrow> VirtAddr \<Rightarrow> PhysAddr option \<Rightarrow> PhysAddr option \<Rightarrow> MapType \<Rightarrow> MapPermission \<Rightarrow>
   MapArea result" where
  "MapArea_new start_va end_va start_pa end_pa mt mp =
     (let start_vpn = VirtAddr_floor start_va in
      bindR (VirtAddr_ceil end_va) (\<lambda>end_vpn.
      case (start_pa, end_pa) of
        (Some start_pa, Some end_pa) \<Rightarrow>
          let start_ppn = PhysAddr_floor start_pa in
          bindR (PhysAddr_ceil end_pa) (\<lambda>end_ppn.
          bindR (SimpleRange_new start_vpn end_vpn) (\<lambda>vr.
          bindR (SimpleRange_new start_ppn end_ppn) (\<lambda>pr.
          Inr \<lparr>vpn_range = vr, ppn_range = Some pr, data_frames = Map.empty,
               map_type = mt, map_perm = mp\<rparr>)))
      | _ \<Rightarrow>
          bindR (SimpleRange_new start_vpn end_vpn) (\<lambda>vr.
          Inr \<lparr>vpn_range = vr, ppn_range = None, data_frames = Map.empty,
               map_type = mt, map_perm = mp\<rparr>)))"

text \<open>The value that \<open>BTreeMap::insert\<close> and \<open>remove\<close> return is dropped.\<close>

definition drop_frame :: "FrameTracker option \<Rightarrow> 'x world_scheme \<Rightarrow> 'x world_scheme result" where
  "drop_frame f s = (case f of None \<Rightarrow> Inr s | Some ft \<Rightarrow> FrameTracker_drop ft s)"

definition map_one ::
  "('p, 'x world_scheme, 'm) PageTable_scheme \<Rightarrow> MapArea \<Rightarrow> 'p \<Rightarrow> VirtPageNum \<Rightarrow> PhysPageNum option \<Rightarrow>
   'x world_scheme \<Rightarrow> (MapArea \<times> 'p \<times> 'x world_scheme) result" where
  "map_one T self page_table vpn ppn' s =
     bindR (case map_type self of
         Linear \<Rightarrow> bindR (unwrap ppn') (\<lambda>ppn. Inr (ppn, self, s))
       | Framed \<Rightarrow>
           bindR (frame_alloc_unwrap s) (\<lambda>(frame, s1).
           let ppn = ft_ppn frame;
               old = data_frames self vpn;
               self' = self\<lparr>data_frames := (data_frames self)(vpn \<mapsto> frame)\<rparr> in
           bindR (drop_frame old s1) (\<lambda>s2. Inr (ppn, self', s2)))) (\<lambda>(ppn, self', s').
     bindR (unwrap (PTEFlags_from_bits (map_perm self'))) (\<lambda>pte_flags.
     bindR (pt_map T page_table vpn ppn pte_flags s') (\<lambda>(page_table', s'').
     Inr (self', page_table', s''))))"

definition unmap_one ::
  "('p, 'x world_scheme, 'm) PageTable_scheme \<Rightarrow> MapArea \<Rightarrow> 'p \<Rightarrow> VirtPageNum \<Rightarrow> 'x world_scheme \<Rightarrow>
   (MapArea \<times> 'p \<times> 'x world_scheme) result" where
  "unmap_one T self page_table vpn s =
     bindR (if map_type self = Framed then
              bindR (drop_frame (data_frames self vpn) s) (\<lambda>s1.
              Inr (self\<lparr>data_frames := (data_frames self)(vpn := None)\<rparr>, s1))
            else Inr (self, s)) (\<lambda>(self', s').
     bindR (pt_unmap T page_table vpn s') (\<lambda>(page_table', s'').
     Inr (self', page_table', s'')))"

text \<open>
  The \<open>loop\<close> of \<open>MapArea::map\<close> for an area with physical pages: it maps a page,
  steps both page numbers, and leaves only when both are at their ends. The
  checked step is why it ends at all.
\<close>

function map_loop ::
  "('p, 'x world_scheme, 'm) PageTable_scheme \<Rightarrow> PhysPageNum \<Rightarrow> VirtPageNum \<Rightarrow>
   PhysPageNum \<Rightarrow> VirtPageNum \<Rightarrow> MapArea \<Rightarrow> 'p \<Rightarrow> 'x world_scheme \<Rightarrow>
   (MapArea \<times> 'p \<times> 'x world_scheme) result" where
  "map_loop T ppn_end vpn_end ppn vpn self page_table s =
     bindR (map_one T self page_table vpn (Some ppn) s) (\<lambda>(self', page_table', s').
     bindR (PhysPageNum_step ppn) (\<lambda>ppn'.
     bindR (VirtPageNum_step vpn) (\<lambda>vpn'.
       if ppn' = ppn_end \<and> vpn' = vpn_end then Inr (self', page_table', s')
       else map_loop T ppn_end vpn_end ppn' vpn' self' page_table' s')))"
  by pat_completeness auto
termination
proof (relation "measure (\<lambda>(T, pe, ve, ppn, vpn, self, page_table, s). 2 ^ 64 - unat (vpn_0 vpn))", goal_cases)
  case (2 T ppn_end vpn_end ppn vpn self page_table s x self' y page_table' s' ppn' vpn')
  then have "unat (vpn_0 vpn') = Suc (unat (vpn_0 vpn))" "unat (vpn_0 vpn) + 1 < 2 ^ 64"
    by (auto simp: VirtPageNum_step_eq unat_add_no_wrap split: if_splits)
  then show ?case by simp
qed simp

declare map_loop.simps [simp del]

definition MapArea_map ::
  "('p, 'x world_scheme, 'm) PageTable_scheme \<Rightarrow> MapArea \<Rightarrow> 'p \<Rightarrow> 'x world_scheme \<Rightarrow>
   (MapArea \<times> 'p \<times> 'x world_scheme) result" where
  "MapArea_map T self page_table s =
     (case ppn_range self of
        Some pr \<Rightarrow>
          let ppn_start = ppn_0 (get_start pr); ppn_end = ppn_0 (get_end pr);
              vpn_start = vpn_0 (get_start (vpn_range self)); vpn_end = vpn_0 (get_end (vpn_range self)) in
          bindR (checked_sub ppn_end ppn_start) (\<lambda>np.
          bindR (checked_sub vpn_end vpn_start) (\<lambda>nv.
          bindR (assertR (np = nv)) (\<lambda>_.
          map_loop T (get_end pr) (get_end (vpn_range self))
            (get_start pr) (get_start (vpn_range self)) self page_table s)))
      | None \<Rightarrow>
          for_vpn (into_iter (vpn_range self))
            (\<lambda>vpn (self', page_table', s'). map_one T self' page_table' vpn None s')
            (self, page_table, s))"

definition MapArea_unmap ::
  "('p, 'x world_scheme, 'm) PageTable_scheme \<Rightarrow> MapArea \<Rightarrow> 'p \<Rightarrow> 'x world_scheme \<Rightarrow>
   (MapArea \<times> 'p \<times> 'x world_scheme) result" where
  "MapArea_unmap T self page_table s =
     for_vpn (into_iter (vpn_range self))
       (\<lambda>vpn (self', page_table', s'). unmap_one T self' page_table' vpn s')
       (self, page_table, s)"

text \<open>
  \<open>copy_data\<close>: the length of a slice is at most \<open>isize::MAX\<close>, so that \<open>start + PAGE_SIZE\<close>
  does not overflow and the indexes are natural numbers here.
\<close>

function copy_data_loop ::
  "('p, 'x world_scheme, 'm) PageTable_scheme \<Rightarrow> 'p \<Rightarrow> u8 list \<Rightarrow> nat \<Rightarrow> VirtPageNum \<Rightarrow> 'x world_scheme \<Rightarrow>
   'x world_scheme result" where
  "copy_data_loop T page_table data start current_vpn s =
     (let len = length data; stop = min len (start + 4096) in
      if stop < start then Inl IndexOutOfBounds
      else
        let src = take (stop - start) (drop start data) in
        bindR (pt_translate T page_table current_vpn s) (\<lambda>r.
        bindR (unwrap r) (\<lambda>pte.
        let s' = s\<lparr>mem := copy_bytes (get_bytes_array (pte_ppn pte)) src (mem s)\<rparr>;
            start' = start + 4096 in
        if start' \<ge> len then Inr s'
        else bindR (VirtPageNum_step current_vpn) (\<lambda>v.
          copy_data_loop T page_table data start' v s'))))"
  by pat_completeness auto
termination
  by (relation "measure (\<lambda>(T, page_table, data, start, v, s). length data - start)") auto

declare copy_data_loop.simps [simp del]

definition copy_data ::
  "('p, 'x world_scheme, 'm) PageTable_scheme \<Rightarrow> MapArea \<Rightarrow> 'p \<Rightarrow> u8 list \<Rightarrow> 'x world_scheme \<Rightarrow>
   'x world_scheme result" where
  "copy_data T self page_table data s =
     bindR (assertR (map_type self = Framed)) (\<lambda>_.
     copy_data_loop T page_table data 0 (get_start (vpn_range self)) s)"

section \<open>Memory sets\<close>

record 'p MemorySet =
  page_table :: 'p
  areas :: "MapArea list"

type_synonym 'p HostMemorySet = "'p MemorySet"
type_synonym 'p GuestMemorySet = "'p MemorySet"

definition ms_token :: "('p, 'w, 'm) PageTable_scheme \<Rightarrow> 'p MemorySet \<Rightarrow> usize" where
  "ms_token T self = pt_token T (page_table self)"

definition push ::
  "('p, 'x world_scheme, 'm) PageTable_scheme \<Rightarrow> 'p MemorySet \<Rightarrow> MapArea \<Rightarrow> u8 list option \<Rightarrow>
   'x world_scheme \<Rightarrow> ('p MemorySet \<times> 'x world_scheme) result" where
  "push T self map_area data s =
     bindR (MapArea_map T map_area (page_table self) s) (\<lambda>(map_area', pt', s').
     bindR (case data of None \<Rightarrow> Inr s' | Some d \<Rightarrow> copy_data T map_area' pt' d s') (\<lambda>s''.
     Inr (self\<lparr>page_table := pt', areas := areas self @ [map_area']\<rparr>, s'')))"

definition insert_framed_area ::
  "('p, 'x world_scheme, 'm) PageTable_scheme \<Rightarrow> 'p MemorySet \<Rightarrow> VirtAddr \<Rightarrow> VirtAddr \<Rightarrow> MapPermission \<Rightarrow>
   'x world_scheme \<Rightarrow> ('p MemorySet \<times> 'x world_scheme) result" where
  "insert_framed_area T self start_va end_va permission s =
     bindR (MapArea_new start_va end_va None None Framed permission) (\<lambda>area.
     push T self area None s)"

text \<open>\<open>strampoline\<close> is a symbol of the linker script.\<close>

definition map_trampoline ::
  "('p, 'x world_scheme, 'm) PageTable_scheme \<Rightarrow> usize \<Rightarrow> 'p MemorySet \<Rightarrow> 'x world_scheme \<Rightarrow>
   ('p MemorySet \<times> 'x world_scheme) result" where
  "map_trampoline T strampoline self s =
     bindR (VirtPageNum_from_VirtAddr (VirtAddr_from TRAMPOLINE)) (\<lambda>vpn.
     bindR (PhysPageNum_from_PhysAddr (PhysAddr_from strampoline)) (\<lambda>ppn.
     bindR (pt_map T (page_table self) vpn ppn (PTEFlags_R OR PTEFlags_X) s) (\<lambda>(pt', s').
     Inr (self\<lparr>page_table := pt'\<rparr>, s'))))"

definition ms_translate ::
  "('p, 'w, 'm) PageTable_scheme \<Rightarrow> 'p MemorySet \<Rightarrow> VirtPageNum \<Rightarrow> 'w \<Rightarrow> PageTableEntry option result" where
  "ms_translate T self vpn s = pt_translate T (page_table self) vpn s"

definition ms_translate_va ::
  "('p, 'w, 'm) PageTable_scheme \<Rightarrow> 'p MemorySet \<Rightarrow> usize \<Rightarrow> 'w \<Rightarrow> usize option result" where
  "ms_translate_va T self va s = pt_translate_va T (page_table self) va s"

text \<open>
  The trait \<open>MemorySet\<close> as the record of its functions, and the two \<open>impl\<close>s. Their
  bodies are the same text for both structures and are the definitions above.
\<close>

record ('s, 'w) MemorySet_trait =
  trait_token :: "'s \<Rightarrow> usize"
  trait_insert_framed_area :: "'s \<Rightarrow> VirtAddr \<Rightarrow> VirtAddr \<Rightarrow> MapPermission \<Rightarrow> 'w \<Rightarrow> ('s \<times> 'w) result"
  trait_push :: "'s \<Rightarrow> MapArea \<Rightarrow> u8 list option \<Rightarrow> 'w \<Rightarrow> ('s \<times> 'w) result"
  trait_map_trampoline :: "'s \<Rightarrow> 'w \<Rightarrow> ('s \<times> 'w) result"
  trait_translate :: "'s \<Rightarrow> VirtPageNum \<Rightarrow> 'w \<Rightarrow> PageTableEntry option result"
  trait_translate_va :: "'s \<Rightarrow> usize \<Rightarrow> 'w \<Rightarrow> usize option result"

definition HostMemorySet_impl ::
  "('p, 'x world_scheme, 'm) PageTable_scheme \<Rightarrow> usize \<Rightarrow> ('p HostMemorySet, 'x world_scheme) MemorySet_trait" where
  "HostMemorySet_impl T strampoline =
     \<lparr>trait_token = ms_token T, trait_insert_framed_area = insert_framed_area T, trait_push = push T,
      trait_map_trampoline = map_trampoline T strampoline, trait_translate = ms_translate T,
      trait_translate_va = ms_translate_va T\<rparr>"

definition GuestMemorySet_impl ::
  "('p, 'x world_scheme, 'm) GuestPageTable_scheme \<Rightarrow> usize \<Rightarrow> ('p GuestMemorySet, 'x world_scheme) MemorySet_trait" where
  "GuestMemorySet_impl T strampoline =
     \<lparr>trait_token = ms_token T, trait_insert_framed_area = insert_framed_area T, trait_push = push T,
      trait_map_trampoline = map_trampoline T strampoline, trait_translate = ms_translate T,
      trait_translate_va = ms_translate_va T\<rparr>"

section \<open>The hypervisor's memory set\<close>

text \<open>The symbols of \<^verbatim>\<open>src/linker-qemu.ld\<close>, as addresses.\<close>

record symbols =
  sym_stext :: usize
  sym_etext :: usize
  sym_srodata :: usize
  sym_erodata :: usize
  sym_sdata :: usize
  sym_edata :: usize
  sym_sbss_with_stack :: usize
  sym_ebss :: usize
  sym_ekernel :: usize
  sym_strampoline :: usize

definition new_bare ::
  "('p, 'x world_scheme, 'm) PageTable_scheme \<Rightarrow> 'x world_scheme \<Rightarrow> ('p HostMemorySet \<times> 'x world_scheme) result" where
  "new_bare T s = bindR (pt_new T s) (\<lambda>(pt, s'). Inr (\<lparr>page_table = pt, areas = []\<rparr>, s'))"

text \<open>
  Every device and section of the sources is pushed by the same expression: a
  linear area from an address to an end, both converted by \<open>into\<close>, mapped to the
  same physical addresses.
\<close>

definition push_identity ::
  "('p, 'x world_scheme, 'm) PageTable_scheme \<Rightarrow> usize \<Rightarrow> usize \<Rightarrow> MapPermission \<Rightarrow> 'p MemorySet \<Rightarrow>
   'x world_scheme \<Rightarrow> ('p MemorySet \<times> 'x world_scheme) result" where
  "push_identity T start stop perm self s =
     bindR (MapArea_new (VirtAddr_from start) (VirtAddr_from stop)
              (Some (PhysAddr_from start)) (Some (PhysAddr_from stop)) Linear perm) (\<lambda>area.
     push T self area None s)"

definition push_device ::
  "('p, 'x world_scheme, 'm) PageTable_scheme \<Rightarrow> MapPermission \<Rightarrow> Device \<Rightarrow> 'p MemorySet \<times> 'x world_scheme \<Rightarrow>
   ('p MemorySet \<times> 'x world_scheme) result" where
  "push_device T perm d = (\<lambda>(self, s).
     bindR (checked_add (base_address d) (dev_size d)) (\<lambda>stop.
     push_identity T (base_address d) stop perm self s))"

definition if_some :: "'d option \<Rightarrow> ('d \<Rightarrow> 's \<Rightarrow> 's result) \<Rightarrow> 's \<Rightarrow> 's result" where
  "if_some d f s = (case d of None \<Rightarrow> Inr s | Some x \<Rightarrow> f x s)"

definition new_host_vmm ::
  "('p, 'x world_scheme, 'm) PageTable_scheme \<Rightarrow> symbols \<Rightarrow> MachineMeta \<Rightarrow> 'x world_scheme \<Rightarrow>
   ('p HostMemorySet \<times> 'x world_scheme) result" where
  "new_host_vmm T syms machine s =
     (let R = MapPermission_R; W = MapPermission_W; X = MapPermission_X in
      bindR (new_bare T s) (\<lambda>(hpm, s).
      bindR (map_trampoline T (sym_strampoline syms) hpm s) (\<lambda>(hpm, s).
      bindR (bindR (MapArea_new (VirtAddr_from TRAP_CONTEXT) (VirtAddr_from TRAMPOLINE) None None Framed (R OR W))
               (\<lambda>area. push T hpm area None s)) (\<lambda>(hpm, s).
      bindR (push_identity T (sym_stext syms) (sym_etext syms) (R OR X) hpm s) (\<lambda>(hpm, s).
      bindR (push_identity T (sym_srodata syms) (sym_erodata syms) R hpm s) (\<lambda>(hpm, s).
      bindR (push_identity T (sym_sdata syms) (sym_edata syms) (R OR W) hpm s) (\<lambda>(hpm, s).
      bindR (push_identity T (sym_sbss_with_stack syms) (sym_ebss syms) (R OR W) hpm s) (\<lambda>(hpm, s).
      bindR (push_identity T (sym_ekernel syms) MEMORY_END (R OR W) hpm s) (\<lambda>hs.
      bindR (if_some (test_finisher_address machine) (push_device T (R OR W)) hs) (\<lambda>hs.
      bindR (foldR (push_device T (R OR W)) (virtio machine) hs) (\<lambda>hs.
      if_some (plic machine) (push_device T (R OR W)) hs)))))))))))"

definition map_guest ::
  "('p, 'x world_scheme, 'm) PageTable_scheme \<Rightarrow> 'p HostMemorySet \<Rightarrow> usize \<Rightarrow> usize \<Rightarrow> 'x world_scheme \<Rightarrow>
   ('p HostMemorySet \<times> 'x world_scheme) result" where
  "map_guest T self start_pa gpm_size s =
     bindR (checked_add start_pa gpm_size) (\<lambda>stop.
     push_identity T start_pa stop (MapPermission_R OR MapPermission_W) self s)"

definition map_gpm ::
  "('p, 'x world_scheme, 'm) PageTable_scheme \<Rightarrow> 'p HostMemorySet \<Rightarrow> 'g GuestMemorySet \<Rightarrow> 'x world_scheme \<Rightarrow>
   ('p HostMemorySet \<times> 'x world_scheme) result" where
  "map_gpm T self gpm s =
     foldR (\<lambda>area (self, s).
       bindR (unwrap (ppn_range area)) (\<lambda>r.
       let start_pa = PhysAddr_from_PhysPageNum (get_start r);
           end_pa = PhysAddr_from_PhysPageNum (get_end r);
           start_va = pa_0 start_pa; end_va = pa_0 end_pa in
       bindR (MapArea_new (VirtAddr_from start_va) (VirtAddr_from end_va) (Some start_pa) (Some end_pa)
                (map_type area) (map_perm area)) (\<lambda>new_area.
       push T self new_area None s))) (areas gpm) (self, s)"

section \<open>A guest's memory set\<close>

definition new_guest_bare ::
  "('p, 'x world_scheme, 'm) GuestPageTable_scheme \<Rightarrow> 'x world_scheme \<Rightarrow>
   ('p GuestMemorySet \<times> 'x world_scheme) result" where
  "new_guest_bare G s = bindR (pt_new_guest G s) (\<lambda>(pt, s'). Inr (\<lparr>page_table = pt, areas = []\<rparr>, s'))"

definition push_window ::
  "('p, 'x world_scheme, 'm) PageTable_scheme \<Rightarrow> usize \<Rightarrow> MapPermission \<Rightarrow> Device \<Rightarrow>
   'p MemorySet \<times> 'x world_scheme \<Rightarrow> ('p MemorySet \<times> 'x world_scheme) result" where
  "push_window T sz perm d = (\<lambda>(self, s).
     bindR (checked_add (base_address d) sz) (\<lambda>stop.
     push_identity T (base_address d) stop perm self s))"

definition new_guest_without_load ::
  "('p, 'x world_scheme, 'm) GuestPageTable_scheme \<Rightarrow> usize \<Rightarrow> MachineMeta \<Rightarrow> 'x world_scheme \<Rightarrow>
   ('p GuestMemorySet \<times> 'x world_scheme) result" where
  "new_guest_without_load G strampoline guest_machine s =
     (let R = MapPermission_R; W = MapPermission_W; X = MapPermission_X; U = MapPermission_U;
          off = physical_memory_offset guest_machine; sz = physical_memory_size guest_machine in
      bindR (new_guest_bare G s) (\<lambda>(gpm, s).
      bindR (bindR (checked_sub off 0x200000) (\<lambda>start.
             bindR (checked_add off sz) (\<lambda>stop.
             bindR (MapArea_new (VirtAddr start) (VirtAddr stop) (Some (PhysAddr start)) (Some (PhysAddr stop))
                      Linear (R OR W OR U OR X)) (\<lambda>area.
             push G gpm area None s)))) (\<lambda>(gpm, s).
      bindR (map_trampoline G strampoline gpm s) (\<lambda>gs.
      bindR (if_some (test_finisher_address guest_machine) (\<lambda>d (self, s).
               bindR (checked_add (base_address d) (dev_size d)) (\<lambda>e.
               bindR (checked_add e 0x1000) (\<lambda>stop.
               push_identity G (base_address d) stop (R OR W OR U OR X) self s))) gs) (\<lambda>gs.
      bindR (foldR (push_device G (R OR W OR U)) (virtio guest_machine) gs) (\<lambda>gs.
      bindR (if_some (uart guest_machine) (push_device G (R OR W OR U)) gs) (\<lambda>gs.
      bindR (if_some (clint guest_machine) (push_device G (R OR W OR U)) gs) (\<lambda>gs.
      bindR (if_some (plic guest_machine) (push_window G 0x00200000 (R OR W OR U)) gs) (\<lambda>gs.
      if_some (pci guest_machine) (push_window G 0x00200000 (R OR W OR U)) gs)))))))))"

text \<open>
  \<open>new_guest\<close> loads an ELF image. The crate \<open>xmas_elf\<close> is not part of the
  repository: its functions are the fields of \<open>elf_crate\<close>. A segment outside the
  image is undefined behaviour of \<open>core::ptr::copy\<close>; the bytes inside are copied
  here.
\<close>

record ('elf, 'ph) elf_crate =
  elf_new :: "u8 list \<Rightarrow> 'elf option"
  elf_magic :: "'elf \<Rightarrow> u8 list"
  ph_count :: "'elf \<Rightarrow> nat"
  program_header :: "'elf \<Rightarrow> nat \<Rightarrow> 'ph option"
  ph_is_load :: "'ph \<Rightarrow> bool option"
  virtual_addr :: "'ph \<Rightarrow> u64"
  mem_size :: "'ph \<Rightarrow> u64"
  ph_offset :: "'ph \<Rightarrow> u64"
  file_size :: "'ph \<Rightarrow> u64"
  is_read :: "'ph \<Rightarrow> bool"
  is_write :: "'ph \<Rightarrow> bool"
  is_execute :: "'ph \<Rightarrow> bool"

definition segment_perm :: "('elf, 'ph) elf_crate \<Rightarrow> 'ph \<Rightarrow> MapPermission" where
  "segment_perm elfs ph =
     MapPermission_U OR (if is_read elfs ph then MapPermission_R else 0)
       OR (if is_write elfs ph then MapPermission_W else 0)
       OR (if is_execute elfs ph then MapPermission_X else 0)"

definition load_segment ::
  "('p, 'x world_scheme, 'm) PageTable_scheme \<Rightarrow> ('elf, 'ph) elf_crate \<Rightarrow> u8 list \<Rightarrow> 'elf \<Rightarrow> nat \<Rightarrow>
   usize \<times> usize \<times> 'p GuestMemorySet \<times> 'x world_scheme \<Rightarrow>
   (usize \<times> usize \<times> 'p GuestMemorySet \<times> 'x world_scheme) result" where
  "load_segment G elfs guest_data elf i = (\<lambda>(paddr, last_paddr, gpm, s).
     bindR (case program_header elfs elf i of None \<Rightarrow> Inl UnwrapErr | Some ph \<Rightarrow> Inr ph) (\<lambda>ph.
     bindR (case ph_is_load elfs ph of None \<Rightarrow> Inl UnwrapErr | Some b \<Rightarrow> Inr b) (\<lambda>is_load.
     if \<not> is_load then Inr (paddr, last_paddr, gpm, s)
     else
       let start_va = VirtAddr_from (virtual_addr elfs ph) in
       bindR (checked_add (virtual_addr elfs ph) (mem_size elfs ph)) (\<lambda>e.
       let end_va = VirtAddr_from e;
           perm = segment_perm elfs ph;
           s1 = s\<lparr>mem := copy_bytes paddr
                  (take (unat (file_size elfs ph)) (drop (unat (ph_offset elfs ph)) guest_data)) (mem s)\<rparr> in
       bindR (checked_add (mem_size elfs ph) PAGE_SIZE) (\<lambda>a.
       bindR (checked_sub a 1) (\<lambda>b.
       let page_align_size = push_bit 12 (drop_bit 12 b);
           paddr' = paddr + page_align_size in
       bindR (MapArea_new start_va end_va (Some (PhysAddr last_paddr)) (Some (PhysAddr paddr')) Linear perm) (\<lambda>area.
       bindR (push G gpm area None s1) (\<lambda>(gpm', s2).
       Inr (paddr', paddr', gpm', s2)))))))))"

definition GuestMemorySet_new_guest ::
  "('p, 'x world_scheme, 'm) GuestPageTable_scheme \<Rightarrow> ('elf, 'ph) elf_crate \<Rightarrow> usize \<Rightarrow> u8 list \<Rightarrow> usize \<Rightarrow>
   MachineMeta \<Rightarrow> 'x world_scheme \<Rightarrow> ('p GuestMemorySet \<times> 'x world_scheme) result" where
  "GuestMemorySet_new_guest G elfs strampoline guest_data gpm_size guest_machine s =
     (let R = MapPermission_R; W = MapPermission_W; X = MapPermission_X; U = MapPermission_U in
      bindR (new_guest_bare G s) (\<lambda>(gpm, s).
      bindR (case elf_new elfs guest_data of None \<Rightarrow> Inl UnwrapErr | Some elf \<Rightarrow> Inr elf) (\<lambda>elf.
      bindR (assertR (elf_magic elfs elf = [0x7f, 0x45, 0x4c, 0x46])) (\<lambda>_.
      bindR (foldR (load_segment G elfs guest_data elf) [0..<ph_count elfs elf]
               (GUEST_START_PA, GUEST_START_PA, gpm, s)) (\<lambda>(paddr, last_paddr, gpm, s).
      bindR (checked_sub paddr GUEST_START_PA) (\<lambda>offset.
      bindR (checked_add GUEST_START_PA gpm_size) (\<lambda>guest_end_pa.
      bindR (checked_add GUEST_START_VA gpm_size) (\<lambda>guest_end_va.
      bindR (checked_add offset GUEST_START_VA) (\<lambda>start.
      bindR (bindR (MapArea_new (VirtAddr start) (VirtAddr guest_end_va) (Some (PhysAddr paddr))
                      (Some (PhysAddr guest_end_pa)) Linear (R OR W OR U OR X)) (\<lambda>area.
             push G gpm area None s)) (\<lambda>(gpm, s).
      bindR (map_trampoline G strampoline gpm s) (\<lambda>gs.
      bindR (if_some (test_finisher_address guest_machine) (push_device G (R OR W OR U)) gs) (\<lambda>gs.
      bindR (foldR (push_device G (R OR W OR U)) (virtio guest_machine) gs) (\<lambda>gs.
      bindR (if_some (uart guest_machine) (push_device G (R OR W OR U)) gs) (\<lambda>gs.
      bindR (if_some (clint guest_machine) (push_device G (R OR W OR U)) gs) (\<lambda>gs.
      if_some (plic guest_machine) (\<lambda>d (self, s).
        push_identity G (base_address d) (base_address d) (R OR W OR U) self s) gs)))))))))))))))"

end
