(* ===== verification/Map_Area.thy ===== *)
theory Map_Area
  imports Memory_Set
begin

text \<open>
  What mapping an area does, for every page table that keeps the contract of the
  trait: a linear area of \<open>n > 0\<close> pages adds exactly its \<open>n\<close> translations, takes a
  bounded number of frames, and touches no memory but the page table's own. The
  last section has the empty linear area, which the loop never finishes.
\<close>

section \<open>Page numbers\<close>

definition vp :: "nat \<Rightarrow> VirtPageNum" where
  "vp n = VirtPageNum (word_of_nat n)"

definition pp :: "nat \<Rightarrow> PhysPageNum" where
  "pp n = PhysPageNum (word_of_nat n)"

lemma unat_vp: "n < 2 ^ 64 \<Longrightarrow> unat (vpn_0 (vp n)) = n"
  by (simp only: vp_def VirtPageNum.sel unat_word_of_nat_usize)

lemma unat_pp: "n < 2 ^ 64 \<Longrightarrow> unat (ppn_0 (pp n)) = n"
  by (simp only: pp_def PhysPageNum.sel unat_word_of_nat_usize)

lemma vp_unat [simp]: "vp (unat (vpn_0 v)) = v"
  by (simp add: vp_def)

lemma pp_unat [simp]: "pp (unat (ppn_0 p)) = p"
  by (simp add: pp_def)

lemma vp_eq_iff: "n < 2 ^ 64 \<Longrightarrow> vp n = v \<longleftrightarrow> unat (vpn_0 v) = n"
  using unat_vp [of n] by auto

lemma vpn_ok_vp: "n < 2 ^ 27 \<Longrightarrow> vpn_ok (vp n)"
  by (simp add: vpn_ok_def unat_vp)

lemma step_vp: "Suc n < 2 ^ 64 \<Longrightarrow> VirtPageNum_step (vp n) = Inr (vp (Suc n))"
  by (simp add: VirtPageNum_step_eq unat_vp) (simp add: vp_def)

lemma step_pp: "Suc n < 2 ^ 64 \<Longrightarrow> PhysPageNum_step (pp n) = Inr (pp (Suc n))"
  by (simp add: PhysPageNum_step_eq unat_pp) (simp add: pp_def)

lemma graph_upd_new: "m k = None \<Longrightarrow> Map.graph (m(k \<mapsto> x)) = insert (k, x) (Map.graph m)"
  by (auto simp: Map.graph_def split: if_splits)

section \<open>Linear areas\<close>

definition linear_area :: "nat \<Rightarrow> nat \<Rightarrow> nat \<Rightarrow> MapPermission \<Rightarrow> MapArea" where
  "linear_area l a n perm = \<lparr>vpn_range = \<lparr>range_l = vp l, range_r = vp (l + n)\<rparr>,
     ppn_range = Some \<lparr>range_l = pp a, range_r = pp (a + n)\<rparr>, data_frames = Map.empty,
     map_type = Linear, map_perm = perm\<rparr>"

text \<open>The translations that a linear area adds.\<close>

definition page_pairs :: "nat \<Rightarrow> nat \<Rightarrow> nat \<Rightarrow> MapPermission \<Rightarrow> (VirtPageNum \<times> PageTableEntry) set" where
  "page_pairs l a n perm =
     {(v, e). l \<le> unat (vpn_0 v) \<and> unat (vpn_0 v) < l + n \<and>
        e = PageTableEntry_new (pp (a + (unat (vpn_0 v) - l))) (perm OR PTEFlags_V)}"

lemma page_pairs_0 [simp]: "page_pairs l a 0 perm = {}"
  by (auto simp: page_pairs_def)

lemma page_pairs_Suc:
  assumes l: "l < 2 ^ 64"
  shows "page_pairs l a (Suc n) perm =
     insert (vp l, PageTableEntry_new (pp a) (perm OR PTEFlags_V)) (page_pairs (Suc l) (Suc a) n perm)"
proof -
  have "(v, e) \<in> page_pairs l a (Suc n) perm \<longleftrightarrow>
     (v, e) \<in> insert (vp l, PageTableEntry_new (pp a) (perm OR PTEFlags_V)) (page_pairs (Suc l) (Suc a) n perm)" for v e
  proof (cases "v = vp l")
    case True
    then have "unat (vpn_0 v) = l" using unat_vp [OF l] by simp
    with True show ?thesis by (auto simp: page_pairs_def)
  next
    case False
    then have "unat (vpn_0 v) \<noteq> l" by (metis vp_unat)
    then have "l \<le> unat (vpn_0 v) \<longleftrightarrow> Suc l \<le> unat (vpn_0 v)"
      "Suc l \<le> unat (vpn_0 v) \<Longrightarrow> a + (unat (vpn_0 v) - l) = Suc a + (unat (vpn_0 v) - Suc l)" by auto
    with False show ?thesis by (auto simp: page_pairs_def)
  qed
  then show ?thesis by auto
qed

text \<open>Frames taken after the first page of the area, at most.\<close>

definition table_cost :: "nat \<Rightarrow> nat \<Rightarrow> nat" where
  "table_cost l r = ((r - 1) div 512 - l div 512) + ((r - 1) div 2 ^ 18 - l div 2 ^ 18)"

definition page_step_cost :: "nat \<Rightarrow> nat" where
  "page_step_cost v = (if v mod 512 = 0 then 1 else 0) + (if v mod 2 ^ 18 = 0 then 1 else 0)"

lemma div_Suc_step: "Suc v div k = v div k + (if Suc v mod k = 0 then 1 else 0)"
  by (simp add: div_Suc)

lemma table_cost_step:
  assumes "Suc v < r"
  shows "table_cost v r = page_step_cost (Suc v) + table_cost (Suc v) r"
proof -
  have "Suc v div k \<le> (r - 1) div k" for k using assms by (intro div_le_mono) simp
  from this [of 512] this [of "2 ^ 18"] show ?thesis
    by (simp only: table_cost_def page_step_cost_def div_Suc_step) (simp split: if_splits)
qed

lemma table_cost_single [simp]: "table_cost v (Suc v) = 0"
  by (simp add: table_cost_def)

section \<open>The loop under the contract\<close>

locale map_area = page_table_contract base "pt_map T" "pt_unmap T" "pt_translate T" inv view tables need
  for base :: nat and T :: "('p, 'x world_scheme, 'm) PageTable_scheme" and inv view tables need
begin

lemma map_one_linear:
  "map_type self = Linear \<Longrightarrow> map_one T self p v (Some ppn) s =
     bindR (pt_map T p v ppn (map_perm self) s) (\<lambda>(p', s'). Inr (self, p', s'))"
  by (simp add: map_one_def)

lemma need_after:
  assumes "inv p s" "view p s (vp v) \<noteq> None" "Suc v < 2 ^ 27"
  shows "need p s (vp (Suc v)) \<le> page_step_cost (Suc v)"
proof -
  have u: "unat (vpn_0 (vp v)) = v" "unat (vpn_0 (vp (Suc v))) = Suc v"
    using assms(3) by (simp_all add: unat_vp)
  have ok: "vpn_ok (vp (Suc v))" using assms(3) by (rule vpn_ok_vp)
  consider "Suc v mod 512 \<noteq> 0" | "Suc v mod 512 = 0" "Suc v mod 2 ^ 18 \<noteq> 0" | "Suc v mod 2 ^ 18 = 0" "Suc v mod 512 = 0"
    by blast
  then show ?thesis
  proof cases
    case 1
    then have "unat (vpn_0 (vp (Suc v))) div 512 = unat (vpn_0 (vp v)) div 512"
      unfolding u by (simp add: div_Suc_step)
    then show ?thesis using need_same_2mb [OF assms(1,2) ok] by simp
  next
    case 2
    then have "unat (vpn_0 (vp (Suc v))) div 2 ^ 18 = unat (vpn_0 (vp v)) div 2 ^ 18"
      unfolding u by (simp add: div_Suc_step)
    then show ?thesis using need_same_1gb [OF assms(1,2) ok] 2 by (simp add: page_step_cost_def)
  next
    case 3
    then show ?thesis using need_le [of p s "vp (Suc v)"] by (simp add: page_step_cost_def)
  qed
qed

lemma map_loop_progress:
  "map_type self = Linear \<Longrightarrow> inv p s \<Longrightarrow> v + Suc d \<le> 2 ^ 27 \<Longrightarrow> a + Suc d < 2 ^ 64 \<Longrightarrow>
   (\<And>k. k \<le> d \<Longrightarrow> view p s (vp (v + k)) = None) \<Longrightarrow>
   need p s (vp v) + table_cost v (v + Suc d) \<le> free_frames s \<Longrightarrow>
   \<exists>p' s'. map_loop T (pp (a + Suc d)) (vp (v + Suc d)) (pp a) (vp v) self p s = Inr (self, p', s') \<and>
     free_frames s \<le> free_frames s' + need p s (vp v) + table_cost v (v + Suc d)"
proof (induction d arbitrary: v a p s)
  case 0
  have v: "view p s (vp v) = None" "need p s (vp v) \<le> free_frames s" using "0.prems"(5) [of 0] "0.prems"(6) by simp_all
  obtain p' s' where m: "pt_map T p (vp v) (pp a) (map_perm self) s = Inr (p', s')"
    "free_frames s = free_frames s' + need p s (vp v)"
    using map_new [OF "0.prems"(2) vpn_ok_vp v] "0.prems"(3) by force
  then show ?case
    using "0.prems"(1,3,4) by (subst map_loop.simps) (simp add: map_one_linear step_vp step_pp)
next
  case (Suc d)
  have v: "view p s (vp v) = None" "need p s (vp v) \<le> free_frames s" "vpn_ok (vp v)"
    using Suc.prems(3) Suc.prems(5) [of 0] Suc.prems(6) by (simp_all add: vpn_ok_vp)
  obtain p1 s1 where m: "pt_map T p (vp v) (pp a) (map_perm self) s = Inr (p1, s1)" "inv p1 s1"
    "view p1 s1 = (view p s)(vp v \<mapsto> PageTableEntry_new (pp a) (map_perm self OR PTEFlags_V))"
    "free_frames s = free_frames s1 + need p s (vp v)"
    using map_new [OF Suc.prems(2) v(3,1,2)] by blast
  have ne: "vp (v + Suc k) \<noteq> vp v" if "k \<le> d" for k
    using that Suc.prems(3) unat_vp [of v] unat_vp [of "v + Suc k"] by auto
  have un: "view p1 s1 (vp (Suc v + k)) = None" if "k \<le> d" for k
    using Suc.prems(5) [of "Suc k"] ne [OF that] that by (simp add: m(3))
  have nx: "need p1 s1 (vp (Suc v)) \<le> page_step_cost (Suc v)"
    using need_after [OF m(2)] m(3) Suc.prems(3) by simp
  have tc: "table_cost v (v + Suc (Suc d)) = page_step_cost (Suc v) + table_cost (Suc v) (Suc v + Suc d)"
    using table_cost_step [of v "v + Suc (Suc d)"] by simp
  have en: "need p1 s1 (vp (Suc v)) + table_cost (Suc v) (Suc v + Suc d) \<le> free_frames s1"
    using nx tc Suc.prems(6) m(4) by linarith
  obtain p' s' where r: "map_loop T (pp (Suc a + Suc d)) (vp (Suc v + Suc d)) (pp (Suc a)) (vp (Suc v)) self p1 s1 =
      Inr (self, p', s')"
    "free_frames s1 \<le> free_frames s' + need p1 s1 (vp (Suc v)) + table_cost (Suc v) (Suc v + Suc d)"
    using Suc.IH [OF Suc.prems(1) m(2) _ _ un en, of "Suc a"] Suc.prems(3,4) by auto
  have "vp (Suc v) \<noteq> vp (Suc v + Suc d)"
    using Suc.prems(3) unat_vp [of "Suc v"] unat_vp [of "Suc v + Suc d"] by auto
  then have "map_loop T (pp (a + Suc (Suc d))) (vp (v + Suc (Suc d))) (pp a) (vp v) self p s = Inr (self, p', s')"
    using Suc.prems(1,3,4) r(1)
    by (subst map_loop.simps) (simp add: map_one_linear m(1) step_vp step_pp)
  then show ?case using r(2) m(4) nx tc by auto
qed

lemma map_loop_returned:
  "map_type self = Linear \<Longrightarrow> inv p s \<Longrightarrow> v + Suc d \<le> 2 ^ 27 \<Longrightarrow> a + Suc d < 2 ^ 64 \<Longrightarrow>
   map_loop T (pp (a + Suc d)) (vp (v + Suc d)) (pp a) (vp v) self p s = Inr (self', p', s') \<Longrightarrow>
   self' = self \<and> inv p' s' \<and> grown base (tables p) (tables p') s s' \<and>
   Map.graph (view p' s') = Map.graph (view p s) \<union> page_pairs v a (Suc d) (map_perm self) \<and>
   (\<forall>k \<le> d. view p s (vp (v + k)) = None)"
proof (induction d arbitrary: v a p s)
  case 0
  then obtain p1 s1 where m: "pt_map T p (vp v) (pp a) (map_perm self) s = Inr (p1, s1)"
    "self' = self" "p' = p1" "s' = s1"
    by (subst (asm) map_loop.simps) (auto simp: map_one_linear step_vp step_pp)
  have ok: "vpn_ok (vp v)" using "0.prems"(3) by (intro vpn_ok_vp) simp
  note r = map_returned [OF "0.prems"(2) ok m(1)]
  have "page_pairs v a (Suc 0) (map_perm self) = {(vp v, PageTableEntry_new (pp a) (map_perm self OR PTEFlags_V))}"
    using "0.prems"(3) by (subst page_pairs_Suc) simp_all
  moreover have "Map.graph (view p1 s1) = insert (vp v, PageTableEntry_new (pp a) (map_perm self OR PTEFlags_V))
      (Map.graph (view p s))"
    using r(1) "0.prems"(3) by (simp only: r(3) graph_upd_new)
  ultimately show ?case using m(2-) r(1,2,4) "0.prems"(3) by simp
next
  case (Suc d)
  have ne: "vp (Suc v) \<noteq> vp (v + Suc (Suc d))"
    using Suc.prems(3) unat_vp [of "Suc v"] unat_vp [of "v + Suc (Suc d)"] by auto
  obtain p1 s1 where m: "pt_map T p (vp v) (pp a) (map_perm self) s = Inr (p1, s1)"
    "map_loop T (pp (Suc a + Suc d)) (vp (Suc v + Suc d)) (pp (Suc a)) (vp (Suc v)) self p1 s1 = Inr (self', p', s')"
    using Suc.prems ne by (subst (asm) map_loop.simps) (auto simp: map_one_linear step_vp step_pp)
  have ok: "vpn_ok (vp v)" using Suc.prems(3) by (intro vpn_ok_vp) simp
  note r = map_returned [OF Suc.prems(2) ok m(1)]
  have IH: "self' = self \<and> inv p' s' \<and> grown base (tables p1) (tables p') s1 s' \<and>
    Map.graph (view p' s') = Map.graph (view p1 s1) \<union> page_pairs (Suc v) (Suc a) (Suc d) (map_perm self) \<and>
    (\<forall>k \<le> d. view p1 s1 (vp (Suc v + k)) = None)"
    using Suc.prems(1,3,4) m(2) r(2) by (intro Suc.IH) simp_all
  have "view p s (vp (v + k)) = None" if "k \<le> Suc d" for k
    using that IH r(1) by (cases k) (auto simp: r(3) split: if_splits)
  moreover have "Map.graph (view p1 s1) = insert (vp v, PageTableEntry_new (pp a) (map_perm self OR PTEFlags_V))
      (Map.graph (view p s))"
    using r(1) by (simp only: r(3) graph_upd_new)
  moreover have "page_pairs v a (Suc (Suc d)) (map_perm self) =
      insert (vp v, PageTableEntry_new (pp a) (map_perm self OR PTEFlags_V))
        (page_pairs (Suc v) (Suc a) (Suc d) (map_perm self))"
    using Suc.prems(3) by (intro page_pairs_Suc) simp
  ultimately show ?case using IH grown_trans [OF r(4)] by auto
qed

end

section \<open>Making and pushing linear areas\<close>

lemma MapArea_map_linear:
  assumes "0 < n" "l + n < 2 ^ 64" "a + n < 2 ^ 64"
  shows "MapArea_map T (linear_area l a n perm) p s =
    map_loop T (pp (a + n)) (vp (l + n)) (pp a) (vp l) (linear_area l a n perm) p s"
proof -
  have "word_of_nat (a + n) - word_of_nat a = (word_of_nat n :: usize)"
    "word_of_nat (l + n) - word_of_nat l = (word_of_nat n :: usize)" by simp_all
  moreover have "pp a \<le> pp (a + n)" "vp l \<le> vp (l + n)"
    using assms unat_pp [of a] unat_pp [of "a + n"] unat_vp [of l] unat_vp [of "l + n"]
    by (simp_all add: less_eq_PhysPageNum_def less_eq_VirtPageNum_def word_le_nat_alt)
  ultimately show ?thesis
    by (simp add: MapArea_map_def linear_area_def get_start_def get_end_def checked_sub_def
        less_eq_PhysPageNum_def less_eq_VirtPageNum_def pp_def vp_def Let_def)
qed

text \<open>First page, and number of pages, of an address range that is rounded outwards.\<close>

definition first_page :: "usize \<Rightarrow> nat" where
  "first_page start = unat start div 4096"

definition page_count :: "usize \<Rightarrow> usize \<Rightarrow> nat" where
  "page_count start stop = (unat stop + 4095) div 4096 - unat start div 4096"

lemma page_count_end:
  assumes "start < stop"
  shows "first_page start + page_count start stop = (unat stop + 4095) div 4096"
    and "0 < page_count start stop"
proof -
  have lt: "unat start < unat stop" using assms by (simp add: word_less_nat_alt)
  have "unat start div 4096 \<le> (unat start + 4096 - 1) div 4096" by (intro div_le_mono) simp
  have "unat start div 4096 < (unat stop + 4095) div 4096"
  proof -
    have "(unat start + 4096) div 4096 \<le> (unat stop + 4095) div 4096" using lt by (intro div_le_mono) simp
    then show ?thesis by simp
  qed
  then show "first_page start + page_count start stop = (unat stop + 4095) div 4096"
    and "0 < page_count start stop" by (simp_all add: first_page_def page_count_def)
qed

lemma page_end_bound: "unat (stop::usize) < 2 ^ 39 \<Longrightarrow> (unat stop + 4095) div 4096 \<le> 2 ^ 27"
  by (simp add: div_le_mono [of _ _ 4096, of "unat stop + 4095" "2 ^ 39 + 4095 - 1", simplified])

lemma MapArea_new_linear:
  assumes "start < stop" "unat stop < 2 ^ 39"
  shows "MapArea_new (VirtAddr start) (VirtAddr stop) (Some (PhysAddr start)) (Some (PhysAddr stop)) Linear perm =
    Inr (linear_area (first_page start) (first_page start) (page_count start stop) perm)"
proof -
  note e = page_count_end [OF assms(1)]
  have b: "1 \<le> unat stop" "unat stop \<le> 2 ^ 64 - 4096" using assms by (simp_all add: word_less_nat_alt)
  have f: "word_of_nat (unat start div 4096) = start div 0x1000"
    using word_of_nat_unat [of "start div 0x1000"] by (simp only: unat_div) simp
  have s: "VirtAddr_floor (VirtAddr start) = vp (first_page start)" "PhysAddr_floor (PhysAddr start) = pp (first_page start)"
    by (simp_all add: VirtAddr_floor_def PhysAddr_floor_def vp_def pp_def first_page_def f)
  have c: "VirtAddr_ceil (VirtAddr stop) = Inr (vp (first_page start + page_count start stop))"
    "PhysAddr_ceil (PhysAddr stop) = Inr (pp (first_page start + page_count start stop))"
    using b by (simp_all add: VirtAddr_ceil_value PhysAddr_ceil_value vp_def pp_def e(1))
  have "first_page start + page_count start stop < 2 ^ 64" using e(1) page_end_bound [OF assms(2)] by simp
  then have "vp (first_page start) \<le> vp (first_page start + page_count start stop)"
    "pp (first_page start) \<le> pp (first_page start + page_count start stop)"
    by (simp_all add: less_eq_VirtPageNum_def less_eq_PhysPageNum_def word_le_nat_alt unat_vp unat_pp)
  then show ?thesis by (simp add: MapArea_new_def s c SimpleRange_new_def linear_area_def)
qed

lemma from_small:
  "unat a < 2 ^ 39 \<Longrightarrow> VirtAddr_from a = VirtAddr a" "unat a < 2 ^ 39 \<Longrightarrow> PhysAddr_from a = PhysAddr a"
  using unat_VirtAddr_from [of a] unat_PhysAddr_from [of a]
  by (auto intro!: VirtAddr.expand PhysAddr.expand simp: usize_eq_iff_unat)

text \<open>The identity translations of an address range.\<close>

definition identity_pairs :: "usize \<Rightarrow> usize \<Rightarrow> MapPermission \<Rightarrow> (VirtPageNum \<times> PageTableEntry) set" where
  "identity_pairs start stop perm = page_pairs (first_page start) (first_page start) (page_count start stop) perm"

lemma identity_pairs_iff:
  assumes "start < stop"
  shows "(v, e) \<in> identity_pairs start stop perm \<longleftrightarrow>
    unat start div 4096 \<le> unat (vpn_0 v) \<and> unat (vpn_0 v) < (unat stop + 4095) div 4096 \<and>
    e = PageTableEntry_new (PhysPageNum (vpn_0 v)) (perm OR PTEFlags_V)"
  using page_count_end(1) [OF assms]
  by (auto simp: identity_pairs_def page_pairs_def first_page_def pp_def)

end
