(* ===== verification/Memory_Set_Correct.thy ===== *)
theory Memory_Set_Correct
  imports Map_Area
begin

text \<open>
  Memory sets under the contract of the page table: what pushing areas, address
  ranges and devices adds to the translations of a memory set, and that it returns
  when the pages are free and frames are left. Then the instance for \<open>Sv39\<close>.
\<close>

section \<open>What an operation adds\<close>

definition ms_adds where
  "ms_adds base ok view tables E ms s ms' s' \<longleftrightarrow>
     ok (page_table ms') s' \<and> grown base (tables (page_table ms)) (tables (page_table ms')) s s' \<and>
     Map.graph (view (page_table ms') s') = Map.graph (view (page_table ms) s) \<union> E"

lemma ms_adds_trans:
  "ms_adds base ok view tables E ms s ms' s' \<Longrightarrow> ms_adds base ok view tables E' ms' s' ms'' s'' \<Longrightarrow>
   ms_adds base ok view tables (E \<union> E') ms s ms'' s''"
  by (auto simp: ms_adds_def intro: grown_trans)

text \<open>Address ranges with a permission, and the pages they take.\<close>

type_synonym region = "usize \<times> usize \<times> MapPermission"

definition region_ok :: "region \<Rightarrow> bool" where
  "region_ok = (\<lambda>(start, stop, perm). start < stop \<and> unat stop < 2 ^ 39)"

definition region_pairs :: "region \<Rightarrow> (VirtPageNum \<times> PageTableEntry) set" where
  "region_pairs = (\<lambda>(start, stop, perm). identity_pairs start stop perm)"

definition region_pages :: "region \<Rightarrow> nat set" where
  "region_pages = (\<lambda>(start, stop, perm). {first_page start..<first_page start + page_count start stop})"

definition region_cost :: "region \<Rightarrow> nat" where
  "region_cost = (\<lambda>(start, stop, perm).
     2 + table_cost (first_page start) (first_page start + page_count start stop))"

definition push_region ::
  "('p, 'x world_scheme, 'm) PageTable_scheme \<Rightarrow> region \<Rightarrow> 'p MemorySet \<times> 'x world_scheme \<Rightarrow>
   ('p MemorySet \<times> 'x world_scheme) result" where
  "push_region T = (\<lambda>(start, stop, perm) (ms, s). push_identity T start stop perm ms s)"

definition regions_apart :: "region \<Rightarrow> region \<Rightarrow> bool" where
  "regions_apart = (\<lambda>(a, b, _) (c, d, _). first_page a + page_count a b \<le> first_page c \<or>
     first_page c + page_count c d \<le> first_page a)"

fun disjoint_regions :: "region list \<Rightarrow> bool" where
  "disjoint_regions [] = True"
| "disjoint_regions (r # rs) \<longleftrightarrow> list_all (regions_apart r) rs \<and> disjoint_regions rs"

lemma regions_apart_pages: "regions_apart r q \<Longrightarrow> n \<in> region_pages r \<Longrightarrow> n \<notin> region_pages q"
  by (auto simp: regions_apart_def region_pages_def split: prod.splits)

lemma region_pairs_pages: "(v, e) \<in> region_pairs r \<Longrightarrow> unat (vpn_0 v) \<in> region_pages r"
  by (auto simp: region_pairs_def region_pages_def identity_pairs_def page_pairs_def split: prod.splits)

text \<open>The trampoline is the last page of the 39-bit address space.\<close>

definition trampoline_pair :: "usize \<Rightarrow> VirtPageNum \<times> PageTableEntry" where
  "trampoline_pair strampoline = (VirtPageNum 0x7ffffff,
     PageTableEntry_new (PhysAddr_floor (PhysAddr_from strampoline)) (PTEFlags_R OR PTEFlags_X OR PTEFlags_V))"

lemma trampoline_vpn: "VirtPageNum_from_VirtAddr (VirtAddr_from TRAMPOLINE) = Inr (VirtPageNum 0x7ffffff)"
  by (simp add: VirtPageNum_from_VirtAddr_def VirtAddr_from_def VirtAddr_page_offset_def VirtAddr_floor_def)

section \<open>Pushing under the contract\<close>

context map_area
begin

lemma push_linear:
  assumes "0 < n" "l + n \<le> 2 ^ 27" "a + n < 2 ^ 64" "inv (page_table ms) s"
    "push T ms (linear_area l a n perm) None s = Inr (ms', s')"
  shows "ms_adds base inv view tables (page_pairs l a n perm) ms s ms' s'"
    and "\<And>k. k < n \<Longrightarrow> view (page_table ms) s (vp (l + k)) = None"
    and "areas ms' = areas ms @ [linear_area l a n perm]"
proof -
  obtain d where n: "n = Suc d" using assms(1) by (cases n) auto
  have b: "l + n < 2 ^ 64" using assms(2) by simp
  obtain area p' where m: "map_loop T (pp (a + n)) (vp (l + n)) (pp a) (vp l) (linear_area l a n perm) (page_table ms) s =
      Inr (area, p', s')" "ms' = ms\<lparr>page_table := p', areas := areas ms @ [area]\<rparr>"
    using assms(5) by (auto simp: push_def MapArea_map_linear [OF assms(1) b assms(3)])
  have lin: "map_type (linear_area l a n perm) = Linear" "map_perm (linear_area l a n perm) = perm"
    by (simp_all add: linear_area_def)
  note r = map_loop_returned [OF lin(1) [unfolded n] assms(4) assms(2,3) [unfolded n] m(1) [unfolded n]]
  show "ms_adds base inv view tables (page_pairs l a n perm) ms s ms' s'"
    using r m(2) lin(2) by (simp add: ms_adds_def n)
  show "view (page_table ms) s (vp (l + k)) = None" if "k < n" for k
    using r that by (simp add: n)
  show "areas ms' = areas ms @ [linear_area l a n perm]" using r m(2) by (simp add: n)
qed

lemma push_linear_progress:
  assumes "0 < n" "l + n \<le> 2 ^ 27" "a + n < 2 ^ 64" "inv (page_table ms) s"
    "\<And>k. k < n \<Longrightarrow> view (page_table ms) s (vp (l + k)) = None"
    "2 + table_cost l (l + n) \<le> free_frames s"
  shows "\<exists>ms' s'. push T ms (linear_area l a n perm) None s = Inr (ms', s') \<and>
    free_frames s \<le> free_frames s' + (2 + table_cost l (l + n))"
proof -
  obtain d where n: "n = Suc d" using assms(1) by (cases n) auto
  have b: "l + n < 2 ^ 64" using assms(2) by simp
  have lin: "map_type (linear_area l a n perm) = Linear" by (simp add: linear_area_def)
  note nd = need_le [of "page_table ms" s "vp l"]
  have en: "need (page_table ms) s (vp l) + table_cost l (l + Suc d) \<le> free_frames s"
    using nd assms(6) by (simp add: n)
  obtain p' s' where "map_loop T (pp (a + n)) (vp (l + n)) (pp a) (vp l) (linear_area l a n perm) (page_table ms) s =
      Inr (linear_area l a n perm, p', s')"
    "free_frames s \<le> free_frames s' + need (page_table ms) s (vp l) + table_cost l (l + n)"
    using map_loop_progress [OF lin [unfolded n] assms(4) assms(2,3) [unfolded n] _ en] assms(5) unfolding n by auto
  then show ?thesis using nd by (auto simp: push_def MapArea_map_linear [OF assms(1) b assms(3)])
qed

lemma push_identity_eq:
  assumes "start < stop" "unat stop < 2 ^ 39"
  shows "push_identity T start stop perm ms s =
    push T ms (linear_area (first_page start) (first_page start) (page_count start stop) perm) None s"
proof -
  have "unat start < 2 ^ 39" using assms by (simp add: word_less_nat_alt)
  then show ?thesis
    using assms by (simp add: push_identity_def from_small MapArea_new_linear)
qed

lemma push_region_adds:
  assumes "region_ok r" "inv (page_table ms) s" "push_region T r (ms, s) = Inr (ms', s')"
  shows "ms_adds base inv view tables (region_pairs r) ms s ms' s'"
proof -
  obtain start stop perm where r: "r = (start, stop, perm)" by (cases r)
  then have ok: "start < stop" "unat stop < 2 ^ 39" using assms(1) by (simp_all add: region_ok_def)
  note c = page_count_end [OF ok(1)] page_end_bound [OF ok(2)]
  have b: "first_page start + page_count start stop \<le> 2 ^ 27" using c by simp
  then have b': "first_page start + page_count start stop < 2 ^ 64" by simp
  show ?thesis
    using push_linear(1) [OF c(2) b b' assms(2), of perm ms' s'] assms(3)
    by (simp add: r push_region_def push_identity_eq [OF ok] region_pairs_def identity_pairs_def)
qed

lemma push_region_progress:
  assumes "region_ok r" "inv (page_table ms) s" "region_cost r \<le> free_frames s"
    "\<And>v. unat (vpn_0 v) \<in> region_pages r \<Longrightarrow> view (page_table ms) s v = None"
  shows "\<exists>ms' s'. push_region T r (ms, s) = Inr (ms', s') \<and> free_frames s \<le> free_frames s' + region_cost r"
proof -
  obtain start stop perm where r: "r = (start, stop, perm)" by (cases r)
  then have ok: "start < stop" "unat stop < 2 ^ 39" using assms(1) by (simp_all add: region_ok_def)
  note c = page_count_end [OF ok(1)] page_end_bound [OF ok(2)]
  have b: "first_page start + page_count start stop \<le> 2 ^ 27" using c by simp
  then have b': "first_page start + page_count start stop < 2 ^ 64" by simp
  have "view (page_table ms) s (vp (first_page start + k)) = None" if "k < page_count start stop" for k
    using that b' by (intro assms(4)) (simp add: r region_pages_def unat_vp)
  then show ?thesis
    using push_linear_progress [OF c(2) b b' assms(2), of perm] assms(3)
    by (simp add: r push_region_def push_identity_eq [OF ok] region_cost_def)
qed

lemma push_regions_adds:
  "\<forall>r \<in> set rs. region_ok r \<Longrightarrow> inv (page_table ms) s \<Longrightarrow> foldR (push_region T) rs (ms, s) = Inr (ms', s') \<Longrightarrow>
   ms_adds base inv view tables (\<Union> (region_pairs ` set rs)) ms s ms' s'"
proof (induction rs arbitrary: ms s)
  case Nil
  then show ?case using inv_tables [OF Nil(2)] grown_refl [of base s] by (auto simp: ms_adds_def)
next
  case (Cons r rs)
  obtain m1 s1 where m: "push_region T r (ms, s) = Inr (m1, s1)" "foldR (push_region T) rs (m1, s1) = Inr (ms', s')"
    using Cons.prems(3) by auto
  have a: "ms_adds base inv view tables (region_pairs r) ms s m1 s1"
    using Cons.prems(1,2) m(1) by (intro push_region_adds) simp_all
  then have "inv (page_table m1) s1" by (simp add: ms_adds_def)
  with Cons.IH [OF _ _ m(2)] Cons.prems(1) ms_adds_trans [OF a] show ?case by simp
qed

lemma push_regions_progress:
  "\<forall>r \<in> set rs. region_ok r \<Longrightarrow> disjoint_regions rs \<Longrightarrow> inv (page_table ms) s \<Longrightarrow>
   (\<Sum>r\<leftarrow>rs. region_cost r) \<le> free_frames s \<Longrightarrow>
   (\<And>r v. r \<in> set rs \<Longrightarrow> unat (vpn_0 v) \<in> region_pages r \<Longrightarrow> view (page_table ms) s v = None) \<Longrightarrow>
   \<exists>ms' s'. foldR (push_region T) rs (ms, s) = Inr (ms', s') \<and>
     free_frames s \<le> free_frames s' + (\<Sum>r\<leftarrow>rs. region_cost r)"
proof (induction rs arbitrary: ms s)
  case Nil
  then show ?case by simp
next
  case (Cons r rs)
  have "\<exists>m1 s1. push_region T r (ms, s) = Inr (m1, s1) \<and> free_frames s \<le> free_frames s1 + region_cost r"
    by (rule push_region_progress) (use Cons.prems(1,3,4) Cons.prems(5) [of r] in auto)
  then obtain m1 s1 where m: "push_region T r (ms, s) = Inr (m1, s1)" "free_frames s \<le> free_frames s1 + region_cost r"
    by blast
  have a: "ms_adds base inv view tables (region_pairs r) ms s m1 s1"
    using Cons.prems(1,3) m(1) by (intro push_region_adds) simp_all
  have un: "view (page_table m1) s1 v = None" if "q \<in> set rs" "unat (vpn_0 v) \<in> region_pages q" for q v
  proof (rule ccontr)
    assume "view (page_table m1) s1 v \<noteq> None"
    then obtain e where "(v, e) \<in> Map.graph (view (page_table m1) s1)" by (auto simp: Map.graph_def)
    then have "(v, e) \<in> Map.graph (view (page_table ms) s) \<or> (v, e) \<in> region_pairs r"
      using a by (auto simp: ms_adds_def)
    then show False
      using Cons.prems(2) Cons.prems(5) [of q v] that region_pairs_pages [of v e r] regions_apart_pages [of r q]
      by (auto simp: Map.graph_def list_all_iff)
  qed
  have "\<exists>ms' s'. foldR (push_region T) rs (m1, s1) = Inr (ms', s') \<and>
     free_frames s1 \<le> free_frames s' + (\<Sum>r\<leftarrow>rs. region_cost r)"
    using Cons.prems(1,2,4) m(2) a un by (intro Cons.IH) (auto simp: ms_adds_def)
  then show ?case using m by fastforce
qed

lemma map_trampoline_adds:
  assumes "inv (page_table ms) s" "map_trampoline T strampoline ms s = Inr (ms', s')"
  shows "ms_adds base inv view tables {trampoline_pair strampoline} ms s ms' s'"
proof -
  let ?v = "VirtPageNum 0x7ffffff" and ?p = "PhysAddr_floor (PhysAddr_from strampoline)"
  obtain p' where m: "pt_map T (page_table ms) ?v ?p (PTEFlags_R OR PTEFlags_X) s = Inr (p', s')"
    "ms' = ms\<lparr>page_table := p'\<rparr>"
    using assms(2) unfolding map_trampoline_def trampoline_vpn
    by (auto simp: PhysPageNum_from_PhysAddr_def result_simps)
  have ok: "vpn_ok ?v" by (simp add: vpn_ok_def)
  note r = map_returned [OF assms(1) ok m(1)]
  have "Map.graph (view p' s') = insert (trampoline_pair strampoline) (Map.graph (view (page_table ms) s))"
    unfolding r(3) trampoline_pair_def using r(1) by (simp only: graph_upd_new or.assoc)
  then show ?thesis using r(2,4) m(2) by (simp add: ms_adds_def)
qed

lemma map_trampoline_progress:
  assumes "inv (page_table ms) s" "unat strampoline mod 4096 = 0" "2 \<le> free_frames s"
    "view (page_table ms) s (VirtPageNum 0x7ffffff) = None"
  shows "\<exists>ms' s'. map_trampoline T strampoline ms s = Inr (ms', s') \<and> free_frames s \<le> free_frames s' + 2"
proof -
  let ?v = "VirtPageNum 0x7ffffff" and ?p = "PhysAddr_floor (PhysAddr_from strampoline)"
  have "unat (pa_0 (PhysAddr_from strampoline)) mod 4096 = 0"
    using assms(2) by (simp add: unat_PhysAddr_from mod_mod_cancel)
  then have al: "PhysPageNum_from_PhysAddr (PhysAddr_from strampoline) = Inr ?p"
    by (simp add: PhysPageNum_from_PhysAddr_def PhysAddr_page_offset_def usize_eq_iff_unat unat_and_4095)
  have ok: "vpn_ok ?v" by (simp add: vpn_ok_def)
  note nd = need_le [of "page_table ms" s ?v]
  obtain p' s' where "pt_map T (page_table ms) ?v ?p (PTEFlags_R OR PTEFlags_X) s = Inr (p', s')"
    "free_frames s = free_frames s' + need (page_table ms) s ?v"
    using map_new [OF assms(1) ok assms(4)] nd assms(3) by fastforce
  then show ?thesis using nd unfolding map_trampoline_def trampoline_vpn by (simp add: al)
qed

end

section \<open>The instance\<close>

interpretation sv39_area: map_area base Sv39 "sv39_inv base" sv39_view sv39_tables sv39_need
  for base
  by (unfold map_area_def Sv39_sel) (rule sv39.page_table_contract_axioms)

end
