(* ===== verification/Guest_Memory.thy ===== *)
theory Guest_Memory
  imports Memory_Set_Correct
begin

text \<open>
  The guest's address space that \<open>new_guest_without_load\<close> builds, exactly: the
  trampoline and the identity translations of the guest's memory and devices.
  Also that it returns when the regions do not overlap and there are frames, and
  that an empty linear area never maps.
\<close>

section \<open>The regions of a machine description\<close>

definition perm_rwu :: MapPermission where
  "perm_rwu = MapPermission_R OR MapPermission_W OR MapPermission_U"

definition perm_rwux :: MapPermission where
  "perm_rwux = MapPermission_R OR MapPermission_W OR MapPermission_U OR MapPermission_X"

definition region_of :: "usize \<Rightarrow> MapPermission \<Rightarrow> Device \<Rightarrow> region" where
  "region_of extent perm d = (base_address d, base_address d + extent, perm)"

definition memory_region :: "MachineMeta \<Rightarrow> region" where
  "memory_region m = (physical_memory_offset m - 0x200000,
     physical_memory_offset m + physical_memory_size m, perm_rwux)"

definition opt_list :: "'a option \<Rightarrow> 'a list" where
  "opt_list x = (case x of None \<Rightarrow> [] | Some y \<Rightarrow> [y])"

definition device_regions :: "MachineMeta \<Rightarrow> region list" where
  "device_regions m =
     map (\<lambda>d. region_of (dev_size d + 0x1000) perm_rwux d) (opt_list (test_finisher_address m)) @
     map (\<lambda>d. region_of (dev_size d) perm_rwu d) (virtio m @ opt_list (uart m) @ opt_list (clint m)) @
     map (region_of 0x200000 perm_rwu) (opt_list (plic m) @ opt_list (pci m))"

definition guest_regions :: "MachineMeta \<Rightarrow> region list" where
  "guest_regions m = memory_region m # device_regions m"

text \<open>A description whose regions are not empty and lie below \<open>2^39\<close>.\<close>

definition dev_fits :: "usize \<Rightarrow> Device \<Rightarrow> bool" where
  "dev_fits extent d \<longleftrightarrow> 0 < extent \<and> unat (base_address d) + unat extent < 2 ^ 39"

definition guest_ok :: "MachineMeta \<Rightarrow> bool" where
  "guest_ok m \<longleftrightarrow> 0x200000 \<le> physical_memory_offset m \<and>
     unat (physical_memory_offset m) + unat (physical_memory_size m) < 2 ^ 39 \<and>
     list_all (\<lambda>d. dev_fits (dev_size d) d) (virtio m @ opt_list (uart m) @ opt_list (clint m)) \<and>
     list_all (\<lambda>d. unat (dev_size d) + 0x1000 < 2 ^ 64 \<and> dev_fits (dev_size d + 0x1000) d)
       (opt_list (test_finisher_address m)) \<and>
     list_all (dev_fits 0x200000) (opt_list (plic m) @ opt_list (pci m))"

lemma region_of_ok: "dev_fits extent d \<Longrightarrow> region_ok (region_of extent perm d)"
  by (auto simp: dev_fits_def region_ok_def region_of_def word_less_nat_alt unat_add_no_wrap)

lemma guest_regions_ok:
  assumes "guest_ok m" "r \<in> set (guest_regions m)"
  shows "region_ok r"
proof -
  have "region_ok (memory_region m)"
    using assms(1)
    by (auto simp: guest_ok_def region_ok_def memory_region_def word_less_nat_alt word_le_nat_alt
        unat_add_no_wrap unat_sub_no_wrap)
  moreover have "region_ok r" if "r \<in> set (device_regions m)"
    using that assms(1) by (auto simp: device_regions_def guest_ok_def list_all_iff intro: region_of_ok)
  ultimately show ?thesis using assms(2) by (auto simp: guest_regions_def)
qed

section \<open>\<open>new_guest_without_load\<close> as a list of regions\<close>

lemma push_device_region:
  assumes "dev_fits (dev_size d) d"
  shows "push_device T perm d = push_region T (region_of (dev_size d) perm d)"
proof -
  have "unat (base_address d) + unat (dev_size d) < 2 ^ 64" using assms by (simp add: dev_fits_def)
  then show ?thesis
    by (auto simp: push_device_def push_region_def region_of_def fun_eq_iff checked_add_def)
qed

lemma push_window_region:
  assumes "dev_fits sz d"
  shows "push_window T sz perm d = push_region T (region_of sz perm d)"
proof -
  have "unat (base_address d) + unat sz < 2 ^ 64" using assms by (simp add: dev_fits_def)
  then show ?thesis
    by (auto simp: push_window_def push_region_def region_of_def fun_eq_iff checked_add_def)
qed

lemma push_devices_regions:
  "list_all (\<lambda>d. dev_fits (dev_size d) d) ds \<Longrightarrow>
   foldR (push_device T perm) ds = foldR (push_region T) (map (\<lambda>d. region_of (dev_size d) perm d) ds)"
  by (induction ds) (rule ext, simp add: push_device_region)+

lemma if_some_regions:
  "list_all (\<lambda>d. f d = push_region T (g d)) (opt_list x) \<Longrightarrow>
   if_some x f = foldR (push_region T) (map g (opt_list x))"
  by (cases x) (auto simp: if_some_def opt_list_def fun_eq_iff bindR_def split: sum.splits)

lemma bindR_Inr_right [simp]: "bindR r Inr = r"
  by (cases r) simp_all

lemma if_some_devices:
  "list_all (\<lambda>d. dev_fits (dev_size d) d) (opt_list x) \<Longrightarrow>
   if_some x (push_device T perm) = foldR (push_region T) (map (\<lambda>d. region_of (dev_size d) perm d) (opt_list x))"
  by (rule if_some_regions) (auto simp: list_all_iff push_device_region)

lemma if_some_windows:
  "list_all (dev_fits sz) (opt_list x) \<Longrightarrow>
   if_some x (push_window T sz perm) = foldR (push_region T) (map (region_of sz perm) (opt_list x))"
  by (rule if_some_regions) (auto simp: list_all_iff push_window_region)

lemma if_some_test:
  assumes "list_all (\<lambda>d. unat (dev_size d) + 0x1000 < 2 ^ 64 \<and> dev_fits (dev_size d + 0x1000) d) (opt_list x)"
  shows "if_some x (\<lambda>d (self, s).
      bindR (checked_add (base_address d) (dev_size d)) (\<lambda>e.
      bindR (checked_add e 0x1000) (\<lambda>stop. push_identity T (base_address d) stop perm self s))) =
    foldR (push_region T) (map (\<lambda>d. region_of (dev_size d + 0x1000) perm d) (opt_list x))"
proof (rule if_some_regions, rule list.pred_mono_strong [OF assms])
  fix d
  assume "unat (dev_size d) + 0x1000 < 2 ^ 64 \<and> dev_fits (dev_size d + 0x1000) d"
  then have *: "unat (dev_size d + 0x1000) = unat (dev_size d) + 4096"
    "unat (base_address d) + unat (dev_size d + 0x1000) < 2 ^ 64"
    by (auto simp: dev_fits_def unat_add_no_wrap)
  then have **: "unat (base_address d + dev_size d) = unat (base_address d) + unat (dev_size d)"
    by (simp add: unat_add_no_wrap)
  show "(\<lambda>(self, s). bindR (checked_add (base_address d) (dev_size d)) (\<lambda>e.
      bindR (checked_add e 0x1000) (\<lambda>stop. push_identity T (base_address d) stop perm self s))) =
      push_region T (region_of (dev_size d + 0x1000) perm d)"
    using * ** by (auto simp: push_region_def region_of_def fun_eq_iff checked_add_def add.assoc)
qed

lemma new_guest_without_load_regions:
  assumes "guest_ok m"
  shows "new_guest_without_load G st m s =
    bindR (new_guest_bare G s) (\<lambda>gs.
    bindR (push_region G (memory_region m) gs) (\<lambda>(gpm, s).
    bindR (map_trampoline G st gpm s) (foldR (push_region G) (device_regions m))))"
proof -
  let ?off = "physical_memory_offset m" and ?sz = "physical_memory_size m"
  have o: "0x200000 \<le> ?off" "unat ?off + unat ?sz < 2 ^ 39" using assms by (simp_all add: guest_ok_def)
  have m: "region_ok (memory_region m)" using guest_regions_ok [OF assms] by (simp add: guest_regions_def)
  then have "?off - 0x200000 < ?off + ?sz" "unat (?off + ?sz) < 2 ^ 39"
    by (simp_all add: memory_region_def region_ok_def)
  then have mem: "bindR (checked_sub ?off 0x200000) (\<lambda>start.
             bindR (checked_add ?off ?sz) (\<lambda>stop.
             bindR (MapArea_new (VirtAddr start) (VirtAddr stop) (Some (PhysAddr start)) (Some (PhysAddr stop))
                      Linear perm_rwux) (\<lambda>area.
             push G gpm area None t))) = push_region G (memory_region m) (gpm, t)" for gpm t
    using o by (simp add: push_region_def memory_region_def push_identity_def from_small word_less_nat_alt
        checked_sub_def checked_add_def)
  have dv: "list_all (\<lambda>d. dev_fits (dev_size d) d) (virtio m)"
    "list_all (\<lambda>d. dev_fits (dev_size d) d) (opt_list (uart m))"
    "list_all (\<lambda>d. dev_fits (dev_size d) d) (opt_list (clint m))"
    "list_all (\<lambda>d. unat (dev_size d) + 0x1000 < 2 ^ 64 \<and> dev_fits (dev_size d + 0x1000) d) (opt_list (test_finisher_address m))"
    "list_all (dev_fits 0x200000) (opt_list (plic m))" "list_all (dev_fits 0x200000) (opt_list (pci m))"
    using assms by (simp_all add: guest_ok_def)
  show ?thesis
    unfolding new_guest_without_load_def Let_def perm_rwux_def [symmetric] perm_rwu_def [symmetric] mem
      push_devices_regions [OF dv(1)] if_some_devices [OF dv(2)] if_some_devices [OF dv(3)]
      if_some_test [OF dv(4)] if_some_windows [OF dv(5)] if_some_windows [OF dv(6)]
    by (simp add: device_regions_def foldR_append bindR_assoc case_prod_unfold cong: bindR_cong)
qed

section \<open>The translations of the guest\<close>

lemma new_guest_bare_returned:
  assumes "alloc_ok base s" "new_guest_bare Sv39 s = Inr (gpm, s')"
  shows "ms_adds base (sv39_inv base) sv39_view sv39_tables {} gpm s' gpm s'"
    and "sv39_view (page_table gpm) s' = Map.empty" "grown base {} (sv39_tables (page_table gpm)) s s'"
    and "sv39_inv base (page_table gpm) s'"
proof -
  obtain pt where pt: "new_guest s = Inr (pt, s')" "gpm = \<lparr>page_table = pt, areas = []\<rparr>"
    using assms(2) by (auto simp: new_guest_bare_def)
  note r = new_guest_returned [OF assms(1) pt(1)]
  show "sv39_inv base (page_table gpm) s'" "sv39_view (page_table gpm) s' = Map.empty"
    "grown base {} (sv39_tables (page_table gpm)) s s'"
    using r pt(2) by simp_all
  then show "ms_adds base (sv39_inv base) sv39_view sv39_tables {} gpm s' gpm s'"
    using grown_refl [of base s'] sv39_inv_parts [of base "page_table gpm" s'] by (simp add: ms_adds_def)
qed

lemma guest_space:
  assumes ok: "alloc_ok base s" and m: "guest_ok m"
    and ret: "new_guest_without_load Sv39 st m s = Inr (gpm, s')"
  shows "Map.graph (sv39_view (page_table gpm) s') =
      insert (trampoline_pair st) (\<Union> (region_pairs ` set (guest_regions m)))"
    and "sv39_inv base (page_table gpm) s'" "grown base {} (sv39_tables (page_table gpm)) s s'"
proof -
  obtain g0 s0 g1 s1 g2 s2 where r: "new_guest_bare Sv39 s = Inr (g0, s0)"
    "push_region Sv39 (memory_region m) (g0, s0) = Inr (g1, s1)"
    "map_trampoline Sv39 st g1 s1 = Inr (g2, s2)"
    "foldR (push_region Sv39) (device_regions m) (g2, s2) = Inr (gpm, s')"
    using ret unfolding new_guest_without_load_regions [OF m] by auto
  note b = new_guest_bare_returned [OF ok r(1)]
  have rok: "region_ok (memory_region m)" "\<forall>r \<in> set (device_regions m). region_ok r"
    using guest_regions_ok [OF m] by (simp_all add: guest_regions_def)
  note a1 = sv39_area.push_region_adds [OF rok(1) b(4) r(2)]
  then have i1: "sv39_inv base (page_table g1) s1" by (simp add: ms_adds_def)
  note a2 = sv39_area.map_trampoline_adds [OF i1 r(3)]
  then have i2: "sv39_inv base (page_table g2) s2" by (simp add: ms_adds_def)
  note a3 = sv39_area.push_regions_adds [OF rok(2) i2 r(4)]
  note all = ms_adds_trans [OF ms_adds_trans [OF a1 a2] a3]
  show "Map.graph (sv39_view (page_table gpm) s') =
      insert (trampoline_pair st) (\<Union> (region_pairs ` set (guest_regions m)))"
    using all b(2) by (auto simp: ms_adds_def guest_regions_def)
  show "sv39_inv base (page_table gpm) s'" using all by (simp add: ms_adds_def)
  show "grown base {} (sv39_tables (page_table gpm)) s s'"
    using grown_trans [OF b(3)] all by (simp add: ms_adds_def)
qed

lemma view_graph: "f v = Some e \<longleftrightarrow> (v, e) \<in> Map.graph f"
  by (simp add: Map.graph_def)

lemma perm_user: "bit perm_rwu 4" "bit perm_rwux 4" "\<not> bit (PTEFlags_R OR PTEFlags_X OR PTEFlags_V) 4"
  by (simp_all add: perm_rwu_def perm_rwux_def MapPermission_R_def MapPermission_W_def MapPermission_X_def
      MapPermission_U_def PTEFlags_defs)

lemma region_pairs_iff:
  assumes "region_ok (start, stop, perm)"
  shows "(v, e) \<in> region_pairs (start, stop, perm) \<longleftrightarrow>
    unat start div 4096 \<le> unat (vpn_0 v) \<and> unat (vpn_0 v) < (unat stop + 4095) div 4096 \<and>
    e = PageTableEntry_new (PhysPageNum (vpn_0 v)) (perm OR PTEFlags_V)"
  using assms identity_pairs_iff [of start stop v e perm] by (simp add: region_pairs_def region_ok_def)

lemma region_pairs_small:
  assumes "region_ok r" "(v, e) \<in> region_pairs r"
  shows "unat (vpn_0 v) < 2 ^ 27"
proof -
  obtain start stop perm where r: "r = (start, stop, perm)" by (cases r)
  with assms have "unat (vpn_0 v) < (unat stop + 4095) div 4096" "unat stop < 2 ^ 39"
    by (simp_all add: region_pairs_iff region_ok_def)
  with page_end_bound [of stop] show ?thesis by simp
qed

text \<open>A user page of the guest is a page of one of its regions, at its own address.\<close>

lemma guest_pair_user:
  assumes "guest_ok m" "(v, e) \<in> insert (trampoline_pair st) (\<Union> (region_pairs ` set (guest_regions m)))"
    "is_user e = Inr True"
  obtains r perm where "r \<in> set (guest_regions m)" "(v, e) \<in> region_pairs r" "unat (vpn_0 v) \<in> region_pages r"
    "e = PageTableEntry_new (PhysPageNum (vpn_0 v)) perm" "unat (vpn_0 v) < 2 ^ 27"
proof -
  have "(v, e) \<noteq> trampoline_pair st"
    using assms(3) perm_user(3) by (auto simp: trampoline_pair_def simp del: bit_or_iff)
  then obtain r where r: "r \<in> set (guest_regions m)" "(v, e) \<in> region_pairs r" using assms(2) by auto
  have ok: "region_ok r" using guest_regions_ok [OF assms(1) r(1)] .
  obtain start stop perm where e: "r = (start, stop, perm)" by (cases r)
  have "e = PageTableEntry_new (PhysPageNum (vpn_0 v)) (perm OR PTEFlags_V)"
    using r(2) ok unfolding e by (simp add: region_pairs_iff)
  then show thesis using that [OF r region_pairs_pages [OF r(2)]] region_pairs_small [OF ok r(2)] by blast
qed

lemma guest_user_page:
  assumes "alloc_ok base s" "guest_ok m" "new_guest_without_load Sv39 st m s = Inr (gpm, s')"
    "sv39_view (page_table gpm) s' v = Some e" "is_user e = Inr True"
  obtains r where "r \<in> set (guest_regions m)" "(v, e) \<in> region_pairs r"
    "unat (vpn_0 v) \<in> region_pages r" "pte_ppn e = PhysPageNum (vpn_0 v)"
proof -
  have "(v, e) \<in> insert (trampoline_pair st) (\<Union> (region_pairs ` set (guest_regions m)))"
    using assms(4) guest_space(1) [OF assms(1-3)] by (simp add: view_graph)
  from guest_pair_user [OF assms(2) this assms(5)] obtain r perm where r: "r \<in> set (guest_regions m)"
    "(v, e) \<in> region_pairs r" "unat (vpn_0 v) \<in> region_pages r"
    "e = PageTableEntry_new (PhysPageNum (vpn_0 v)) perm" "unat (vpn_0 v) < 2 ^ 27" .
  have "pte_ppn e = PhysPageNum (vpn_0 v)" using r(4,5) by (simp add: pte_ppn_new ppn_ok_def)
  then show thesis using that r by blast
qed

section \<open>It returns\<close>

lemma new_guest_bare_fresh:
  assumes f: "fresh c e s" and room: "unat c + 7 \<le> unat e"
  shows "\<exists>gpm s'. new_guest_bare Sv39 s = Inr (gpm, s') \<and> unat e \<le> unat c + 7 + free_frames s'"
proof -
  obtain pt s0 where n: "new_guest s = Inr (pt, s0)" "unat (ppn_0 (root_ppn pt)) \<le> unat c + 3"
    "fresh (ppn_0 (root_ppn pt) + 4) e s0"
    using new_guest_fresh [OF f room] by blast
  have "unat (ppn_0 (root_ppn pt) + 4) = unat (ppn_0 (root_ppn pt)) + 4"
    using n(2) room unat_lt_64 [of e] by (subst unat_add_no_wrap) (simp_all del: unat_lt_64)
  then show ?thesis using n fresh_free [OF n(3)] by (simp add: new_guest_bare_def)
qed

text \<open>The pages that are mapped once the memory and the trampoline are there.\<close>

lemma mapped_pages:
  assumes "ms_adds base (sv39_inv base) sv39_view sv39_tables E ms s ms' s'" "sv39_view (page_table ms) s = Map.empty"
    "sv39_view (page_table ms') s' v = Some x"
  shows "(v, x) \<in> E"
  using assms by (auto simp: ms_adds_def view_graph)

definition below_trampoline :: "region \<Rightarrow> bool" where
  "below_trampoline = (\<lambda>(a, b, _). first_page a + page_count a b \<le> 0x7ffffff)"

lemma below_trampoline_pages: "below_trampoline r \<Longrightarrow> 0x7ffffff \<notin> region_pages r"
  by (auto simp: below_trampoline_def region_pages_def split: prod.splits)

lemma guest_space_total:
  assumes f: "fresh c e s" and m: "guest_ok m" and al: "unat st mod 4096 = 0"
    and dis: "disjoint_regions (guest_regions m)" and tramp: "list_all below_trampoline (guest_regions m)"
    and room: "unat c + 9 + (\<Sum>r\<leftarrow>guest_regions m. region_cost r) \<le> unat e"
  shows "\<exists>gpm s'. new_guest_without_load Sv39 st m s = Inr (gpm, s') \<and>
    unat e \<le> unat c + 9 + (\<Sum>r\<leftarrow>guest_regions m. region_cost r) + free_frames s'"
proof -
  let ?M = "memory_region m" and ?D = "device_regions m" and ?t = "VirtPageNum 0x7ffffff"
  have ok: "alloc_ok 0 s" by (rule fresh_alloc_ok [OF f]) (use room in simp_all)
  obtain g0 s0 where b0: "new_guest_bare Sv39 s = Inr (g0, s0)" "unat e \<le> unat c + 7 + free_frames s0"
    using new_guest_bare_fresh [OF f] room by auto
  note b = new_guest_bare_returned [OF ok b0(1)]
  have rok: "region_ok ?M" "\<forall>r \<in> set ?D. region_ok r"
    using guest_regions_ok [OF m] by (simp_all add: guest_regions_def)
  have cost: "2 + region_cost ?M + (\<Sum>r\<leftarrow>?D. region_cost r) \<le> free_frames s0"
    using room b0(2) by (simp add: guest_regions_def)
  have tr: "0x7ffffff \<notin> region_pages r" if "r \<in> set (guest_regions m)" for r
    using tramp that below_trampoline_pages by (auto simp: list_all_iff)
  obtain g1 s1 where r1: "push_region Sv39 ?M (g0, s0) = Inr (g1, s1)" "free_frames s0 \<le> free_frames s1 + region_cost ?M"
    using sv39_area.push_region_progress [OF rok(1) b(4)] cost b(2) by auto
  note a1 = sv39_area.push_region_adds [OF rok(1) b(4) r1(1)]
  have i1: "sv39_inv 0 (page_table g1) s1" using a1 by (simp add: ms_adds_def)
  have "sv39_view (page_table g1) s1 ?t = None"
    using mapped_pages [OF a1 b(2), of ?t] region_pairs_pages [of ?t _ ?M] tr [of ?M]
    by (cases "sv39_view (page_table g1) s1 ?t") (auto simp: guest_regions_def)
  then obtain g2 s2 where r2: "map_trampoline Sv39 st g1 s1 = Inr (g2, s2)" "free_frames s1 \<le> free_frames s2 + 2"
    using sv39_area.map_trampoline_progress [OF i1 al] r1(2) cost by auto
  note a2 = ms_adds_trans [OF a1 sv39_area.map_trampoline_adds [OF i1 r2(1)]]
  have i2: "sv39_inv 0 (page_table g2) s2" using a2 by (simp add: ms_adds_def)
  have un: "sv39_view (page_table g2) s2 v = None" if r: "r \<in> set ?D" "unat (vpn_0 v) \<in> region_pages r" for r v
  proof (rule ccontr)
    assume "sv39_view (page_table g2) s2 v \<noteq> None"
    then obtain x where "(v, x) \<in> region_pairs ?M \<or> (v, x) = trampoline_pair st"
      using mapped_pages [OF a2 b(2), of v] by auto
    then have "unat (vpn_0 v) \<in> region_pages ?M \<or> unat (vpn_0 v) = 0x7ffffff"
      using region_pairs_pages [of v x ?M] by (auto simp: trampoline_pair_def)
    moreover have "regions_apart ?M r" using dis r(1) by (simp add: guest_regions_def list_all_iff)
    ultimately show False
      using r regions_apart_pages [of ?M r] tr [of r] by (auto simp: guest_regions_def)
  qed
  have "\<exists>ms' s'. foldR (push_region Sv39) ?D (g2, s2) = Inr (ms', s') \<and>
      free_frames s2 \<le> free_frames s' + (\<Sum>r\<leftarrow>?D. region_cost r)"
    by (rule sv39_area.push_regions_progress [OF rok(2) _ i2 _ un])
       (use dis r1(2) r2(2) cost in \<open>simp_all add: guest_regions_def\<close>)
  then obtain g3 s3 where r3: "foldR (push_region Sv39) ?D (g2, s2) = Inr (g3, s3)"
    "free_frames s2 \<le> free_frames s3 + (\<Sum>r\<leftarrow>?D. region_cost r)" by blast
  have "new_guest_without_load Sv39 st m s = Inr (g3, s3)"
    unfolding new_guest_without_load_regions [OF m] using b0(1) r1(1) r2(1) r3(1) by simp
  then show ?thesis using b0(2) r1(2) r2(2) r3(2) by (auto simp: guest_regions_def)
qed

section \<open>Empty areas\<close>

text \<open>
  Once the virtual page number is at or past its end, the loop cannot leave: it
  only compares after a step, and the checked step never comes back.
\<close>

lemma map_loop_past_end:
  "unat (vpn_0 ve) \<le> unat (vpn_0 v) \<Longrightarrow> \<exists>err. map_loop T pe ve p v area pt s = Inl err"
proof (induction T pe ve p v area pt s rule: map_loop.induct)
  case (1 T pe ve p v area pt s)
  show ?case
  proof (cases "map_one T area pt v (Some p) s")
    case (Inl err)
    then show ?thesis by (subst map_loop.simps) simp
  next
    case (Inr x)
    obtain area' pt' s' where x: "x = (area', pt', s')" by (cases x)
    show ?thesis
    proof (cases "PhysPageNum_step p")
      case (Inl err)
      then show ?thesis using Inr x by (subst map_loop.simps) simp
    next
      case p: (Inr p')
      show ?thesis
      proof (cases "VirtPageNum_step v")
        case (Inl err)
        then show ?thesis using Inr x p by (subst map_loop.simps) simp
      next
        case v: (Inr v')
        then have "unat (vpn_0 v') = unat (vpn_0 v) + 1"
          by (auto simp: VirtPageNum_step_eq unat_add_no_wrap split: if_splits)
        then have lt: "unat (vpn_0 ve) < unat (vpn_0 v')" using 1(2) by simp
        then have ne: "v' \<noteq> ve" by auto
        then have "\<exists>err. map_loop T pe ve p' v' area' pt' s' = Inl err"
          using 1(1) [OF Inr x [symmetric] refl p v] lt by simp
        then show ?thesis using Inr x p v ne by (subst map_loop.simps) simp
      qed
    qed
  qed
qed

lemma push_identity_empty:
  assumes "unat start < 2 ^ 39" "unat start mod 4096 = 0"
  shows "\<exists>err. push_identity T start start perm ms s = Inl err"
proof (cases "start = 0")
  case True
  then show ?thesis
    by (simp add: push_identity_def MapArea_new_def VirtAddr_from_def VirtAddr_ceil_def checked_sub_def)
next
  case False
  then have pos: "1 \<le> unat start" by (simp add: Suc_le_eq unat_gt_0)
  have b: "unat start \<le> 2 ^ 64 - 4096" using assms(1) by simp
  let ?l = "unat start div 4096"
  obtain k where "unat start = 4096 * k" using assms(2) by (auto simp: mod_eq_0_iff_dvd elim: dvdE)
  then have c: "(unat start + 4095) div 4096 = ?l" by simp
  have f: "word_of_nat ?l = start div 0x1000"
    using word_of_nat_unat [of "start div 0x1000"] by (simp only: unat_div) simp
  define area where "area = linear_area ?l ?l 0 perm"
  have new: "MapArea_new (VirtAddr_from start) (VirtAddr_from start) (Some (PhysAddr_from start))
      (Some (PhysAddr_from start)) Linear perm = Inr area"
    using assms(1) pos b c
    by (simp add: MapArea_new_def from_small VirtAddr_ceil_value PhysAddr_ceil_value VirtAddr_floor_def
        PhysAddr_floor_def SimpleRange_new_def area_def linear_area_def vp_def pp_def f Let_def)
  have "MapArea_map T area (page_table ms) s = map_loop T (pp ?l) (vp ?l) (pp ?l) (vp ?l) area (page_table ms) s"
    by (simp add: MapArea_map_def area_def linear_area_def get_start_def get_end_def checked_sub_def Let_def)
  then show ?thesis
    using map_loop_past_end [of "vp ?l" "vp ?l" T "pp ?l" "pp ?l" area "page_table ms" s]
    by (auto simp: push_identity_def new push_def)
qed

section \<open>Properties\<close>

text \<open>
  A machine and a boot state for the witnesses: the devices of the QEMU \<open>virt\<close>
  board, guest memory from \<open>0x90000000\<close> to \<open>0x98000000\<close>, and an allocator from
  \<open>0x80600000\<close> to \<open>MEMORY_END\<close>.
\<close>

definition virt_guest :: MachineMeta where
  "virt_guest = \<lparr>physical_memory_offset = 0x90200000, physical_memory_size = 0x7e00000,
     virtio = [\<lparr>base_address = 0x10001000, dev_size = 0x1000\<rparr>, \<lparr>base_address = 0x10002000, dev_size = 0x1000\<rparr>],
     test_finisher_address = Some \<lparr>base_address = 0x100000, dev_size = 0x1000\<rparr>,
     uart = Some \<lparr>base_address = 0x10000000, dev_size = 0x100\<rparr>,
     clint = Some \<lparr>base_address = 0x2000000, dev_size = 0x10000\<rparr>,
     plic = Some \<lparr>base_address = 0xc000000, dev_size = 0x600000\<rparr>,
     pci = Some \<lparr>base_address = 0x30000000, dev_size = 0x10000000\<rparr>\<rparr>"

definition boot_world :: world where
  "boot_world = \<lparr>mem = (\<lambda>_. 0),
     FRAME_ALLOCATOR = Some \<lparr>fa_current = 0x80600, fa_end = 0x88000, fa_recycled = []\<rparr>\<rparr>"

lemma boot_world_facts:
  "fresh 0x80600 0x88000 boot_world" "alloc_ok 0x80600 boot_world" "frames_end boot_world = Some 0x88000"
  by (simp_all add: fresh_def boot_world_def alloc_ok_def fa_inv_def frames_end_def)

lemmas virt_guest_eval = virt_guest_def guest_regions_def memory_region_def device_regions_def region_of_def opt_list_def

lemma virt_guest_ok: "guest_ok virt_guest"
  by (simp add: guest_ok_def virt_guest_eval dev_fits_def)

lemma virt_guest_disjoint:
  "disjoint_regions (guest_regions virt_guest)" "list_all below_trampoline (guest_regions virt_guest)"
  by (simp_all add: virt_guest_eval regions_apart_def first_page_def page_count_def below_trampoline_def)

lemma virt_guest_cost: "(\<Sum>r\<leftarrow>guest_regions virt_guest. region_cost r) = 79"
  by (simp add: virt_guest_eval region_cost_def table_cost_def first_page_def page_count_def)

lemma virt_guest_built:
  "\<exists>gpm s'. new_guest_without_load Sv39 0x80201000 virt_guest boot_world = Inr (gpm, s')"
  using guest_space_total [OF boot_world_facts(1) virt_guest_ok _ virt_guest_disjoint, of "0x80201000"]
  by (auto simp: virt_guest_cost)

text \<open>
  C14. The guest's address space is built: when the guest's regions are not empty, lie
  below the trampoline page and do not overlap, and the allocator, with nothing
  recycled as at boot, has the frames for the root and the tables, then
  \<open>new_guest_without_load\<close> returns. The number of frames asked for is nine (three
  skipped for the alignment of the root, four for the root, two for the trampoline)
  plus, for every region, two and one for every 2 MiB and every 1 GiB boundary it
  crosses.
\<close>

theorem guest_memory_is_built:
  assumes "fresh c e s" "guest_ok m" "unat strampoline mod 4096 = 0"
    and "disjoint_regions (guest_regions m)" "list_all below_trampoline (guest_regions m)"
    and "unat c + 9 + (\<Sum>r\<leftarrow>guest_regions m. region_cost r) \<le> unat e"
  shows "\<exists>gpm s'. new_guest_without_load Sv39 strampoline m s = Inr (gpm, s')"
  using guest_space_total [OF assms] by blast

theorem guest_memory_is_built_witness:
  "\<exists>gpm s'. new_guest_without_load Sv39 0x80201000 virt_guest boot_world = Inr (gpm, s')"
  by (rule guest_memory_is_built [OF boot_world_facts(1) virt_guest_ok _ virt_guest_disjoint])
     (simp_all add: virt_guest_cost)

text \<open>
  C13. The guest's address space is exact: when \<open>new_guest_without_load\<close> returns, the
  pages that the second translation stage maps are the trampoline and the pages of
  the guest's memory and devices, each at its own address with the permissions of
  its region, and no other page. The description fits (\<open>guest_ok\<close>): memory starts at
  2 MiB or above, every device has an extent, and all end below \<open>2 ^ 39\<close>.
\<close>

theorem guest_memory_exact:
  assumes "alloc_ok base s" "guest_ok m" "new_guest_without_load Sv39 strampoline m s = Inr (gpm, s')"
  shows "sv39_view (page_table gpm) s' v = Some e \<longleftrightarrow>
    (v, e) = trampoline_pair strampoline \<or>
    list_ex (\<lambda>(start, stop, perm).
       unat start div 4096 \<le> unat (vpn_0 v) \<and> unat (vpn_0 v) < (unat stop + 4095) div 4096 \<and>
       e = PageTableEntry_new (PhysPageNum (vpn_0 v)) (perm OR PTEFlags_V)) (guest_regions m)"
proof -
  have "(v, e) \<in> region_pairs r \<longleftrightarrow> (case r of (start, stop, perm) \<Rightarrow>
       unat start div 4096 \<le> unat (vpn_0 v) \<and> unat (vpn_0 v) < (unat stop + 4095) div 4096 \<and>
       e = PageTableEntry_new (PhysPageNum (vpn_0 v)) (perm OR PTEFlags_V))"
    if "r \<in> set (guest_regions m)" for r
    using guest_regions_ok [OF assms(2) that] region_pairs_iff by (cases r) auto
  then show ?thesis using guest_space(1) [OF assms] by (auto simp: view_graph list_ex_iff)
qed

theorem guest_memory_exact_witness:
  "\<exists>gpm s'. new_guest_without_load Sv39 0x80201000 virt_guest boot_world = Inr (gpm, s') \<and>
     sv39_view (page_table gpm) s' (VirtPageNum 0x90200) =
       Some (PageTableEntry_new (PhysPageNum 0x90200) (perm_rwux OR PTEFlags_V)) \<and>
     sv39_view (page_table gpm) s' (VirtPageNum 0x80600) = None"
proof -
  obtain gpm s' where r: "new_guest_without_load Sv39 0x80201000 virt_guest boot_world = Inr (gpm, s')"
    using virt_guest_built by blast
  note ex = guest_memory_exact [OF boot_world_facts(2) virt_guest_ok r]
  have "sv39_view (page_table gpm) s' (VirtPageNum 0x90200) =
       Some (PageTableEntry_new (PhysPageNum 0x90200) (perm_rwux OR PTEFlags_V))"
    unfolding ex by (simp add: virt_guest_eval)
  moreover have "sv39_view (page_table gpm) s' (VirtPageNum 0x80600) \<noteq> Some e" for e
    unfolding ex by (simp add: virt_guest_eval trampoline_pair_def)
  ultimately show ?thesis using r by (metis not_Some_eq)
qed

text \<open>
  C3. Isolation: no page that the guest can access in user mode of the second stage is
  a frame that the allocator has handed out, so that the guest can reach neither its
  own page tables nor those of the hypervisor, provided the regions of the guest's
  description lie outside the memory that the allocator manages.
\<close>

theorem guest_memory_isolated:
  assumes "alloc_ok base s" "guest_ok m" "new_guest_without_load Sv39 strampoline m s = Inr (gpm, s')"
    and "frames_end s = Some e"
    and "list_all (\<lambda>(start, stop, perm). first_page start + page_count start stop \<le> base \<or>
           unat e \<le> first_page start) (guest_regions m)"
    and "sv39_view (page_table gpm) s' v = Some pte" "is_user pte = Inr True"
  shows "pte_ppn pte \<notin> live base s' \<and> sv39_tables (page_table gpm) \<subseteq> live base s'"
proof -
  obtain r where r: "r \<in> set (guest_regions m)" "unat (vpn_0 v) \<in> region_pages r"
    "pte_ppn pte = PhysPageNum (vpn_0 v)"
    using guest_user_page [OF assms(1-3,6,7)] by metis
  note g = guest_space(2,3) [OF assms(1-3)]
  have "frames_end s' = Some e" using grownD(8) [OF g(2)] assms(4) by simp
  then have "base \<le> unat (ppn_0 p) \<and> ppn_0 p < e" if "p \<in> live base s'" for p
    using live_below_end [OF grownD(1) [OF g(2)]] that by blast
  moreover have "unat (vpn_0 v) < base \<or> unat e \<le> unat (vpn_0 v)"
    using assms(5) r(1,2) by (cases r) (auto simp: list_all_iff region_pages_def)
  ultimately have "pte_ppn pte \<notin> live base s'"
    by (metis PhysPageNum.sel leD r(3) word_less_nat_alt)
  then show ?thesis using sv39_inv_parts(2) [OF g(1)] by simp
qed

theorem guest_memory_isolated_witness:
  "\<exists>gpm s' pte. new_guest_without_load Sv39 0x80201000 virt_guest boot_world = Inr (gpm, s') \<and>
     sv39_view (page_table gpm) s' (VirtPageNum 0x90200) = Some pte \<and> pte_ppn pte \<notin> live 0x80600 s'"
proof -
  obtain gpm s' where r: "new_guest_without_load Sv39 0x80201000 virt_guest boot_world = Inr (gpm, s')"
    using virt_guest_built by blast
  let ?pte = "PageTableEntry_new (PhysPageNum 0x90200) (perm_rwux OR PTEFlags_V)"
  have "(VirtPageNum 0x90200, ?pte) \<in> region_pairs (memory_region virt_guest)"
    unfolding virt_guest_eval by (subst region_pairs_iff) (simp_all add: region_ok_def virt_guest_def)
  then have v: "sv39_view (page_table gpm) s' (VirtPageNum 0x90200) = Some ?pte"
    using guest_space(1) [OF boot_world_facts(2) virt_guest_ok r] by (simp add: view_graph guest_regions_def)
  have out: "list_all (\<lambda>(start, stop, perm). first_page start + page_count start stop \<le> 0x80600 \<or>
      unat (0x88000::usize) \<le> first_page start) (guest_regions virt_guest)"
    by (simp add: virt_guest_eval first_page_def page_count_def)
  have "is_user ?pte = Inr True" using perm_user(2) by (simp add: bit_or_iff)
  then show ?thesis
    using guest_memory_isolated [OF boot_world_facts(2) virt_guest_ok r boot_world_facts(3) out v] r v by blast
qed

text \<open>
  C37. \<open>GuestMemorySet::new_guest\<close> never returns for a machine with a PLIC at a page
  address: it pushes the PLIC as an area from its base address to its base address,
  and the loop of \<open>MapArea::map\<close> compares with the end only after it has stepped
  past it. It stops with a panic for every page table, image and memory size.
\<close>

theorem new_guest_with_plic_panics:
  assumes "plic m = Some d" "unat (base_address d) < 2 ^ 39" "unat (base_address d) mod 4096 = 0"
  shows "\<exists>err. GuestMemorySet_new_guest G elfs strampoline guest_data gpm_size m s = Inl err"
proof (cases "GuestMemorySet_new_guest G elfs strampoline guest_data gpm_size m s")
  case (Inr x)
  obtain ms u where "push_identity G (base_address d) (base_address d)
      (MapPermission_R OR MapPermission_W OR MapPermission_U) ms u = Inr x"
    using Inr assms(1) by (auto simp: GuestMemorySet_new_guest_def Let_def if_some_def)
  then show ?thesis
    using push_identity_empty [OF assms(2,3), of G "MapPermission_R OR MapPermission_W OR MapPermission_U" ms u] by simp
qed simp

theorem new_guest_with_plic_panics_witness:
  "\<exists>err. GuestMemorySet_new_guest Sv39
     \<lparr>elf_new = (\<lambda>_. Some ()), elf_magic = (\<lambda>_. [0x7f, 0x45, 0x4c, 0x46]), ph_count = (\<lambda>_. 0),
      program_header = (\<lambda>_ _. None), ph_is_load = (\<lambda>_. Some False), virtual_addr = (\<lambda>_. 0), mem_size = (\<lambda>_. 0),
      ph_offset = (\<lambda>_. 0), file_size = (\<lambda>_. 0), is_read = (\<lambda>_. False), is_write = (\<lambda>_. False),
      is_execute = (\<lambda>_::unit. False)\<rparr>
     0x80201000 [] 0x7e00000 virt_guest boot_world = Inl err"
  by (rule new_guest_with_plic_panics [of _ "\<lparr>base_address = 0xc000000, dev_size = 0x600000\<rparr>"])
     (simp_all add: virt_guest_def)

end
