(* ===== verification/Registers.thy ===== *)
theory Registers
  imports Constants
begin

text \<open>
  Module \<^verbatim>\<open>riscv_regs\<close> of \<^verbatim>\<open>src/constants.rs\<close>: the index of a general purpose
  register, its number, and the register file with its accessors. A cast
  \<^verbatim>\<open>index as usize\<close> of the sources is \<open>gpr_index\<close>.
\<close>

section \<open>Register indexes\<close>

datatype GprIndex =
  Zero | RA | SP | GP | TP | T0 | T1 | T2 | S0 | S1 | A0 | A1 | A2 | A3 | A4 | A5 | A6 | A7
  | S2 | S3 | S4 | S5 | S6 | S7 | S8 | S9 | S10 | S11 | T3 | T4 | T5 | T6

primrec gpr_as_u32 :: "GprIndex \<Rightarrow> u32" where
  "gpr_as_u32 Zero = 0"
| "gpr_as_u32 RA = 1"
| "gpr_as_u32 SP = 2"
| "gpr_as_u32 GP = 3"
| "gpr_as_u32 TP = 4"
| "gpr_as_u32 T0 = 5"
| "gpr_as_u32 T1 = 6"
| "gpr_as_u32 T2 = 7"
| "gpr_as_u32 S0 = 8"
| "gpr_as_u32 S1 = 9"
| "gpr_as_u32 A0 = 10"
| "gpr_as_u32 A1 = 11"
| "gpr_as_u32 A2 = 12"
| "gpr_as_u32 A3 = 13"
| "gpr_as_u32 A4 = 14"
| "gpr_as_u32 A5 = 15"
| "gpr_as_u32 A6 = 16"
| "gpr_as_u32 A7 = 17"
| "gpr_as_u32 S2 = 18"
| "gpr_as_u32 S3 = 19"
| "gpr_as_u32 S4 = 20"
| "gpr_as_u32 S5 = 21"
| "gpr_as_u32 S6 = 22"
| "gpr_as_u32 S7 = 23"
| "gpr_as_u32 S8 = 24"
| "gpr_as_u32 S9 = 25"
| "gpr_as_u32 S10 = 26"
| "gpr_as_u32 S11 = 27"
| "gpr_as_u32 T3 = 28"
| "gpr_as_u32 T4 = 29"
| "gpr_as_u32 T5 = 30"
| "gpr_as_u32 T6 = 31"

definition gpr_index :: "GprIndex \<Rightarrow> nat" where
  "gpr_index g = unat (gpr_as_u32 g)"

text \<open>The arms of the \<open>match\<close> on the raw number, and \<open>None\<close> for every other number.\<close>

definition gpr_arms :: "(u32 \<times> GprIndex) list" where
  "gpr_arms = [
     (0, Zero), (1, RA), (2, SP), (3, GP), (4, TP), (5, T0), (6, T1), (7, T2), (8, S0), (9,
     S1), (10, A0), (11, A1), (12, A2), (13, A3), (14, A4), (15, A5), (16, A6), (17, A7),
     (18, S2), (19, S3), (20, S4), (21, S5), (22, S6), (23, S7), (24, S8), (25, S9), (26,
     S10), (27, S11), (28, T3), (29, T4), (30, T5), (31, T6)]"

definition from_raw :: "u32 \<Rightarrow> GprIndex option" where
  "from_raw raw = map_of gpr_arms raw"

lemma gpr_index_less [simp]: "gpr_index g < 32"
  by (cases g) (simp_all add: gpr_index_def)

lemma gpr_index_simps [simp]:
  "gpr_index Zero = 0" "gpr_index A0 = 10" "gpr_index A1 = 11" "gpr_index A6 = 16" "gpr_index A7 = 17"
  by (simp_all add: gpr_index_def)

lemma gpr_arms_keys: "map fst gpr_arms = map word_of_nat [0..<32]"
  by (simp add: gpr_arms_def upt_rec)

lemma gpr_arms_agree: "list_all (\<lambda>(r, g). r = gpr_as_u32 g) gpr_arms"
  by (simp add: gpr_arms_def)

lemma from_raw_gpr_as_u32: "from_raw (gpr_as_u32 g) = Some g"
  by (cases g) (simp_all add: from_raw_def gpr_arms_def)

lemma from_raw_Some: "from_raw raw = Some g \<Longrightarrow> raw = gpr_as_u32 g"
  using gpr_arms_agree by (auto simp: from_raw_def list_all_iff dest!: map_of_SomeD)

lemma from_raw_None: "from_raw raw = None \<longleftrightarrow> 32 \<le> raw"
proof -
  have "from_raw raw = None \<longleftrightarrow> raw \<notin> set (map fst gpr_arms)"
    by (simp add: from_raw_def map_of_eq_None_iff)
  also have "\<dots> \<longleftrightarrow> raw \<notin> word_of_nat ` {0..<32}" by (simp only: gpr_arms_keys set_map set_upt)
  also have "\<dots> \<longleftrightarrow> 32 \<le> raw"
  proof -
    have "word_of_nat (unat raw) = raw"
      using unsigned_less [of raw] by (simp add: word_unat_eq_iff unsigned_of_nat take_bit_nat_eq_self)
    then have "raw \<in> word_of_nat ` {0..<32}" if "unat raw < 32"
      using that by (intro image_eqI [where x = "unat raw"]) simp_all
    moreover have "\<not> 32 \<le> raw" if "raw \<in> word_of_nat ` {0..<32}"
      using that by (auto simp: word_le_nat_alt unsigned_of_nat take_bit_nat_eq_self)
    moreover have "32 \<le> raw \<longleftrightarrow> \<not> unat raw < 32" by (simp add: word_le_nat_alt not_less)
    ultimately show ?thesis by blast
  qed
  finally show ?thesis .
qed

lemma gpr_index_inject: "gpr_index g = gpr_index h \<longleftrightarrow> g = h"
proof
  assume "gpr_index g = gpr_index h"
  then have "gpr_as_u32 g = gpr_as_u32 h" by (simp add: gpr_index_def word_unat_eq_iff)
  then have "Some g = Some h" by (metis from_raw_gpr_as_u32)
  then show "g = h" by (simp only: option.inject)
qed simp

section \<open>The register file\<close>

datatype GeneralPurposeRegisters = GeneralPurposeRegisters (gpr_0: "u64 list")

definition reg :: "GeneralPurposeRegisters \<Rightarrow> GprIndex \<Rightarrow> u64" where
  "reg self reg_index = gpr_0 self ! gpr_index reg_index"

definition set_reg :: "GeneralPurposeRegisters \<Rightarrow> GprIndex \<Rightarrow> u64 \<Rightarrow> GeneralPurposeRegisters" where
  "set_reg self reg_index val =
     (if reg_index = Zero then self
      else GeneralPurposeRegisters ((gpr_0 self)[gpr_index reg_index := val]))"

text \<open>\<open>a_regs\<close> borrows the slice \<^verbatim>\<open>A0..=A7\<close>; a write through \<open>a_regs_mut\<close> replaces an element of it.\<close>

definition a_regs :: "GeneralPurposeRegisters \<Rightarrow> u64 list" where
  "a_regs self = take (gpr_index A7 - gpr_index A0 + 1) (drop (gpr_index A0) (gpr_0 self))"

definition a_regs_mut :: "GeneralPurposeRegisters \<Rightarrow> nat \<Rightarrow> u64 \<Rightarrow> GeneralPurposeRegisters result" where
  "a_regs_mut self i val =
     (if i < gpr_index A7 - gpr_index A0 + 1
      then Inr (GeneralPurposeRegisters ((gpr_0 self)[gpr_index A0 + i := val]))
      else Inl IndexOutOfBounds)"

definition regs_ok :: "GeneralPurposeRegisters \<Rightarrow> bool" where
  "regs_ok r \<longleftrightarrow> length (gpr_0 r) = 32"

lemma set_reg_ok: "regs_ok r \<Longrightarrow> regs_ok (set_reg r g v)"
  by (simp add: regs_ok_def set_reg_def)

lemma reg_set_reg:
  assumes "regs_ok r"
  shows "reg (set_reg r g v) h = (if h = g \<and> g \<noteq> Zero then v else reg r h)"
  using assms by (simp add: reg_def set_reg_def regs_ok_def gpr_index_inject nth_list_update)

section \<open>Properties\<close>

text \<open>
  C30. \<open>from_raw\<close> inverts the numbering of the registers and accepts exactly the
  numbers below 32, and the register file behaves as a store with a register
  that reads as it was: \<open>reg\<close> after \<open>set_reg\<close> gives the value written, except
  that a write of register zero has no effect; \<open>a_regs\<close> is the slice of
  registers 10 to 17, so that what \<open>set_reg\<close> writes to \<open>A0\<close> shows in its first
  element.
\<close>

theorem register_file:
  assumes "regs_ok r"
  shows "(from_raw raw = Some g \<longleftrightarrow> raw = gpr_as_u32 g) \<and> (from_raw raw = None \<longleftrightarrow> 32 \<le> raw) \<and>
    reg (set_reg r g v) h = (if h = g \<and> g \<noteq> Zero then v else reg r h) \<and>
    a_regs (set_reg r A0 v) ! 0 = v \<and> length (a_regs r) = 8 \<and> (\<forall>i < 8. a_regs r ! i = gpr_0 r ! (10 + i))"
proof -
  have "a_regs (set_reg r A0 v) ! 0 = v" "length (a_regs r) = 8" "\<forall>i < 8. a_regs r ! i = gpr_0 r ! (10 + i)"
    using assms by (simp_all add: set_reg_def a_regs_def regs_ok_def)
  then show ?thesis
    using from_raw_Some from_raw_gpr_as_u32 from_raw_None reg_set_reg [OF assms, of g v h] by blast
qed

theorem register_file_witness:
  "regs_ok (GeneralPurposeRegisters (replicate 32 7)) \<and> from_raw 10 = Some A0 \<and> from_raw 32 = None \<and>
   reg (set_reg (GeneralPurposeRegisters (replicate 32 7)) A0 5) A0 = 5 \<and>
   reg (set_reg (GeneralPurposeRegisters (replicate 32 7)) A0 5) A1 = 7"
proof -
  let ?r = "GeneralPurposeRegisters (replicate 32 7)"
  have ok: "regs_ok ?r" by (simp add: regs_ok_def)
  have "from_raw 10 = Some A0" using register_file [OF ok, of 10 A0] by simp
  moreover have "from_raw 32 = None" using register_file [OF ok, of 32] by simp
  moreover have "reg ?r A1 = 7" by (simp add: reg_def gpr_index_def gpr_as_u32_def)
  ultimately show ?thesis
    using ok register_file [OF ok, of 10 A0 5 A0] register_file [OF ok, of 10 A0 5 A1] by simp
qed

end
