(* ===== verification/Hart.thy ===== *)
theory Hart
  imports Registers
begin

text \<open>
  The hart the hypervisor runs on, as far as the sources touch it: general
  purpose registers, the control and status registers by name, the program
  counter, the virtualization mode and the privilege mode, with the two
  transitions of the privileged architecture that the sources rely on (a trap to
  HS-mode and \<open>sret\<close>), and the instructions of the assembly files
  \<^verbatim>\<open>src/guest/trap.S\<close>, \<^verbatim>\<open>src/guest/guest.S\<close> and the \<open>asm!\<close> blocks.
\<close>

section \<open>Registers\<close>

datatype csr =
    Sstatus | Sie | Stvec | Sscratch | Scounteren | Sepc | Scause | Stval | Satp
  | Hstatus | Hedeleg | Hideleg | Hcounteren | Hvip | Htval | Htinst | Hgatp
  | Vsstatus | Vstvec | Vsepc | Vscause | Vsatp

record hart =
  gprs :: "usize list"
  csrs :: "csr \<Rightarrow> usize"
  pc :: usize
  virt :: bool   \<comment> \<open>virtualization mode V\<close>
  supervisor :: bool  \<comment> \<open>the (virtual) hart is in S-mode, otherwise in U-mode\<close>

definition hart_ok :: "hart \<Rightarrow> bool" where
  "hart_ok h \<longleftrightarrow> length (gprs h) = 32"

definition get_gpr :: "nat \<Rightarrow> hart \<Rightarrow> usize" where
  "get_gpr r h = (if r = 0 then 0 else gprs h ! r)"

definition set_gpr :: "nat \<Rightarrow> usize \<Rightarrow> hart \<Rightarrow> hart" where
  "set_gpr r v h = (if r = 0 then h else h\<lparr>gprs := (gprs h)[r := v]\<rparr>)"

definition write_csr :: "csr \<Rightarrow> usize \<Rightarrow> hart \<Rightarrow> hart" where
  "write_csr c v h = h\<lparr>csrs := (csrs h)(c := v)\<rparr>"

text \<open>\<open>csrs\<close> and \<open>csrc\<close>: set and clear the bits of a mask.\<close>

definition set_csr :: "csr \<Rightarrow> usize \<Rightarrow> hart \<Rightarrow> hart" where
  "set_csr c bits h = write_csr c (csrs h c OR bits) h"

definition clear_csr :: "csr \<Rightarrow> usize \<Rightarrow> hart \<Rightarrow> hart" where
  "clear_csr c bits h = write_csr c (csrs h c AND NOT bits) h"

lemma get_gpr_0 [simp]: "get_gpr 0 h = 0"
  by (simp add: get_gpr_def)

lemma get_set_gpr:
  "hart_ok h \<Longrightarrow> r < 32 \<Longrightarrow> get_gpr q (set_gpr r v h) = (if q = r \<and> r \<noteq> 0 then v else get_gpr q h)"
  by (auto simp: get_gpr_def set_gpr_def hart_ok_def nth_list_update)

lemma set_gpr_fields [simp]:
  "csrs (set_gpr r v h) = csrs h" "pc (set_gpr r v h) = pc h" "virt (set_gpr r v h) = virt h"
  "supervisor (set_gpr r v h) = supervisor h" "hart_ok (set_gpr r v h) = hart_ok h"
  by (simp_all add: set_gpr_def hart_ok_def)

lemma write_csr_fields [simp]:
  "gprs (write_csr c v h) = gprs h" "pc (write_csr c v h) = pc h" "virt (write_csr c v h) = virt h"
  "supervisor (write_csr c v h) = supervisor h" "get_gpr r (write_csr c v h) = get_gpr r h"
  "hart_ok (write_csr c v h) = hart_ok h" "csrs (write_csr c v h) = (csrs h)(c := v)"
  by (simp_all add: write_csr_def get_gpr_def hart_ok_def)

lemma set_csr_fields [simp]:
  "gprs (set_csr c v h) = gprs h" "pc (set_csr c v h) = pc h" "virt (set_csr c v h) = virt h"
  "supervisor (set_csr c v h) = supervisor h" "get_gpr r (set_csr c v h) = get_gpr r h"
  "hart_ok (set_csr c v h) = hart_ok h" "csrs (set_csr c v h) = (csrs h)(c := csrs h c OR v)"
  by (simp_all add: set_csr_def)

lemma clear_csr_fields [simp]:
  "gprs (clear_csr c v h) = gprs h" "pc (clear_csr c v h) = pc h" "virt (clear_csr c v h) = virt h"
  "supervisor (clear_csr c v h) = supervisor h" "get_gpr r (clear_csr c v h) = get_gpr r h"
  "hart_ok (clear_csr c v h) = hart_ok h"
  "csrs (clear_csr c v h) = (csrs h)(c := csrs h c AND NOT v)"
  by (simp_all add: clear_csr_def)

lemma pc_fields [simp]: "hart_ok (h\<lparr>pc := v\<rparr>) = hart_ok h" "get_gpr r (h\<lparr>pc := v\<rparr>) = get_gpr r h"
  by (simp_all add: get_gpr_def hart_ok_def)

text \<open>
  What a call of compiled code leaves in the registers \<open>rs\<close> is up to the compiler:
  each of them holds the value \<open>f\<close> gives it. A function keeps \<open>sp\<close> and \<open>s0\<close> to \<open>s11\<close> and
  may leave anything in \<open>ra\<close>, \<open>t0\<close> to \<open>t6\<close> and \<open>a0\<close> to \<open>a7\<close>; \<open>tp\<close> and \<open>gp\<close> are not
  allocatable and no compiled function writes them.
\<close>

definition clobber :: "nat list \<Rightarrow> (nat \<Rightarrow> usize) \<Rightarrow> hart \<Rightarrow> hart" where
  "clobber rs f h = h\<lparr>gprs := map (\<lambda>r. if r \<in> set rs then f r else gprs h ! r) [0..<32]\<rparr>"

definition caller_saved :: "nat list" where
  "caller_saved = [1, 5, 6, 7, 10, 11, 12, 13, 14, 15, 16, 17, 28, 29, 30, 31]"

lemma clobber_fields [simp]:
  "csrs (clobber rs f h) = csrs h" "pc (clobber rs f h) = pc h" "virt (clobber rs f h) = virt h"
  "supervisor (clobber rs f h) = supervisor h" "hart_ok (clobber rs f h)"
  by (simp_all add: clobber_def hart_ok_def)

lemma get_gpr_clobber:
  "q < 32 \<Longrightarrow> get_gpr q (clobber rs f h) = (if q \<in> set rs \<and> q \<noteq> 0 then f q else get_gpr q h)"
  by (auto simp: clobber_def get_gpr_def)

section \<open>Traps and \<open>sret\<close>\<close>

text \<open>
  The bits of \<open>sstatus\<close> (SIE 1, SPIE 5, SPP 8) and of \<open>hstatus\<close> (SPV 7) that a
  trap to HS-mode saves the previous mode in and \<open>sret\<close> takes it from.
\<close>

definition put_bit :: "nat \<Rightarrow> bool \<Rightarrow> usize \<Rightarrow> usize" where
  "put_bit n b w = (if b then set_bit n w else unset_bit n w)"

lemma bit_put_bit [simp]: "n < 64 \<Longrightarrow> bit (put_bit n b w) k \<longleftrightarrow> (if k = n then b else bit w k)"
  by (auto simp: put_bit_def bit_simps)

definition hw_trap :: "usize \<Rightarrow> usize \<Rightarrow> usize \<Rightarrow> usize \<Rightarrow> hart \<Rightarrow> hart" where
  "hw_trap cause tval gpa inst h =
     h\<lparr>csrs := (csrs h)(Scause := cause, Stval := tval, Htval := gpa, Htinst := inst, Sepc := pc h,
         Sstatus := put_bit 8 (supervisor h) (put_bit 5 (bit (csrs h Sstatus) 1) (put_bit 1 False (csrs h Sstatus))),
         Hstatus := put_bit 7 (virt h) (csrs h Hstatus)),
       pc := csrs h Stvec, virt := False, supervisor := True\<rparr>"

definition sret :: "hart \<Rightarrow> hart" where
  "sret h =
     h\<lparr>csrs := (csrs h)(
         Sstatus := put_bit 1 (bit (csrs h Sstatus) 5) (put_bit 5 True (put_bit 8 False (csrs h Sstatus))),
         Hstatus := put_bit 7 False (csrs h Hstatus)),
       pc := csrs h Sepc, virt := bit (csrs h Hstatus) 7, supervisor := bit (csrs h Sstatus) 8\<rparr>"

lemma sret_fields [simp]:
  "get_gpr r (sret h) = get_gpr r h" "hart_ok (sret h) = hart_ok h" "pc (sret h) = csrs h Sepc"
  "virt (sret h) = bit (csrs h Hstatus) 7" "supervisor (sret h) = bit (csrs h Sstatus) 8"
  "c \<noteq> Sstatus \<Longrightarrow> c \<noteq> Hstatus \<Longrightarrow> csrs (sret h) c = csrs h c"
  by (simp_all add: sret_def get_gpr_def hart_ok_def)

lemma hw_trap_fields [simp]:
  "get_gpr r (hw_trap cause tval gpa inst h) = get_gpr r h"
  "hart_ok (hw_trap cause tval gpa inst h) = hart_ok h"
  "pc (hw_trap cause tval gpa inst h) = csrs h Stvec" "\<not> virt (hw_trap cause tval gpa inst h)"
  "supervisor (hw_trap cause tval gpa inst h)"
  by (simp_all add: hw_trap_def get_gpr_def hart_ok_def)

section \<open>Assembly\<close>

text \<open>
  A load or store names its base register and a byte offset. The only memory
  that the assembly files access is one structure of machine words at a known
  address; an access outside of it is \<open>WildAccess\<close>.
\<close>

datatype instr =
    Sd nat nat nat       \<comment> \<open>\<open>sd rs, off(rb)\<close>\<close>
  | Ld nat nat nat       \<comment> \<open>\<open>ld rd, off(rb)\<close>\<close>
  | Csrr nat csr
  | Csrw csr nat
  | Csrrw nat csr nat
  | Mv nat nat
  | Li nat usize
  | Addi nat nat usize
  | Jr nat
  | Jalr nat
  | Ret
  | Sret
  | Fence_i

definition slot :: "usize \<Rightarrow> usize \<Rightarrow> nat \<Rightarrow> nat result" where
  "slot b a n =
     (if unat (a - b) mod 8 = 0 \<and> unat (a - b) div 8 < n then Inr (unat (a - b) div 8) else Inl WildAccess)"

fun exec1 :: "usize \<Rightarrow> instr \<Rightarrow> hart \<times> usize list \<Rightarrow> (hart \<times> usize list) result" where
  "exec1 b (Sd rs off rb) (h, w) =
     bindR (slot b (get_gpr rb h + word_of_nat off) (length w)) (\<lambda>k. Inr (h, w[k := get_gpr rs h]))"
| "exec1 b (Ld rd off rb) (h, w) =
     bindR (slot b (get_gpr rb h + word_of_nat off) (length w)) (\<lambda>k. Inr (set_gpr rd (w ! k) h, w))"
| "exec1 b (Csrr rd c) (h, w) = Inr (set_gpr rd (csrs h c) h, w)"
| "exec1 b (Csrw c rs) (h, w) = Inr (write_csr c (get_gpr rs h) h, w)"
| "exec1 b (Csrrw rd c rs) (h, w) = Inr (set_gpr rd (csrs h c) (write_csr c (get_gpr rs h) h), w)"
| "exec1 b (Mv rd rs) (h, w) = Inr (set_gpr rd (get_gpr rs h) h, w)"
| "exec1 b (Li rd v) (h, w) = Inr (set_gpr rd v h, w)"
| "exec1 b (Addi rd rs v) (h, w) = Inr (set_gpr rd (get_gpr rs h + v) h, w)"
| "exec1 b (Jr rs) (h, w) = Inr (h\<lparr>pc := get_gpr rs h\<rparr>, w)"
| "exec1 b (Jalr rs) (h, w) = Inr (h\<lparr>pc := get_gpr rs h\<rparr>, w)"
| "exec1 b Ret (h, w) = Inr (h\<lparr>pc := get_gpr 1 h\<rparr>, w)"
| "exec1 b Sret (h, w) = Inr (sret h, w)"
| "exec1 b Fence_i (h, w) = Inr (h, w)"

definition exec :: "usize \<Rightarrow> instr list \<Rightarrow> hart \<times> usize list \<Rightarrow> (hart \<times> usize list) result" where
  "exec b is s = foldR (exec1 b) is s"

lemma exec_Nil [simp]: "exec b [] s = Inr s"
  by (simp add: exec_def)

lemma exec_Cons [simp]: "exec b (i # is) s = bindR (exec1 b i s) (exec b is)"
  by (simp add: exec_def [abs_def])

lemma exec_append: "exec b (is @ js) s = bindR (exec b is s) (exec b js)"
  by (simp add: exec_def [abs_def] foldR_append)

lemma slot_reg [simp]:
  assumes "k < n" "n < 2 ^ 60"
  shows "slot b (b + 8 * word_of_nat k) n = Inr k"
proof -
  have "unat (word_of_nat (8 * k) :: usize) = 8 * k" using assms by (intro unat_word_of_nat_usize) simp
  then show ?thesis using assms by (simp add: slot_def)
qed

lemma slot_numeral [simp]:
  "slot b (b + numeral m) n =
     (if unat (numeral m :: usize) mod 8 = 0 \<and> unat (numeral m :: usize) div 8 < n
      then Inr (unat (numeral m :: usize) div 8) else Inl WildAccess)"
  by (simp add: slot_def)

text \<open>
  Saving and loading a list of registers, each in its own slot: what the macros
  \<open>SAVE_GP\<close> and \<open>LOAD_GP\<close> unroll to.
\<close>

definition save_regs :: "(nat \<Rightarrow> nat) \<Rightarrow> nat \<Rightarrow> nat list \<Rightarrow> instr list" where
  "save_regs f rb rs = map (\<lambda>r. Sd r (8 * f r) rb) rs"

definition load_regs :: "(nat \<Rightarrow> nat) \<Rightarrow> nat \<Rightarrow> nat list \<Rightarrow> instr list" where
  "load_regs f rb rs = map (\<lambda>r. Ld r (8 * f r) rb) rs"

lemma exec_save_regs:
  assumes "get_gpr rb h = b" "\<forall>r \<in> set rs. f r < length w" "inj_on f (set rs)" "length w < 2 ^ 60"
  shows "\<exists>w'. exec b (save_regs f rb rs) (h, w) = Inr (h, w') \<and> length w' = length w \<and>
    (\<forall>r \<in> set rs. w' ! f r = get_gpr r h) \<and> (\<forall>k. k \<notin> f ` set rs \<longrightarrow> w' ! k = w ! k)"
  using assms(2-)
proof (induction rs arbitrary: w)
  case Nil
  then show ?case by (simp add: save_regs_def)
next
  case (Cons r rs)
  let ?w = "w[f r := get_gpr r h]"
  have s: "exec1 b (Sd r (8 * f r) rb) (h, w) = Inr (h, ?w)" using Cons.prems assms(1) by simp
  obtain w' where w': "exec b (save_regs f rb rs) (h, ?w) = Inr (h, w')" "length w' = length w"
    "\<forall>r \<in> set rs. w' ! f r = get_gpr r h" "\<forall>k. k \<notin> f ` set rs \<longrightarrow> w' ! k = ?w ! k"
    using Cons.IH [of ?w] Cons.prems by (auto simp: inj_on_insert)
  have "w' ! f r = get_gpr r h"
  proof (cases "f r \<in> f ` set rs")
    case True
    then have "r \<in> set rs" using Cons.prems(2) by (auto simp: inj_on_def)
    then show ?thesis using w'(3) by blast
  next
    case False
    then show ?thesis using w'(4) Cons.prems(1) by simp
  qed
  moreover have "exec b (save_regs f rb (r # rs)) (h, w) = Inr (h, w')"
    using s w'(1) by (simp add: save_regs_def)
  moreover have "w' ! k = w ! k" if "k \<notin> f ` set (r # rs)" for k using w'(4) that by simp
  ultimately show ?case using w'(2,3) by auto
qed

lemma exec_load_regs:
  assumes "hart_ok h" "get_gpr rb h = b" "rb \<notin> set rs" "length w < 2 ^ 60"
    "\<forall>r \<in> set rs. f r < length w \<and> r < 32"
  shows "\<exists>h'. exec b (load_regs f rb rs) (h, w) = Inr (h', w) \<and> hart_ok h' \<and> csrs h' = csrs h \<and> pc h' = pc h \<and>
    virt h' = virt h \<and> supervisor h' = supervisor h \<and>
    (\<forall>r. get_gpr r h' = (if r \<in> set rs \<and> r \<noteq> 0 then w ! f r else get_gpr r h))"
  using assms
proof (induction rs arbitrary: h)
  case Nil
  then show ?case by (simp add: load_regs_def)
next
  case (Cons r rs)
  let ?h = "set_gpr r (w ! f r) h"
  have s: "exec1 b (Ld r (8 * f r) rb) (h, w) = Inr (?h, w)" using Cons.prems by simp
  have g: "get_gpr q ?h = (if q = r \<and> r \<noteq> 0 then w ! f r else get_gpr q h)" for q
    using Cons.prems by (intro get_set_gpr) auto
  have "get_gpr rb ?h = b" using g [of rb] Cons.prems by simp
  then obtain h' where h': "exec b (load_regs f rb rs) (?h, w) = Inr (h', w)" "hart_ok h'" "csrs h' = csrs h"
    "pc h' = pc h" "virt h' = virt h" "supervisor h' = supervisor h"
    "\<forall>q. get_gpr q h' = (if q \<in> set rs \<and> q \<noteq> 0 then w ! f q else get_gpr q ?h)"
    using Cons.IH [of ?h] Cons.prems by auto
  have "exec b (load_regs f rb (r # rs)) (h, w) = Inr (h', w)" using s h'(1) by (simp add: load_regs_def)
  moreover have "get_gpr q h' = (if q \<in> set (r # rs) \<and> q \<noteq> 0 then w ! f q else get_gpr q h)" for q
    using h'(7) g [of q] by auto
  ultimately show ?case using h'(2-6) by auto
qed

end
