(* ===== verification/Environment.thy ===== *)
theory Environment
  imports Hart
begin

text \<open>
  What the hypervisor is surrounded by and the repository does not contain: the
  firmware behind \<open>ecall\<close> and the crate \<open>sbi_rt\<close>, memory-mapped devices, the
  decoders of the crates \<open>riscv\<close> and \<open>riscv_decode\<close>, the values a write to
  \<open>hgatp\<close> may leave there, and the values a call of compiled code leaves in the
  registers that the calling convention lets it use. They are the fields of \<open>env\<close>, an argument of the
  definitions that use them. The hypervisor's actions on the outside are recorded
  as \<open>event\<close>s, newest first; an answer from outside may depend on all of them.
\<close>

section \<open>Errors\<close>

datatype VmmError =
    NotSupported | NoFound | Unimplemented | TranslationError | DeviceNotFound | PseudoInst
  | DecodeInstError | UnexpectedInst

type_synonym 'a VmmResult = "VmmError + 'a"

section \<open>Causes and instructions\<close>

text \<open>The causes and the instructions that the sources name, and the rest.\<close>

datatype Exception =
    IllegalInstruction | LoadFault | StoreFault | LoadPageFault | UserEnvCall | VirtualSupervisorEnvCall
  | InstructionGuestPageFault | LoadGuestPageFault | VirtualInstruction | StoreGuestPageFault
  | OtherException

datatype Interrupt = SupervisorTimer | SupervisorExternal | OtherInterrupt

datatype Trap = Exception Exception | Interrupt Interrupt

text \<open>\<open>Lw\<close> carries its \<open>rd()\<close>, \<open>Sw\<close> its \<open>rs2()\<close>.\<close>

datatype Instruction = Lw u32 | Sw u32 | OtherInstruction

section \<open>Events and the environment\<close>

datatype rt_call =
    Rt_set_timer u64
  | Rt_get_sbi_impl_id | Rt_get_sbi_impl_version | Rt_get_mvendorid | Rt_get_marchid | Rt_get_mimpid
  | Rt_probe_hsm
  | Rt_shutdown

datatype event =
    MmioRead usize
  | MmioWrite usize u32
  | Ecall usize usize "usize list"  \<comment> \<open>\<open>a7\<close>, \<open>a6\<close>, arguments\<close>
  | RtCall rt_call

record env =
  mmio_read32 :: "event list \<Rightarrow> usize \<Rightarrow> u32"
  sbi_ecall :: "event list \<Rightarrow> usize \<Rightarrow> usize \<Rightarrow> usize list \<Rightarrow> usize \<times> usize"
  sbi_rt :: "event list \<Rightarrow> rt_call \<Rightarrow> usize"
  scause_cause :: "usize \<Rightarrow> Trap"
  set_spp_supervisor :: "usize \<Rightarrow> usize"
  set_spv :: "usize \<Rightarrow> usize"
  instruction_length :: "u16 \<Rightarrow> usize"
  decode :: "u32 \<Rightarrow> Instruction option"
  hgatp_legal :: "usize \<Rightarrow> usize"  \<comment> \<open>what the register holds after a write\<close>
  leftover :: "hart \<Rightarrow> nat \<Rightarrow> usize"  \<comment> \<open>what compiled code leaves in a register it may use\<close>

section \<open>Documented behaviour\<close>

text \<open>
  The two setters set bit SPP of \<open>sstatus\<close> and bit SPV of \<open>hstatus\<close>, an
  instruction has two or four bytes, and register operands are numbers below 32.
\<close>

definition setters_ok :: "env \<Rightarrow> bool" where
  "setters_ok E \<longleftrightarrow> set_spp_supervisor E = put_bit 8 True \<and> set_spv E = put_bit 7 True"

definition decoder_ok :: "env \<Rightarrow> bool" where
  "decoder_ok E \<longleftrightarrow> (\<forall>i. instruction_length E i = 2 \<or> instruction_length E i = 4) \<and>
     (\<forall>i r. decode E i = Some (Lw r) \<or> decode E i = Some (Sw r) \<longrightarrow> r < 32)"

end
