(* ===== verification/Context.thy ===== *)
theory Context
  imports Environment
begin

text \<open>
  \<^verbatim>\<open>src/guest/context.rs\<close> and \<^verbatim>\<open>src/guest/trap.S\<close>: the trap context in which the
  guest's registers are kept while the hypervisor runs, and the assembly that
  saves and restores them. The structure is \<open>repr(C)\<close>, so that the assembly
  addresses its fields by word: \<open>ctx_words\<close> is that layout.
\<close>

section \<open>The trap context\<close>

record TrapContext =
  ctx_x :: "usize list"
  ctx_sstatus :: usize
  ctx_sepc :: usize
  ctx_hgatp :: usize
  ctx_kernel_sp :: usize
  ctx_trap_handler :: usize
  ctx_hstatus :: usize

definition set_sp :: "TrapContext \<Rightarrow> usize \<Rightarrow> TrapContext" where
  "set_sp self sp = self\<lparr>ctx_x := (ctx_x self)[2 := sp]\<rparr>"

definition initialize_context ::
  "env \<Rightarrow> hart \<Rightarrow> usize \<Rightarrow> usize \<Rightarrow> usize \<Rightarrow> usize \<Rightarrow> usize \<Rightarrow> TrapContext" where
  "initialize_context E h entry sp hgatp kernel_sp trap_handler =
     (let sstatus = set_spp_supervisor E (csrs h Sstatus);
          hstatus = set_spv E (csrs h Hstatus);
          cx = \<lparr>ctx_x = replicate 32 0, ctx_sstatus = sstatus, ctx_sepc = entry, ctx_hgatp = hgatp,
                ctx_kernel_sp = kernel_sp, ctx_trap_handler = trap_handler, ctx_hstatus = hstatus\<rparr>
      in set_sp cx sp)"

definition ctx_ok :: "TrapContext \<Rightarrow> bool" where
  "ctx_ok c \<longleftrightarrow> length (ctx_x c) = 32"

lemma initialize_context_ok: "ctx_ok (initialize_context E h entry sp hg ks th)"
  by (simp add: ctx_ok_def initialize_context_def set_sp_def Let_def)

section \<open>The layout\<close>

definition ctx_words :: "TrapContext \<Rightarrow> usize list" where
  "ctx_words c = ctx_x c @ [ctx_sstatus c, ctx_sepc c, ctx_hgatp c, ctx_kernel_sp c, ctx_trap_handler c, ctx_hstatus c]"

definition words_ctx :: "usize list \<Rightarrow> TrapContext" where
  "words_ctx w = \<lparr>ctx_x = take 32 w, ctx_sstatus = w ! 32, ctx_sepc = w ! 33, ctx_hgatp = w ! 34,
     ctx_kernel_sp = w ! 35, ctx_trap_handler = w ! 36, ctx_hstatus = w ! 37\<rparr>"

lemma length_ctx_words [simp]: "ctx_ok c \<Longrightarrow> length (ctx_words c) = 38"
  by (simp add: ctx_ok_def ctx_words_def)

lemma ctx_words_nth:
  assumes "ctx_ok c"
  shows "k < 32 \<Longrightarrow> ctx_words c ! k = ctx_x c ! k"
    "ctx_words c ! 32 = ctx_sstatus c" "ctx_words c ! 33 = ctx_sepc c" "ctx_words c ! 34 = ctx_hgatp c"
    "ctx_words c ! 35 = ctx_kernel_sp c" "ctx_words c ! 36 = ctx_trap_handler c" "ctx_words c ! 37 = ctx_hstatus c"
  using assms by (auto simp: ctx_ok_def ctx_words_def nth_append)

lemma words_ctx_words: "ctx_ok c \<Longrightarrow> words_ctx (ctx_words c) = c"
  by (cases c) (simp add: words_ctx_def ctx_words_nth ctx_words_def ctx_ok_def nth_append)

lemma words_ctx_ok: "length w = 38 \<Longrightarrow> ctx_ok (words_ctx w)"
  by (simp add: ctx_ok_def words_ctx_def)

section \<open>\<open>trap.S\<close>\<close>

text \<open>
  Registers: 1 is \<open>ra\<close>, 2 is \<open>sp\<close>, 5 to 7 are \<open>t0\<close> to \<open>t2\<close>, 10 is \<open>a0\<close>. The
  \<open>.rept 27\<close> loops count from 5.
\<close>

definition x5_x31 :: "nat list" where
  "x5_x31 = [5..<32]"

lemma in_x5_x31 [simp]: "r \<in> set x5_x31 \<longleftrightarrow> 5 \<le> r \<and> r < 32"
  by (simp only: x5_x31_def set_upt atLeastLessThan_iff)

definition alltraps_code :: "instr list" where
  "alltraps_code =
     [Csrrw 2 Sscratch 2, Sd 1 (1 * 8) 2, Sd 3 (3 * 8) 2] @
     save_regs (\<lambda>n. n) 2 x5_x31 @
     [Csrr 5 Sstatus, Csrr 6 Sepc, Sd 5 (32 * 8) 2, Sd 6 (33 * 8) 2,
      Csrr 7 Sscratch, Sd 7 (2 * 8) 2, Ld 5 (34 * 8) 2, Ld 6 (36 * 8) 2,
      Csrr 5 Hstatus, Sd 5 (37 * 8) 2, Ld 2 (35 * 8) 2, Jr 6]"

definition restore_code :: "instr list" where
  "restore_code =
     [Csrw Sscratch 10, Mv 2 10, Ld 5 (32 * 8) 2, Ld 6 (33 * 8) 2, Csrw Sstatus 5, Csrw Sepc 6,
      Ld 5 (37 * 8) 2, Csrw Hstatus 5, Ld 1 (1 * 8) 2, Ld 3 (3 * 8) 2] @
     load_regs (\<lambda>n. n) 2 x5_x31 @
     [Ld 2 (2 * 8) 2, Sret]"

text \<open>\<open>hart_entry_2\<close> of \<^verbatim>\<open>vmexit.rs\<close>: the first entry, which also passes the device tree in \<open>a1\<close>.\<close>

definition hart_entry_2_code :: "instr list" where
  "hart_entry_2_code =
     [Fence_i, Li 10 TRAP_CONTEXT, Csrw Sscratch 10, Mv 2 10, Ld 5 (32 * 8) 2, Ld 6 (33 * 8) 2,
      Csrw Sstatus 5, Csrw Sepc 6, Ld 5 (37 * 8) 2, Csrw Hstatus 5, Ld 1 (1 * 8) 2, Ld 3 (3 * 8) 2] @
     load_regs (\<lambda>n. n) 2 x5_x31 @
     [Ld 2 (2 * 8) 2, Li 11 GUEST_DTB_ADDR, Sret]"

text \<open>
  The trap entry of the hypervisor itself: it saves on its own stack (34 words
  from the new \<open>sp\<close>) and calls the address in \<open>sscratch\<close>.
\<close>

definition alltraps_k_code :: "instr list" where
  "alltraps_k_code =
     [Addi 2 2 (- (34 * 8)), Sd 1 (1 * 8) 2, Sd 3 (3 * 8) 2] @
     save_regs (\<lambda>n. n) 2 x5_x31 @
     [Csrr 5 Sstatus, Csrr 6 Sepc, Sd 5 (32 * 8) 2, Sd 6 (33 * 8) 2, Mv 10 2, Csrr 7 Sscratch, Jalr 7]"

definition restore_k_code :: "instr list" where
  "restore_k_code =
     [Ld 5 (32 * 8) 2, Ld 6 (33 * 8) 2, Csrw Sstatus 5, Csrw Sepc 6, Ld 1 (1 * 8) 2, Ld 3 (3 * 8) 2] @
     load_regs (\<lambda>n. n) 2 x5_x31 @
     [Addi 2 2 (34 * 8), Sret]"

section \<open>What the assembly does\<close>

text \<open>The registers as \<open>__alltraps\<close> leaves them in the context: \<open>x0\<close> and \<open>x4\<close> are not written.\<close>

definition saved_regs :: "hart \<Rightarrow> usize list \<Rightarrow> usize list" where
  "saved_regs h x = map (\<lambda>k. if k = 0 \<or> k = 4 then x ! k else get_gpr k h) [0..<32]"

definition saved_ctx :: "hart \<Rightarrow> TrapContext \<Rightarrow> TrapContext" where
  "saved_ctx h c = c\<lparr>ctx_x := saved_regs h (ctx_x c), ctx_sstatus := csrs h Sstatus,
     ctx_sepc := csrs h Sepc, ctx_hstatus := csrs h Hstatus\<rparr>"

lemma saved_regs_nth: "k < 32 \<Longrightarrow> saved_regs h x ! k = (if k = 0 \<or> k = 4 then x ! k else get_gpr k h)"
  by (simp add: saved_regs_def)

lemma saved_ctx_ok [simp]: "ctx_ok (saved_ctx h c)"
  by (simp add: ctx_ok_def saved_ctx_def saved_regs_def)

lemma exec_alltraps:
  assumes ok: "hart_ok h" "ctx_ok c" and b: "csrs h Sscratch = b"
  shows "\<exists>h' w. exec b alltraps_code (h, ctx_words c) = Inr (h', w) \<and> words_ctx w = saved_ctx h c \<and>
    hart_ok h' \<and> csrs h' = (csrs h)(Sscratch := get_gpr 2 h) \<and> pc h' = ctx_trap_handler c \<and>
    get_gpr 2 h' = ctx_kernel_sp c \<and> get_gpr 4 h' = get_gpr 4 h \<and>
    virt h' = virt h \<and> supervisor h' = supervisor h"
proof -
  let ?h = "set_gpr 2 b (write_csr Sscratch (get_gpr 2 h) h)"
  have g: "get_gpr q ?h = (if q = 2 then b else get_gpr q h)" for q
    using ok by (simp add: get_set_gpr)
  let ?w0 = "(ctx_words c)[1 := get_gpr 1 h, 3 := get_gpr 3 h]"
  have len: "length ?w0 = 38" using ok by simp
  obtain w1 where w1: "exec b (save_regs (\<lambda>n. n) 2 x5_x31) (?h, ?w0) = Inr (?h, w1)" "length w1 = 38"
    "\<forall>r \<in> set x5_x31. w1 ! r = get_gpr r ?h" "\<forall>k. k \<notin> (\<lambda>n. n) ` set x5_x31 \<longrightarrow> w1 ! k = ?w0 ! k"
    using exec_save_regs [of 2 ?h b x5_x31 "\<lambda>n. n" ?w0] len g by auto
  have hi: "w1 ! 34 = ctx_hgatp c" "w1 ! 35 = ctx_kernel_sp c" "w1 ! 36 = ctx_trap_handler c"
    using w1(4) ok by (simp_all add: ctx_words_nth)
  define w where "w = w1[32 := csrs h Sstatus, 33 := csrs h Sepc, 2 := get_gpr 2 h, 37 := csrs h Hstatus]"
  have lo: "w ! k = (if k = 0 \<or> k = 4 then ctx_x c ! k else get_gpr k h)" if "k < 32" for k
  proof (cases "k < 5")
    case True
    then have "k \<in> {0, 1, 2, 3, 4}" by auto
    then show ?thesis using w1(2,4) ok by (auto simp: w_def ctx_words_nth nth_list_update)
  next
    case False
    then have "w1 ! k = get_gpr k ?h" using w1(3) that by simp
    then show ?thesis using False that w1(2) g [of k] by (simp add: w_def)
  qed
  have "length w = 38" using w1(2) by (simp add: w_def)
  then have "take 32 w = saved_regs h (ctx_x c)"
    by (intro nth_equalityI) (simp_all add: saved_regs_def lo)
  then have w: "words_ctx w = saved_ctx h c"
    using w1(2) hi by (simp add: words_ctx_def saved_ctx_def w_def)
  show ?thesis
    using ok w1(1,2) b hi w by (simp add: w_def alltraps_code_def exec_append g get_set_gpr)
qed

text \<open>What \<open>__restore\<close> and the first entry have in common: everything up to \<open>sret\<close>.\<close>

definition restore_body :: "instr list" where
  "restore_body =
     [Csrw Sscratch 10, Mv 2 10, Ld 5 (32 * 8) 2, Ld 6 (33 * 8) 2, Csrw Sstatus 5, Csrw Sepc 6,
      Ld 5 (37 * 8) 2, Csrw Hstatus 5, Ld 1 (1 * 8) 2, Ld 3 (3 * 8) 2] @
     load_regs (\<lambda>n. n) 2 x5_x31 @ [Ld 2 (2 * 8) 2]"

lemma restore_codes:
  "restore_code = restore_body @ [Sret]"
  "hart_entry_2_code = [Fence_i, Li 10 TRAP_CONTEXT] @ restore_body @ [Li 11 GUEST_DTB_ADDR, Sret]"
  by (simp_all add: restore_code_def hart_entry_2_code_def restore_body_def)

definition restored_gpr :: "hart \<Rightarrow> TrapContext \<Rightarrow> nat \<Rightarrow> usize" where
  "restored_gpr h c r = (if r = 0 then 0 else if r = 4 then get_gpr 4 h else ctx_x c ! r)"

definition restored_csrs :: "hart \<Rightarrow> usize \<Rightarrow> TrapContext \<Rightarrow> csr \<Rightarrow> usize" where
  "restored_csrs h b c = (csrs h)(Sscratch := b, Sstatus := ctx_sstatus c, Sepc := ctx_sepc c, Hstatus := ctx_hstatus c)"

lemma exec_restore_body:
  assumes ok: "hart_ok h" "ctx_ok c" and b: "get_gpr 10 h = b"
  shows "\<exists>h'. exec b restore_body (h, ctx_words c) = Inr (h', ctx_words c) \<and> hart_ok h' \<and>
    (\<forall>r < 32. get_gpr r h' = restored_gpr h c r) \<and> csrs h' = restored_csrs h b c"
proof -
  let ?w = "ctx_words c"
  let ?h1 = "set_gpr 3 (?w ! 3) (set_gpr 1 (?w ! 1) (write_csr Hstatus (ctx_hstatus c) (set_gpr 5 (ctx_hstatus c)
    (write_csr Sepc (ctx_sepc c) (write_csr Sstatus (ctx_sstatus c) (set_gpr 6 (ctx_sepc c)
    (set_gpr 5 (ctx_sstatus c) (set_gpr 2 b (write_csr Sscratch b h)))))))))"
  have pre: "exec b [Csrw Sscratch 10, Mv 2 10, Ld 5 (32 * 8) 2, Ld 6 (33 * 8) 2, Csrw Sstatus 5, Csrw Sepc 6,
      Ld 5 (37 * 8) 2, Csrw Hstatus 5, Ld 1 (1 * 8) 2, Ld 3 (3 * 8) 2] (h, ?w) = Inr (?h1, ?w)"
    using ok b by (simp add: get_set_gpr ctx_words_nth)
  have h1: "hart_ok ?h1" "get_gpr 2 ?h1 = b" using ok by (simp_all add: get_set_gpr)
  obtain h2 where h2: "exec b (load_regs (\<lambda>n. n) 2 x5_x31) (?h1, ?w) = Inr (h2, ?w)" "hart_ok h2"
    "csrs h2 = csrs ?h1" "\<forall>r. get_gpr r h2 = (if r \<in> set x5_x31 \<and> r \<noteq> 0 then ?w ! r else get_gpr r ?h1)"
    using exec_load_regs [of ?h1 2 b x5_x31 ?w "\<lambda>n. n"] h1 ok by auto
  let ?h3 = "set_gpr 2 (?w ! 2) h2"
  have g: "get_gpr r ?h3 = restored_gpr h c r" if "r < 32" for r
  proof (cases "r < 5")
    case True
    then have "r \<in> {0, 1, 2, 3, 4}" by auto
    then show ?thesis using h2 ok by (auto simp: get_set_gpr ctx_words_nth restored_gpr_def)
  next
    case False
    then show ?thesis using h2 ok that by (simp add: get_set_gpr ctx_words_nth restored_gpr_def)
  qed
  have "get_gpr 2 h2 = b" using h2(4) h1(2) by simp
  then have "exec b [Ld 2 (2 * 8) 2] (h2, ?w) = Inr (?h3, ?w)" using ok by simp
  then have "exec b restore_body (h, ?w) = Inr (?h3, ?w)"
    by (simp only: restore_body_def exec_append pre h2(1) bindR_Inr)
  then show ?thesis using h2(2,3) g by (intro exI [of _ ?h3]) (simp add: restored_csrs_def)
qed

text \<open>
  After \<open>__restore\<close> or the first entry the hart is where the context says: the
  program counter, the virtualization mode and the privilege mode come from it.
\<close>

definition resumed :: "hart \<Rightarrow> usize \<Rightarrow> TrapContext \<Rightarrow> hart \<Rightarrow> bool" where
  "resumed h b c h' \<longleftrightarrow> hart_ok h' \<and> pc h' = ctx_sepc c \<and> virt h' = bit (ctx_hstatus c) 7 \<and>
     supervisor h' = bit (ctx_sstatus c) 8 \<and> csrs h' Sscratch = b \<and>
     (\<forall>k. k \<notin> {Sscratch, Sstatus, Sepc, Hstatus} \<longrightarrow> csrs h' k = csrs h k)"

lemma resumed_sret:
  assumes "hart_ok h1" "csrs h1 = restored_csrs h b c"
  shows "resumed h b c (sret h1)"
  using assms by (auto simp: resumed_def restored_csrs_def)

lemma exec_restore:
  assumes "hart_ok h" "ctx_ok c" "get_gpr 10 h = b"
  shows "\<exists>h'. exec b restore_code (h, ctx_words c) = Inr (h', ctx_words c) \<and> resumed h b c h' \<and>
    (\<forall>r < 32. get_gpr r h' = restored_gpr h c r)"
proof -
  obtain h1 where "exec b restore_body (h, ctx_words c) = Inr (h1, ctx_words c)" "hart_ok h1"
    "\<forall>r < 32. get_gpr r h1 = restored_gpr h c r" "csrs h1 = restored_csrs h b c"
    using exec_restore_body [OF assms] by blast
  then show ?thesis using resumed_sret [of h1 h b c] by (simp add: restore_codes exec_append)
qed

lemma exec_hart_entry_2:
  assumes ok: "hart_ok h" "ctx_ok c"
  shows "\<exists>h'. exec TRAP_CONTEXT hart_entry_2_code (h, ctx_words c) = Inr (h', ctx_words c) \<and>
    resumed h TRAP_CONTEXT c h' \<and> get_gpr 11 h' = GUEST_DTB_ADDR \<and>
    (\<forall>r < 32. r \<noteq> 11 \<longrightarrow> get_gpr r h' = restored_gpr h c r)"
proof -
  let ?h0 = "set_gpr 10 TRAP_CONTEXT h"
  have h0: "hart_ok ?h0" "get_gpr 10 ?h0 = TRAP_CONTEXT" "get_gpr 4 ?h0 = get_gpr 4 h"
    using ok by (simp_all add: get_set_gpr)
  obtain h1 where h1: "exec TRAP_CONTEXT restore_body (?h0, ctx_words c) = Inr (h1, ctx_words c)" "hart_ok h1"
    "\<forall>r < 32. get_gpr r h1 = restored_gpr ?h0 c r" "csrs h1 = restored_csrs ?h0 TRAP_CONTEXT c"
    using exec_restore_body [OF h0(1) ok(2) h0(2)] by blast
  let ?h2 = "set_gpr 11 GUEST_DTB_ADDR h1"
  have "resumed h TRAP_CONTEXT c (sret ?h2)"
    using h1 by (intro resumed_sret) (simp_all add: restored_csrs_def)
  moreover have "restored_gpr ?h0 c r = restored_gpr h c r" for r using h0(3) by (simp add: restored_gpr_def)
  moreover have "exec TRAP_CONTEXT hart_entry_2_code (h, ctx_words c) = Inr (sret ?h2, ctx_words c)"
    using h1(1) by (simp del: TRAP_CONTEXT_def TRAMPOLINE_def add: restore_codes exec_append)
  ultimately show ?thesis using h1(2,3) by (intro exI [of _ "sret ?h2"]) (simp add: get_set_gpr)
qed

section \<open>Properties\<close>

lemma exec_length: "exec b is (h, w) = Inr (h', w') \<Longrightarrow> length w' = length w"
proof (induction "is" arbitrary: h w)
  case (Cons i "is")
  obtain h1 w1 where s: "exec1 b i (h, w) = Inr (h1, w1)" "exec b is (h1, w1) = Inr (h', w')" using Cons.prems by auto
  have "length w1 = length w" using s(1) by (cases i) auto
  then show ?case using Cons.IH [OF s(2)] by simp
qed simp

lemma ctx_words_ctx:
  assumes "length w = 38"
  shows "ctx_words (words_ctx w) = w"
proof -
  have e: "drop 32 w = [w ! 32, w ! 33, w ! 34, w ! 35, w ! 36, w ! 37]"
    using assms by (simp add: Cons_nth_drop_Suc [symmetric])
  have "take 32 w @ drop 32 w = w" by (rule append_take_drop_id)
  then show ?thesis unfolding ctx_words_def words_ctx_def e by simp
qed

text \<open>
  C17. A trap costs the guest no register: \<open>__alltraps\<close> saves the guest to the trap context
  and enters the handler on its own stack, and \<open>__restore\<close> of that context, on a
  hart with arbitrary registers except \<open>tp\<close>, which neither of them touches, returns
  to the guest's program counter in the mode it trapped from with all its registers.
\<close>

theorem trap_context_roundtrip:
  assumes ok: "hart_ok h" "ctx_ok c" "csrs h Sscratch = b"
    and h': "hart_ok h'" "get_gpr 10 h' = b" "get_gpr 4 h' = get_gpr 4 h"
  shows "\<exists>h1 w h2. exec b alltraps_code (h, ctx_words c) = Inr (h1, w) \<and> pc h1 = ctx_trap_handler c \<and>
    get_gpr 2 h1 = ctx_kernel_sp c \<and> exec b restore_code (h', w) = Inr (h2, w) \<and>
    (\<forall>r < 32. get_gpr r h2 = get_gpr r h) \<and> pc h2 = csrs h Sepc \<and> virt h2 = bit (csrs h Hstatus) 7 \<and>
    supervisor h2 = bit (csrs h Sstatus) 8 \<and> csrs h2 Sscratch = b"
proof -
  obtain h1 w where e: "exec b alltraps_code (h, ctx_words c) = Inr (h1, w)" "words_ctx w = saved_ctx h c"
    "pc h1 = ctx_trap_handler c" "get_gpr 2 h1 = ctx_kernel_sp c"
    using exec_alltraps [OF ok] by blast
  have "length w = 38" using exec_length [OF e(1)] ok(2) by simp
  then have w: "ctx_words (saved_ctx h c) = w" using ctx_words_ctx [of w] e(2) by simp
  obtain h2 where r: "exec b restore_code (h', w) = Inr (h2, w)" "resumed h' b (saved_ctx h c) h2"
    "\<forall>r < 32. get_gpr r h2 = restored_gpr h' (saved_ctx h c) r"
    using exec_restore [OF h'(1) saved_ctx_ok h'(2), of h c] unfolding w by blast
  have "get_gpr q h2 = get_gpr q h" if "q < 32" for q
    using r(3) that h'(3) by (simp add: restored_gpr_def saved_ctx_def saved_regs_nth)
  then show ?thesis
    using e r(1,2) by (intro exI [of _ h1] exI [of _ w] exI [of _ h2]) (simp add: resumed_def saved_ctx_def)
qed

theorem trap_context_roundtrip_witness:
  "\<exists>h c h1 w h2. exec TRAP_CONTEXT alltraps_code (h, ctx_words c) = Inr (h1, w) \<and> pc h1 = 0x80210000 \<and>
     exec TRAP_CONTEXT restore_code (h\<lparr>gprs := (replicate 32 0)[10 := TRAP_CONTEXT, 4 := 7]\<rparr>, w) = Inr (h2, w) \<and>
     gprs h = replicate 32 7 \<and> get_gpr 31 h2 = 7 \<and> get_gpr 10 h2 = 7 \<and> virt h2"
proof -
  define h :: hart where "h = \<lparr>gprs = replicate 32 7, csrs = (\<lambda>_. 0x80)(Sscratch := TRAP_CONTEXT), pc = 0, virt = False, supervisor = True\<rparr>"
  define c :: TrapContext where "c = \<lparr>ctx_x = replicate 32 0, ctx_sstatus = 0, ctx_sepc = 0, ctx_hgatp = 0, ctx_kernel_sp = 0,
     ctx_trap_handler = 0x80210000, ctx_hstatus = 0\<rparr>"
  let ?h = "h\<lparr>gprs := (replicate 32 0)[10 := TRAP_CONTEXT, 4 := 7]\<rparr>"
  have ok: "hart_ok h" "ctx_ok c" "csrs h Sscratch = TRAP_CONTEXT" "hart_ok ?h" "get_gpr 10 ?h = TRAP_CONTEXT"
    "get_gpr 4 ?h = get_gpr 4 h"
    by (simp_all add: h_def c_def hart_ok_def ctx_ok_def get_gpr_def)
  have v: "get_gpr 31 h = 7" "get_gpr 10 h = 7" "bit (csrs h Hstatus) 7" "ctx_trap_handler c = 0x80210000" "gprs h = replicate 32 7"
    by (simp_all add: h_def c_def get_gpr_def bit_iff_odd)
  obtain h1 w h2 where "exec TRAP_CONTEXT alltraps_code (h, ctx_words c) = Inr (h1, w)" "pc h1 = ctx_trap_handler c"
    "exec TRAP_CONTEXT restore_code (?h, w) = Inr (h2, w)" "\<forall>r < 32. get_gpr r h2 = get_gpr r h" "virt h2 = bit (csrs h Hstatus) 7"
    using trap_context_roundtrip [OF ok] by (elim exE conjE) (rule that)
  then show ?thesis
    using v by (intro exI [of _ h] exI [of _ c] exI [of _ h1] exI [of _ w] exI [of _ h2]) (simp del: TRAP_CONTEXT_def)
qed

end
