(* ===== verification/Hypervisor.thy ===== *)
theory Hypervisor
  imports Guest_Memory Context
begin

text \<open>
  \<^verbatim>\<open>src/hypervisor.rs\<close> (modules \<open>stack\<close> and the global \<open>HOST_VMM\<close>),
  \<^verbatim>\<open>src/guest/vcpu.rs\<close> and \<open>Guest::new\<close> of \<^verbatim>\<open>src/guest/mod.rs\<close>, \<open>enable_paging\<close> of
  \<^verbatim>\<open>src/mm/mod.rs\<close>, \<open>activate\<close> and \<open>remap_test\<close> of \<^verbatim>\<open>src/mm/memory_set.rs\<close>. The
  state of the whole hypervisor is the record \<open>machine\<close>: memory and allocator, the
  hart, what was done to the outside so far, the trap context (the page at
  \<open>TRAP_CONTEXT\<close>, a frame that only the hypervisor's own memory set has), and the
  global \<open>HOST_VMM\<close> with its spin lock.
\<close>

section \<open>Structures\<close>

record VCpu =
  vcpu_hart :: usize
  pending_events :: "u32 list"

definition VCpu_new :: "usize \<Rightarrow> VCpu" where
  "VCpu_new hart_id = \<lparr>vcpu_hart = hart_id, pending_events = []\<rparr>"

record 'g Guest =
  guest_machine :: MachineMeta
  gpm :: "'g GuestMemorySet"
  guest_id :: usize
  vcpu :: VCpu

record PlicState =
  plic_base_addr :: usize
  claim_complete :: "u32 list"

definition PlicState_new :: "usize \<Rightarrow> PlicState" where
  "PlicState_new base_addr =
     \<lparr>plic_base_addr = base_addr, claim_complete = replicate (unat MAX_CONTEXTS) 0\<rparr>"

record ('p, 'g) HostVmm =
  host_machine :: MachineMeta
  hpm :: "'p HostMemorySet"
  guests :: "'g Guest option list"
  vm_guest_id :: usize
  host_plic :: "PlicState option"
  irq_pending :: bool
  timer_irq :: usize
  external_irq :: usize
  guest_page_falut :: usize

type_synonym Vmm = "(PageTableSv39, PageTableSv39) HostVmm"

text \<open>\<open>spin::Mutex\<close> and, as an option, \<open>spin::Once\<close>.\<close>

record 'a Mutex =
  mutex_inner :: 'a
  mutex_locked :: bool

record machine = world +
  hart :: hart
  events :: "event list"
  trap_ctx :: TrapContext
  HOST_VMM :: "Vmm Mutex option"

definition vmm_lock :: "machine \<Rightarrow> (Vmm \<times> machine) result" where
  "vmm_lock m =
     bindR (unwrap (HOST_VMM m)) (\<lambda>mx.
     if mutex_locked mx then Inl Deadlock
     else Inr (mutex_inner mx, m\<lparr>HOST_VMM := Some (mx\<lparr>mutex_locked := True\<rparr>)\<rparr>))"

text \<open>Dropping the guard publishes what was changed through it.\<close>

definition vmm_unlock :: "Vmm \<Rightarrow> machine \<Rightarrow> machine" where
  "vmm_unlock v m = m\<lparr>HOST_VMM := Some \<lparr>mutex_inner = v, mutex_locked = False\<rparr>\<rparr>"

definition on_hart :: "(hart \<Rightarrow> hart) \<Rightarrow> machine \<Rightarrow> machine" where
  "on_hart f m = m\<lparr>hart := f (hart m)\<rparr>"

definition log_event :: "event \<Rightarrow> machine \<Rightarrow> machine" where
  "log_event e m = m\<lparr>events := e # events m\<rparr>"

section \<open>Kernel stacks\<close>

datatype HypervisorStack = HypervisorStack (hs_0: usize)

definition hstack_position :: "usize \<Rightarrow> (usize \<times> usize) result" where
  "hstack_position gid =
     bindR (checked_mul gid (KERNEL_STACK_SIZE + PAGE_SIZE)) (\<lambda>off.
     bindR (checked_sub TRAP_CONTEXT off) (\<lambda>top.
     bindR (checked_sub top KERNEL_STACK_SIZE) (\<lambda>bottom.
     Inr (bottom, top))))"

definition hstack_alloc :: "usize \<Rightarrow> machine \<Rightarrow> (HypervisorStack \<times> machine) result" where
  "hstack_alloc gid m =
     bindR (hstack_position gid) (\<lambda>(hstack_bottom, hstack_top).
     bindR (vmm_lock m) (\<lambda>(host_vmm, m1).
     bindR (insert_framed_area Sv39 (hpm host_vmm) (VirtAddr_from hstack_bottom) (VirtAddr_from hstack_top)
              (MapPermission_R OR MapPermission_W) m1) (\<lambda>(hpm', m2).
     Inr (HypervisorStack gid, vmm_unlock (host_vmm\<lparr>hpm := hpm'\<rparr>) m2))))"

definition get_top :: "HypervisorStack \<Rightarrow> usize result" where
  "get_top self = bindR (hstack_position (hs_0 self)) (\<lambda>(_, hstack_top). Inr hstack_top)"

section \<open>Guests\<close>

text \<open>\<open>trap_handler\<close> is the address of the function.\<close>

definition Guest_new ::
  "env \<Rightarrow> usize \<Rightarrow> usize \<Rightarrow> PageTableSv39 GuestMemorySet \<Rightarrow> MachineMeta \<Rightarrow> machine \<Rightarrow>
   (PageTableSv39 Guest \<times> machine) result" where
  "Guest_new E trap_handler gid gpm' gmachine m =
     bindR (hstack_alloc gid m) (\<lambda>(hstack, m1).
     bindR (get_top hstack) (\<lambda>hstack_top.
     let cx = initialize_context E (hart m1) GUEST_START_VA 0 (ms_token (Sv39 :: (PageTableSv39, machine) GuestPageTable) gpm') hstack_top trap_handler in
     Inr (\<lparr>guest_machine = gmachine, gpm = gpm', guest_id = gid, vcpu = VCpu_new gid\<rparr>,
          m1\<lparr>trap_ctx := cx\<rparr>)))"

definition Guest_run :: "PageTableSv39 Guest \<Rightarrow> PageTableSv39 Guest result" where
  "Guest_run self = Inl NotYetImplemented"

text \<open>
  Dropping a guest gives back the frames of its tables and of its framed areas,
  whose pages are those of the area's range.
\<close>

definition drop_area :: "MapArea \<Rightarrow> machine \<Rightarrow> machine result" where
  "drop_area a m =
     foldR (\<lambda>n. drop_frame (data_frames a (VirtPageNum (word_of_nat n))))
       [unat (vpn_0 (get_start (vpn_range a)))..<unat (vpn_0 (get_end (vpn_range a)))] m"

definition drop_guest :: "PageTableSv39 Guest option \<Rightarrow> machine \<Rightarrow> machine result" where
  "drop_guest g m = (case g of None \<Rightarrow> Inr m
     | Some g \<Rightarrow> bindR (foldR FrameTracker_drop (pt_frames (page_table (gpm g))) m)
                   (foldR drop_area (areas (gpm g))))"

definition add_guest_queue :: "PageTableSv39 Guest \<Rightarrow> machine \<Rightarrow> machine result" where
  "add_guest_queue guest m =
     bindR (vmm_lock m) (\<lambda>(host_vmm, m1).
     let gid = guest_id guest in
     bindR (assertR (gid < MAX_GUESTS)) (\<lambda>_.
     if unat gid < length (guests host_vmm) then
       bindR (drop_guest (guests host_vmm ! unat gid) m1) (\<lambda>m2.
       Inr (vmm_unlock (host_vmm\<lparr>guests := (guests host_vmm)[unat gid := Some guest]\<rparr>) m2))
     else Inl IndexOutOfBounds))"

section \<open>Initialization\<close>

definition hedeleg_value :: usize where
  "hedeleg_value = INST_ADDR_MISALIGN OR BREAKPOINT OR ENV_CALL_FROM_U_OR_VU OR INST_PAGE_FAULT
     OR LOAD_PAGE_FAULT OR STORE_PAGE_FAULT"

definition hideleg_value :: usize where
  "hideleg_value = VSEIP OR VSSIP OR VSTIP"

text \<open>The functions \<open>write\<close> of the modules \<open>hedeleg\<close>, \<open>hideleg\<close> and \<open>hcounteren\<close>.\<close>

definition hedeleg_write :: "usize \<Rightarrow> hart \<Rightarrow> hart" where [simp]: "hedeleg_write v = write_csr Hedeleg v"
definition hideleg_write :: "usize \<Rightarrow> hart \<Rightarrow> hart" where [simp]: "hideleg_write v = write_csr Hideleg v"
definition hcounteren_write :: "u32 \<Rightarrow> hart \<Rightarrow> hart" where [simp]: "hcounteren_write v = write_csr Hcounteren (ucast v)"

definition init_csrs :: "hart \<Rightarrow> hart" where
  "init_csrs h =
     (let h = hedeleg_write hedeleg_value h;
          h = hideleg_write hideleg_value h;
          h = clear_csr Hvip VSEIP h;
          h = clear_csr Hvip VSSIP h;
          h = clear_csr Hvip VSTIP h;
          h = hcounteren_write 0xffffffff h;
          h = set_csr Sie SEIP h;
          h = set_csr Sie SSIP h;
          h = set_csr Sie STIP h
      in write_csr Vsatp 0 h)"

definition HostVmm_initial :: "PageTableSv39 HostMemorySet \<Rightarrow> MachineMeta \<Rightarrow> Vmm" where
  "HostVmm_initial hpm' hmachine =
     \<lparr>host_machine = hmachine, hpm = hpm', guests = replicate (unat MAX_GUESTS) None, vm_guest_id = 0,
      host_plic = map_option (\<lambda>d. PlicState_new (base_address d)) (plic hmachine),
      irq_pending = False, timer_irq = 0, external_irq = 0, guest_page_falut = 0\<rparr>"

definition init_vmm :: "PageTableSv39 HostMemorySet \<Rightarrow> MachineMeta \<Rightarrow> machine \<Rightarrow> machine" where
  "init_vmm hpm' hmachine m =
     (let m = on_hart init_csrs m in
      case HOST_VMM m of
        Some _ \<Rightarrow> m
      | None \<Rightarrow> m\<lparr>HOST_VMM := Some \<lparr>mutex_inner = HostVmm_initial hpm' hmachine, mutex_locked = False\<rparr>\<rparr>)"

section \<open>Paging\<close>

text \<open>\<open>sfence.vma\<close> has no effect in a model without a translation cache.\<close>

definition activate :: "PageTableSv39 HostMemorySet \<Rightarrow> machine \<Rightarrow> machine" where
  "activate self m = on_hart (write_csr Satp (ms_token (Sv39 :: (PageTableSv39, machine) GuestPageTable) self)) m"

definition enable_paging :: "machine \<Rightarrow> machine result" where
  "enable_paging m =
     bindR (vmm_lock m) (\<lambda>(host_vmm, m1).
     Inr (vmm_unlock host_vmm (activate (hpm host_vmm) m1)))"

text \<open>One assertion of \<open>remap_test\<close>: a flag of the entry of the page in the middle of a section.\<close>

definition remap_assert ::
  "(PageTableEntry \<Rightarrow> bool result) \<Rightarrow> usize \<Rightarrow> usize \<Rightarrow> PageTableSv39 \<Rightarrow> machine \<Rightarrow> unit result" where
  "remap_assert flag s e pt m =
     bindR (checked_add s e) (\<lambda>sum.
     bindR (sv39_translate pt (VirtAddr_floor (VirtAddr_from (sum div 2))) m) (\<lambda>r.
     bindR (unwrap r) (\<lambda>pte.
     bindR (flag pte) (\<lambda>b. assertR (\<not> b)))))"

text \<open>The read through the trampoline's mapping, which faults when the page is not mapped readable.\<close>

definition trampoline_read :: "PageTableSv39 \<Rightarrow> machine \<Rightarrow> unit result" where
  "trampoline_read pt m =
     bindR (sv39_translate pt (VirtAddr_floor (VirtAddr_from TRAMPOLINE)) m) (\<lambda>r.
     case r of None \<Rightarrow> Inl WildAccess
     | Some pte \<Rightarrow> bindR (is_valid pte) (\<lambda>v. bindR (readable pte) (\<lambda>rd. if v \<and> rd then Inr () else Inl WildAccess)))"

definition remap_test :: "symbols \<Rightarrow> machine \<Rightarrow> machine result" where
  "remap_test syms m =
     bindR (vmm_lock m) (\<lambda>(host_vmm, m1).
     let pt = page_table (hpm host_vmm) in
     bindR (remap_assert writable (sym_stext syms) (sym_etext syms) pt m1) (\<lambda>_.
     bindR (remap_assert writable (sym_srodata syms) (sym_erodata syms) pt m1) (\<lambda>_.
     bindR (remap_assert executable (sym_sdata syms) (sym_edata syms) pt m1) (\<lambda>_.
     bindR (trampoline_read pt m1) (\<lambda>_.
     Inr (vmm_unlock host_vmm m1))))))"

section \<open>Properties\<close>

lemma hstack_position_value:
  assumes "unat g < 2 ^ 20"
  shows "\<exists>b t. hstack_position g = Inr (b, t) \<and> unat t = unat TRAP_CONTEXT - 0x5000 * unat g \<and> unat t = unat b + 0x4000"
proof -
  have m: "unat (g * 0x5000) = unat g * 0x5000" using assms by (intro unat_mul_no_wrap [THEN trans]) simp_all
  let ?t = "TRAP_CONTEXT - g * 0x5000"
  have c: "unat TRAP_CONTEXT = 2 ^ 64 - 0x2000" by simp
  have t: "unat ?t = unat TRAP_CONTEXT - 0x5000 * unat g" "g * 0x5000 \<le> TRAP_CONTEXT"
    using assms m c by (simp_all add: unat_sub_no_wrap word_le_nat_alt del: TRAP_CONTEXT_def)
  have b: "unat (?t - 0x4000) + 0x4000 = unat ?t" "0x4000 \<le> ?t"
    using t(1) c assms by (simp_all add: unat_sub_no_wrap word_le_nat_alt del: TRAP_CONTEXT_def)
  have "hstack_position g = Inr (?t - 0x4000, ?t)"
    using assms m t(2) b(2) by (simp add: hstack_position_def checked_mul_def checked_sub_def del: TRAP_CONTEXT_def)
  then show ?thesis using t(1) b(1) by (intro exI [of _ "?t - 0x4000"] exI [of _ ?t]) simp
qed

text \<open>
  C28. Kernel stacks: for guest identifiers below \<open>2^20\<close> the position of a stack does not
  overflow, the stack lies below the trap context and has its full size, and the
  stacks of two guests are apart, with a page between them that belongs to none.
\<close>

theorem kernel_stacks_apart:
  assumes "unat i < unat j" "unat j < 2 ^ 20"
  shows "\<exists>bi ti bj tj. hstack_position i = Inr (bi, ti) \<and> hstack_position j = Inr (bj, tj) \<and>
    unat ti \<le> unat TRAP_CONTEXT \<and> unat ti = unat bi + unat KERNEL_STACK_SIZE \<and> unat tj = unat bj + unat KERNEL_STACK_SIZE \<and>
    unat tj + unat PAGE_SIZE \<le> unat bi \<and> unat bi mod 4096 = 0"
proof -
  have i: "unat i < 2 ^ 20" using assms by simp
  obtain bi ti where bi: "hstack_position i = Inr (bi, ti)" "unat ti = unat TRAP_CONTEXT - 0x5000 * unat i" "unat ti = unat bi + 0x4000"
    using hstack_position_value [OF i] by blast
  obtain bj tj where bj: "hstack_position j = Inr (bj, tj)" "unat tj = unat TRAP_CONTEXT - 0x5000 * unat j" "unat tj = unat bj + 0x4000"
    using hstack_position_value [OF assms(2)] by blast
  have c: "unat TRAP_CONTEXT = 2 ^ 64 - 0x2000" by simp
  have "unat tj + 0x1000 \<le> unat bi" using bi bj c assms by simp
  moreover have "unat bi mod 4096 = 0"
  proof -
    have "unat bi = 4096 * (2 ^ 52 - 6 - 5 * unat i)" using bi(2,3) c i by simp
    then show ?thesis by simp
  qed
  moreover have "unat ti \<le> unat TRAP_CONTEXT" using bi(2) by simp
  ultimately show ?thesis
    using bi(1,3) bj(1,3) by (intro exI [of _ bi] exI [of _ ti] exI [of _ bj] exI [of _ tj]) (simp del: TRAP_CONTEXT_def)
qed

theorem kernel_stacks_apart_witness:
  "\<exists>bi ti bj tj. hstack_position 0 = Inr (bi, ti) \<and> hstack_position 3 = Inr (bj, tj) \<and> unat tj + 4096 \<le> unat bi"
  using kernel_stacks_apart [of 0 3] by auto

end
