(* ===== verification/Plic.thy ===== *)
theory Plic
  imports Hypervisor
begin

text \<open>
  \<^verbatim>\<open>src/device_emu/plic.rs\<close>: the emulated interrupt controller. The guest's
  threshold, claim and complete registers are not mapped for it; its accesses
  fault and \<open>handle_plic_access\<close> carries them out. A write to the physical
  controller is the event \<open>MmioWrite\<close>.
\<close>

section \<open>Operations\<close>

definition PLIC_OFFSET :: "(usize \<times> usize) list" where
  "PLIC_OFFSET = [(0x0, 0x1000), (0x1000, 0x1000), (0x2000, 0x200000 - 0x2000), (0x200000, 0x600000 - 0x200000)]"

definition is_plic_access :: "usize \<Rightarrow> bool" where
  "is_plic_access addr \<longleftrightarrow> addr \<ge> 0x0c000000 \<and> addr < 0x10000000"

text \<open>The arrays of the sources, whose accesses are checked.\<close>

definition get_index :: "'a list \<Rightarrow> nat \<Rightarrow> 'a result" where
  "get_index xs i = (if i < length xs then Inr (xs ! i) else Inl IndexOutOfBounds)"

definition set_index :: "'a list \<Rightarrow> nat \<Rightarrow> 'a \<Rightarrow> 'a list result" where
  "set_index xs i v = (if i < length xs then Inr (xs[i := v]) else Inl IndexOutOfBounds)"

definition ctx_get :: "nat \<Rightarrow> machine \<Rightarrow> usize result" where
  "ctx_get r m = get_index (ctx_x (trap_ctx m)) r"

definition ctx_set :: "nat \<Rightarrow> usize \<Rightarrow> machine \<Rightarrow> machine result" where
  "ctx_set r v m = bindR (set_index (ctx_x (trap_ctx m)) r v) (\<lambda>x. Inr (m\<lparr>trap_ctx := (trap_ctx m)\<lparr>ctx_x := x\<rparr>\<rparr>))"

definition handle_plic_access ::
  "Vmm \<Rightarrow> usize \<Rightarrow> Instruction \<Rightarrow> machine \<Rightarrow> (unit VmmResult \<times> Vmm \<times> machine) result" where
  "handle_plic_access self guest_pa instruction m =
     bindR (unwrap (host_plic self)) (\<lambda>hplic.
     let offset = guest_pa - plic_base_addr hplic in
     if offset \<ge> 0x200000 \<and> offset < 0x200000 + 0x1000 * MAX_CONTEXTS then
       let context = (offset - 0x200000) div 0x1000;
           index = drop_bit 2 ((offset - 0x200000) AND 0xfff) in
       if index = 0 then
         (case instruction of
            Sw rs2 \<Rightarrow>
              bindR (ctx_get (unat rs2) m) (\<lambda>v.
              Inr (Inr (), self, log_event (MmioWrite guest_pa (ucast v)) m))
          | _ \<Rightarrow> Inr (Inl UnexpectedInst, self, m))
       else if index = 1 then
         (case instruction of
            Lw rd \<Rightarrow>
              bindR (get_index (claim_complete hplic) (unat context)) (\<lambda>irq.
              bindR (ctx_set (unat rd) (ucast irq) m) (\<lambda>m'.
              Inr (Inr (), self, m')))
          | Sw rs2 \<Rightarrow>
              bindR (ctx_get (unat rs2) m) (\<lambda>v.
              let m1 = log_event (MmioWrite guest_pa (ucast v)) m in
              bindR (set_index (claim_complete hplic) (unat context) 0) (\<lambda>cc.
              Inr (Inr (), self\<lparr>host_plic := Some (hplic\<lparr>claim_complete := cc\<rparr>)\<rparr>,
                   on_hart (clear_csr Hvip VSEIP) m1)))
          | _ \<Rightarrow> Inr (Inl UnexpectedInst, self, m))
       else Inr (Inr (), self, m)
     else Inl ExplicitPanic)"

end
