(* ===== verification/Sbi.thy ===== *)
theory Sbi
  imports Plic
begin

text \<open>
  \<^verbatim>\<open>src/sbi.rs\<close>, the hypervisor's own calls of the firmware, and
  \<^verbatim>\<open>src/guest/sbi.rs\<close>, the calls a guest makes of the hypervisor. Every call of
  the firmware is an event and its answer comes from the environment.
\<close>

section \<open>Constants\<close>

definition SBI_CONSOLE_PUTCHAR :: usize where [simp]: "SBI_CONSOLE_PUTCHAR = 1"
definition SBI_CONSOLE_GETCHAR :: usize where [simp]: "SBI_CONSOLE_GETCHAR = 2"
definition SBI_SET_TIMER :: usize where [simp]: "SBI_SET_TIMER = 0"
definition SBI_SUCCESS :: usize where [simp]: "SBI_SUCCESS = 0"
definition SBI_ERR_FAILUER :: usize where [simp]: "SBI_ERR_FAILUER = - 1"
definition SBI_ERR_NOT_SUPPORTED :: usize where [simp]: "SBI_ERR_NOT_SUPPORTED = - 2"
definition SBI_ERR_INAVLID_PARAM :: usize where [simp]: "SBI_ERR_INAVLID_PARAM = - 3"
definition SBI_ERR_DENIED :: usize where [simp]: "SBI_ERR_DENIED = - 4"
definition SBI_ERR_INVALID_ADDRESS :: usize where [simp]: "SBI_ERR_INVALID_ADDRESS = - 5"
definition SBI_ERR_ALREADY_AVAILABLE :: usize where [simp]: "SBI_ERR_ALREADY_AVAILABLE = - 6"
definition SBI_EXTID_BASE :: usize where [simp]: "SBI_EXTID_BASE = 0x10"
definition SBI_GET_SBI_SPEC_VERSION_FID :: usize where [simp]: "SBI_GET_SBI_SPEC_VERSION_FID = 0"
definition SBI_GET_SBI_IMPL_ID_FID :: usize where [simp]: "SBI_GET_SBI_IMPL_ID_FID = 1"
definition SBI_GET_SBI_IMPL_VERSION_FID :: usize where [simp]: "SBI_GET_SBI_IMPL_VERSION_FID = 2"
definition SBI_PROBE_EXTENSION_FID :: usize where [simp]: "SBI_PROBE_EXTENSION_FID = 3"
definition SBI_GET_MVENDORID_FID :: usize where [simp]: "SBI_GET_MVENDORID_FID = 4"
definition SBI_GET_MARCHID_FID :: usize where [simp]: "SBI_GET_MARCHID_FID = 5"
definition SBI_GET_MIMPID_FID :: usize where [simp]: "SBI_GET_MIMPID_FID = 6"
definition SBI_EXTID_TIME :: usize where [simp]: "SBI_EXTID_TIME = 0x54494D45"
definition SBI_SET_TIMER_FID :: usize where [simp]: "SBI_SET_TIMER_FID = 0x0"
definition SBI_EXTID_IPI :: usize where [simp]: "SBI_EXTID_IPI = 0x735049"
definition SBI_SEND_IPI_FID :: usize where [simp]: "SBI_SEND_IPI_FID = 0x0"
definition SBI_EXTID_HSM :: usize where [simp]: "SBI_EXTID_HSM = 0x48534D"
definition SBI_HART_START_FID :: usize where [simp]: "SBI_HART_START_FID = 0"
definition SBI_HART_STOP_FID :: usize where [simp]: "SBI_HART_STOP_FID = 1"
definition SBI_HART_STATUS_FID :: usize where [simp]: "SBI_HART_STATUS_FID = 2"
definition SBI_EXTID_RFNC :: usize where [simp]: "SBI_EXTID_RFNC = 0x52464E43"
definition SBI_REMOTE_FENCE_I_FID :: usize where [simp]: "SBI_REMOTE_FENCE_I_FID = 0"
definition SBI_REMOTE_SFENCE_VMA_FID :: usize where [simp]: "SBI_REMOTE_SFENCE_VMA_FID = 1"
definition SBI_REMOTE_SFENCE_VMA_ASID_FID :: usize where [simp]: "SBI_REMOTE_SFENCE_VMA_ASID_FID = 2"
definition SBI_REMOTE_HFENCE_GVMA_FID :: usize where [simp]: "SBI_REMOTE_HFENCE_GVMA_FID = 3"
definition SBI_REMOTE_HFENCE_GVMA_VMID_FID :: usize where [simp]: "SBI_REMOTE_HFENCE_GVMA_VMID_FID = 4"
definition SBI_REMOTE_HFENCE_VVMA_FIDL :: usize where [simp]: "SBI_REMOTE_HFENCE_VVMA_FIDL = 5"
definition SBI_REMOTE_HFENCE_VVMA_ASID_FID :: usize where [simp]: "SBI_REMOTE_HFENCE_VVMA_ASID_FID = 6"

section \<open>Calls of the firmware\<close>

definition do_ecall :: "env \<Rightarrow> usize \<Rightarrow> usize \<Rightarrow> usize list \<Rightarrow> machine \<Rightarrow> (usize \<times> usize) \<times> machine" where
  "do_ecall E eid fid args m = (sbi_ecall E (events m) eid fid args, log_event (Ecall eid fid args) m)"

definition do_rt :: "env \<Rightarrow> rt_call \<Rightarrow> machine \<Rightarrow> usize \<times> machine" where
  "do_rt E c m = (sbi_rt E (events m) c, log_event (RtCall c) m)"

text \<open>\<open>li x16, 0\<close> makes the function number zero.\<close>

definition sbi_call :: "env \<Rightarrow> usize \<Rightarrow> usize \<Rightarrow> usize \<Rightarrow> usize \<Rightarrow> machine \<Rightarrow> usize \<times> machine" where
  "sbi_call E which arg0 arg1 arg2 m =
     (let (r, m') = do_ecall E which 0 [arg0, arg1, arg2] m in (fst r, m'))"

definition console_putchar :: "env \<Rightarrow> usize \<Rightarrow> machine \<Rightarrow> machine" where
  "console_putchar E c m = snd (sbi_call E SBI_CONSOLE_PUTCHAR c 0 0 m)"

definition console_getchar :: "env \<Rightarrow> machine \<Rightarrow> usize \<times> machine" where
  "console_getchar E m = sbi_call E SBI_CONSOLE_GETCHAR 0 0 0 m"

definition set_timer :: "env \<Rightarrow> usize \<Rightarrow> machine \<Rightarrow> machine" where
  "set_timer E stime m = snd (do_rt E (Rt_set_timer stime) m)"

section \<open>Calls of a guest\<close>

record SbiRet =
  sbi_error :: usize
  sbi_value :: usize

definition sbi_call_1 :: "env \<Rightarrow> usize \<Rightarrow> usize \<Rightarrow> usize \<Rightarrow> machine \<Rightarrow> SbiRet \<times> machine" where
  "sbi_call_1 E eid fid arg0 m =
     (let ((err, val), m') = do_ecall E eid fid [arg0] m in (\<lparr>sbi_error = err, sbi_value = val\<rparr>, m'))"

definition sbi_rt_value :: "env \<Rightarrow> rt_call \<Rightarrow> machine \<Rightarrow> SbiRet \<times> machine" where
  "sbi_rt_value E c m = (let (v, m') = do_rt E c m in (\<lparr>sbi_error = SBI_SUCCESS, sbi_value = v\<rparr>, m'))"

definition sbi_base_handler :: "env \<Rightarrow> usize \<Rightarrow> machine \<Rightarrow> (SbiRet \<times> machine) result" where
  "sbi_base_handler E fid m =
     (if fid = SBI_GET_SBI_SPEC_VERSION_FID then Inr (sbi_call_1 E SBI_EXTID_BASE fid 0 m)
      else if fid = SBI_GET_SBI_IMPL_ID_FID then Inr (sbi_rt_value E Rt_get_sbi_impl_id m)
      else if fid = SBI_GET_SBI_IMPL_VERSION_FID then Inr (sbi_rt_value E Rt_get_sbi_impl_version m)
      else if fid = SBI_PROBE_EXTENSION_FID then
        bindR (ctx_get (gpr_index A0) m) (\<lambda>extension. Inr (sbi_call_1 E SBI_EXTID_BASE fid extension m))
      else if fid = SBI_GET_MVENDORID_FID then Inr (sbi_rt_value E Rt_get_mvendorid m)
      else if fid = SBI_GET_MARCHID_FID then Inr (sbi_rt_value E Rt_get_marchid m)
      else if fid = SBI_GET_MIMPID_FID then Inr (sbi_rt_value E Rt_get_mimpid m)
      else Inl ExplicitPanic)"

definition sbi_console_putchar_handler :: "env \<Rightarrow> usize \<Rightarrow> machine \<Rightarrow> SbiRet \<times> machine" where
  "sbi_console_putchar_handler E c m =
     (\<lparr>sbi_error = SBI_SUCCESS, sbi_value = 0\<rparr>, console_putchar E c m)"

definition sbi_console_getchar_handler :: "env \<Rightarrow> machine \<Rightarrow> SbiRet \<times> machine" where
  "sbi_console_getchar_handler E m =
     (let (c, m') = console_getchar E m in (\<lparr>sbi_error = SBI_SUCCESS, sbi_value = c\<rparr>, m'))"

definition arm_timer :: "env \<Rightarrow> usize \<Rightarrow> machine \<Rightarrow> machine" where
  "arm_timer E stime m = on_hart (\<lambda>h. set_csr Sie STIP (clear_csr Hvip VSTIP h)) (set_timer E stime m)"

definition sbi_time_handler :: "env \<Rightarrow> usize \<Rightarrow> usize \<Rightarrow> machine \<Rightarrow> SbiRet \<times> machine" where
  "sbi_time_handler E stime fid m =
     (if fid \<noteq> SBI_SET_TIMER_FID then (\<lparr>sbi_error = SBI_ERR_NOT_SUPPORTED, sbi_value = 0\<rparr>, m)
      else (\<lparr>sbi_error = SBI_SUCCESS, sbi_value = 0\<rparr>, arm_timer E stime m))"

definition sbi_legacy_set_time :: "env \<Rightarrow> usize \<Rightarrow> machine \<Rightarrow> SbiRet \<times> machine" where
  "sbi_legacy_set_time E stime m =
     (\<lparr>sbi_error = SBI_SUCCESS, sbi_value = 0\<rparr>, arm_timer E stime m)"

definition sbi_dispatch :: "env \<Rightarrow> usize \<Rightarrow> usize \<Rightarrow> machine \<Rightarrow> (SbiRet \<times> machine) result" where
  "sbi_dispatch E ext_id fid m =
     (if ext_id = SBI_EXTID_BASE then sbi_base_handler E fid m
      else if ext_id = SBI_EXTID_TIME then
        bindR (ctx_get (gpr_index A0) m) (\<lambda>a0. Inr (sbi_time_handler E a0 fid m))
      else if ext_id = SBI_CONSOLE_PUTCHAR then
        bindR (ctx_get (gpr_index A0) m) (\<lambda>a0. Inr (sbi_console_putchar_handler E a0 m))
      else if ext_id = SBI_CONSOLE_GETCHAR then Inr (sbi_console_getchar_handler E m)
      else if ext_id = SBI_SET_TIMER then
        bindR (ctx_get (gpr_index A0) m) (\<lambda>a0. Inr (sbi_legacy_set_time E a0 m))
      else Inl ExplicitPanic)"

definition sbi_vs_handler :: "env \<Rightarrow> machine \<Rightarrow> (unit VmmResult \<times> machine) result" where
  "sbi_vs_handler E m =
     bindR (ctx_get (gpr_index A7) m) (\<lambda>ext_id.
     bindR (ctx_get (gpr_index A6) m) (\<lambda>fid.
     bindR (sbi_dispatch E ext_id fid m) (\<lambda>(sbi_ret, m1).
     bindR (ctx_set (gpr_index A0) (sbi_error sbi_ret) m1) (\<lambda>m2.
     bindR (ctx_set (gpr_index A1) (sbi_value sbi_ret) m2) (\<lambda>m3.
     Inr (Inr (), m3))))))"

end
