(* ===== verification/Sv39_Walk.thy ===== *)
theory Sv39_Walk
  imports Sv39_Correct
begin

text \<open>
  The two readers of a page table agree: \<open>walk_page_table\<close>, which goes through raw
  reads the way the hardware does, and \<open>translate_va\<close>, which goes through
  \<open>find_pte\<close>. Also the \<open>satp\<close> token.
\<close>

section \<open>Tokens\<close>

lemma token_root: "ppn_ok (root_ppn pt) \<Longrightarrow> root_ppn (from_token (token pt)) = root_ppn pt"
proof -
  assume ok: "ppn_ok (root_ppn pt)"
  have "\<not> bit (push_bit 60 (8::usize)) n" if "n < 44" for n
    using that by (simp only: bit_push_bit_iff) simp
  then have "(push_bit 60 8 OR ppn_0 (root_ppn pt)) AND (push_bit 44 1 - 1) = ppn_0 (root_ppn pt)"
    unfolding push_one_minus_one
    by (intro bit_word_eqI) (use ppn_ok_bit [OF ok] in \<open>auto simp only: bit_and_iff bit_or_iff bit_mask_iff possible_bit_word\<close>)
  then show ?thesis using ok by (simp only: from_token_def token_def PageTableSv39.simps PhysPageNum_from_id)
qed

lemma token_mode: "ppn_ok (root_ppn pt) \<Longrightarrow> drop_bit 60 (token pt) = 8"
proof -
  assume ok: "ppn_ok (root_ppn pt)"
  have "drop_bit 60 (ppn_0 (root_ppn pt)) = 0"
    using ok by (simp add: usize_eq_iff_unat unat_drop_bit ppn_ok_def)
  then show ?thesis by (simp add: token_def drop_bit_or)
qed

section \<open>\<open>translate_va\<close>\<close>

lemma page_plus_offset:
  assumes "ppn_ok p"
  shows "checked_add (push_bit 12 (ppn_0 p)) (va AND 0xfff) = Inr (push_bit 12 (ppn_0 p) OR (va AND 0xfff))"
proof -
  have "unat (push_bit 12 (ppn_0 p)) = unat (ppn_0 p) * 4096" "unat (va AND 0xfff) < 4096"
    using assms by (simp_all add: page_shift_value ppn_ok_def unat_and_4095)
  then have "unat (push_bit 12 (ppn_0 p)) + unat (va AND 0xfff) < 2 ^ 64"
    using assms by (simp add: ppn_ok_def)
  moreover have "push_bit 12 (ppn_0 p) AND (va AND 0xfff) = 0"
    by (rule bit_word_eqI) (auto simp: mask_numerals bit_simps simp del: mask_numerals [symmetric])
  then have "push_bit 12 (ppn_0 p) + (va AND 0xfff) = push_bit 12 (ppn_0 p) OR (va AND 0xfff)"
    by (rule disjunctive_add_eq_or)
  ultimately show ?thesis by (simp add: checked_add_def)
qed

lemma translate_va_eq:
  "sv39_translate_va pt va s = Inr (map_option
     (\<lambda>t. push_bit 12 (ppn_0 (pte_ppn (pte_at (mem s) t (vpn_leaf (VirtPageNum_from (drop_bit 12 va)))))) OR
          (va AND 0xfff))
     (table_at (mem s) (root_ppn pt) (vpn_path (VirtPageNum_from (drop_bit 12 va)))))"
  unfolding sv39_translate_va_def Let_def sv39_translate_eq
  by (cases "table_at (mem s) (root_ppn pt) (vpn_path (VirtPageNum_from (drop_bit 12 va)))")
     (simp_all add: page_plus_offset [OF pte_ppn_ok])

section \<open>The walk\<close>

definition walk_index :: "nat \<Rightarrow> usize \<Rightarrow> usize" where
  "walk_index level va = drop_bit (30 - 9 * level) va AND 0x1ff"

lemma walk_index_levels:
  "walk_index 0 va = hd (vpn_path (VirtPageNum_from (drop_bit 12 va)))"
  "walk_index 1 va = last (vpn_path (VirtPageNum_from (drop_bit 12 va)))"
  "walk_index 2 va = vpn_leaf (VirtPageNum_from (drop_bit 12 va))"
  unfolding walk_index_def vpn_path_def vpn_leaf_def list.sel last.simps VirtPageNum_from_def VirtPageNum.sel
    push_one_minus_one VPN_WIDTH_SV39_def VA_WIDTH_SV39_def PAGE_SIZE_BITS_def
  by (rule bit_word_eqI; auto simp: mask_numerals bit_simps simp del: mask_numerals [symmetric])+

lemmas walk_index_path = walk_index_levels walk_index_levels(2) [unfolded One_nat_def]

lemma walk_step:
  assumes t: "ppn_ok t" and level: "level < 3" and rd: "\<And>a. rd a = Inr (read_u64 m a)"
    and i_def: "i = walk_index level va"
  shows "\<exists>w. pw_pte w = pte_at m t i \<and> walk_loop rd va (level # ls) path (push_bit 12 (ppn_0 t)) =
    (let e = pte_at m t i in
     if \<not> pte_valid e \<or> bit (pte_bits e) 2 \<and> \<not> bit (pte_bits e) 1 then Inr None
     else if bit (pte_bits e) 1 \<or> bit (pte_bits e) 3 then
       Inr (Some \<lparr>walk_path = path @ [w], walk_pa = leaf_pa (projr (level_of level)) e va\<rparr>)
     else walk_loop rd va ls (path @ [w]) (push_bit 12 (drop_bit 10 (pte_bits e))))"
proof -
  have i: "unat i < 512" by (simp add: i_def walk_index_def unat_and_511)
  have mul: "checked_mul i 8 = Inr (i * 8)" "unat (i * 8) = unat i * 8"
    using i by (simp_all add: checked_mul_def unat_mul_no_wrap)
  have "unat (push_bit 12 (ppn_0 t)) = unat (ppn_0 t) * 4096"
    using t by (simp add: page_shift_value ppn_ok_def)
  then have add: "checked_add (push_bit 12 (ppn_0 t)) (i * 8) = Inr (pte_addr t i)"
    using t i mul(2) by (simp add: checked_add_def pte_addr_def PhysAddr_from_PhysPageNum_def ppn_ok_def)
  obtain lv where lv: "level_of level = Inr lv" 
    using level by (cases "level = 0"; cases "level = 1"; cases "level = 2") (auto simp: level_of_def)
  have idx: "drop_bit (30 - 9 * level) va AND 0x1ff = i" by (simp add: i_def walk_index_def)
  show ?thesis
    by (rule exI [of _ "\<lparr>pw_addr = pte_addr t i, pw_pte = pte_at m t i, pw_level = lv\<rparr>"])
       (simp add: Let_def idx mul(1) add rd lv pte_valid_def pte_at_def load_pte_def)
qed

declare walk_loop.simps(2) [simp del]

lemma walk_inner:
  assumes "ppn_ok t" "level < 3" "\<And>a. rd a = Inr (read_u64 m a)" "i = walk_index level va"
    and ptr: "pte_valid (pte_at m t i) \<Longrightarrow> drop_bit 10 (pte_bits (pte_at m t i)) = ppn_0 q \<and>
      \<not> bit (pte_bits (pte_at m t i)) 1 \<and> \<not> bit (pte_bits (pte_at m t i)) 2 \<and>
      \<not> bit (pte_bits (pte_at m t i)) 3"
  shows "\<exists>w. walk_loop rd va (level # ls) path (push_bit 12 (ppn_0 t)) =
    (if pte_valid (pte_at m t i) then walk_loop rd va ls (path @ [w]) (push_bit 12 (ppn_0 q)) else Inr None)"
proof -
  obtain w where "walk_loop rd va (level # ls) path (push_bit 12 (ppn_0 t)) =
    (let e = pte_at m t i in
     if \<not> pte_valid e \<or> bit (pte_bits e) 2 \<and> \<not> bit (pte_bits e) 1 then Inr None
     else if bit (pte_bits e) 1 \<or> bit (pte_bits e) 3 then
       Inr (Some \<lparr>walk_path = path @ [w], walk_pa = leaf_pa (projr (level_of level)) e va\<rparr>)
     else walk_loop rd va ls (path @ [w]) (push_bit 12 (drop_bit 10 (pte_bits e))))"
    using walk_step [OF assms(1-4)] by blast
  with ptr show ?thesis by (intro exI [of _ w]) (simp add: Let_def)
qed

lemma pte_bits_new_V: "drop_bit 10 (pte_bits (PageTableEntry_new p PTEFlags_V)) = ppn_0 p" if "ppn_ok p"
  by (rule bit_word_eqI)
     (use ppn_ok_bit [OF that] in \<open>fastforce simp: bit_simps PageTableEntry_new_def\<close>)

text \<open>What the walk finds, in terms of the view.\<close>

definition walk_result :: "PageTableEntry option \<Rightarrow> usize \<Rightarrow> usize option" where
  "walk_result e va = (case e of None \<Rightarrow> None
     | Some e \<Rightarrow> if bit (pte_bits e) 1 \<or> bit (pte_bits e) 3 \<and> \<not> bit (pte_bits e) 2
                 then Some (leaf_pa Level4KB e va) else None)"

definition walk_pte :: "PageWalk \<Rightarrow> PageTableEntry" where
  "walk_pte w = pw_pte (last (walk_path w))"

lemma walk_page_table_view:
  assumes inv: "sv39_inv base pt s" and rd: "\<And>a. rd a = Inr (read_u64 (mem s) a)"
  shows "\<exists>r. walk_page_table (push_bit 12 (ppn_0 (root_ppn pt))) va rd = Inr r \<and>
    map_option walk_pa r = walk_result (sv39_view pt s (VirtPageNum_from (drop_bit 12 va))) va \<and>
    (\<forall>w. r = Some w \<longrightarrow> sv39_view pt s (VirtPageNum_from (drop_bit 12 va)) = Some (walk_pte w))"
proof -
  let ?m = "mem s" and ?v = "VirtPageNum_from (drop_bit 12 va)" and ?r = "root_ppn pt"
  note tree = sv39_inv_parts(3) [OF inv]
  have inner: "drop_bit 10 (pte_bits (pte_at ?m t i)) = ppn_0 (pte_ppn (pte_at ?m t i)) \<and>
      \<not> bit (pte_bits (pte_at ?m t i)) 1 \<and> \<not> bit (pte_bits (pte_at ?m t i)) 2 \<and>
      \<not> bit (pte_bits (pte_at ?m t i)) 3 \<and> table_at ?m ?r (\<pi> @ [i]) = Some (pte_ppn (pte_at ?m t i))"
    if h: "path_ok (\<pi> @ [i])" "table_at ?m ?r \<pi> = Some t" "pte_valid (pte_at ?m t i)" for \<pi> i t
  proof -
    obtain q where q: "pte_at ?m t i = PageTableEntry_new q PTEFlags_V" "ppn_ok q"
      using tree_ok_inner [OF tree h] pte_ppn_ok by metis
    then show ?thesis using h by (simp add: table_at_snoc pte_bits_new_V pte_ppn_new)
  qed
  have root: "ppn_ok ?r" using tree_ok_ppn [OF tree tree_ok_in [OF tree path_ok_Nil]] by simp
  let ?i = "walk_index 0 va" and ?j = "walk_index 1 va"
  have p1: "path_ok ([] @ [?i])" and p2: "path_ok ([?i] @ [?j])" and path: "[?i] @ [?j] = vpn_path ?v"
    by (simp_all add: walk_index_path)
  have three: "[0..<3] = [0, 1, 2::nat]" by (simp add: upt_rec)
  define t1 where "t1 = pte_ppn (pte_at ?m ?r ?i)"
  define t2 where "t2 = pte_ppn (pte_at ?m t1 ?j)"
  have ok: "ppn_ok t1" "ppn_ok t2" by (simp_all add: t1_def t2_def)
  have root_at: "table_at ?m ?r [] = Some ?r" by simp
  obtain w1 where w1: "walk_page_table (push_bit 12 (ppn_0 ?r)) va rd =
      (if pte_valid (pte_at ?m ?r ?i) then walk_loop rd va [1, 2] ([] @ [w1]) (push_bit 12 (ppn_0 t1)) else Inr None)"
    unfolding walk_page_table_def three
    using walk_inner [OF root _ rd refl, of 0 va t1 "[1, 2]" "[]"] inner [OF p1 root_at, folded t1_def] by auto
  show ?thesis
  proof (cases "pte_valid (pte_at ?m ?r ?i)")
    case False
    then have "table_at ?m ?r ([] @ [?i]) = None" by (simp add: table_at.simps)
    then have "table_at ?m ?r (vpn_path ?v) = None"
      using table_at_prefix [of ?m ?r ?v] by (cases "table_at ?m ?r (vpn_path ?v)") (auto simp: walk_index_path)
    then show ?thesis using False w1 by (simp add: walk_result_def sv39_view_def leaf_at_def)
  next
    case True
    have t1: "table_at ?m ?r [?i] = Some t1" using inner [OF p1 root_at True] by (simp add: t1_def)
    obtain w2 where w2: "walk_loop rd va [1, 2] ([] @ [w1]) (push_bit 12 (ppn_0 t1)) =
      (if pte_valid (pte_at ?m t1 ?j) then walk_loop rd va [2] (([] @ [w1]) @ [w2]) (push_bit 12 (ppn_0 t2)) else Inr None)"
      using walk_inner [OF ok(1) _ rd refl, of 1 va t2 "[2]" "[] @ [w1]"] inner [OF p2 t1, folded t2_def] by auto
    show ?thesis
    proof (cases "pte_valid (pte_at ?m t1 ?j)")
      case False
      then have "table_at ?m ?r ([?i] @ [?j]) = None" using t1 by (simp only: table_at_snoc) simp
      then show ?thesis unfolding path using False True w1 w2
        by (simp add: walk_result_def sv39_view_def leaf_at_def)
    next
      case valid: True
      have t2: "table_at ?m ?r (vpn_path ?v) = Some t2"
        using inner [OF p2 t1 valid] unfolding path by (simp add: t2_def)
      have "walk_page_table (push_bit 12 (ppn_0 ?r)) va rd = walk_loop rd va [2] (([] @ [w1]) @ [w2]) (push_bit 12 (ppn_0 t2))"
        using w1 w2 True valid by simp
      then show ?thesis
        using walk_step [OF ok(2) _ rd refl, of 2 va "[]" "([] @ [w1]) @ [w2]"] t2
        by (auto simp: walk_result_def walk_pte_def sv39_view_def leaf_at_def Let_def level_of_def walk_index_path)
    qed
  qed
qed

text \<open>The physical addresses agree when the reserved bits of the entry are clear.\<close>

lemma leaf_pa_4kb:
  assumes "unat (pte_bits e) < 2 ^ 54"
  shows "leaf_pa Level4KB e va = push_bit 12 (ppn_0 (pte_ppn e)) OR (va AND 0xfff)"
proof -
  have "unat (drop_bit 10 (pte_bits e)) < 2 ^ 44"
    using assms by (simp add: unat_drop_bit less_mult_imp_div_less)
  then have "ppn_0 (pte_ppn e) = drop_bit 10 (pte_bits e)"
    by (simp add: pte_ppn_def push_one_minus_one usize_eq_iff_unat unat_PhysPageNum_from unat_and_mask
        del: push_bit_of_1)
  then show ?thesis by (simp add: leaf_pa_def)
qed

section \<open>Properties\<close>

lemma tiny_mapped:
  obtains pt and s :: world where "sv39_inv 0x80 pt s" "sv39_view pt s (VirtPageNum 6) = None"
    "sv39_view pt s (VirtPageNum 5) = Some (PageTableEntry_new (PhysPageNum 7) (PTEFlags_R OR PTEFlags_V))"
proof -
  have ok: "vpn_ok (VirtPageNum 5)" by (simp add: vpn_ok_def)
  have "sv39_need tiny_table tiny_world (VirtPageNum 5) \<le> free_frames tiny_world"
    by (simp add: sv39_need_def tiny_free)
  then obtain pt and s :: world where "sv39_inv 0x80 pt s" "sv39_view pt s =
      (sv39_view tiny_table tiny_world)(VirtPageNum 5 \<mapsto> PageTableEntry_new (PhysPageNum 7) (PTEFlags_R OR PTEFlags_V))"
    using sv39_map_new [OF tiny_inv ok tiny_free(1)] by blast
  then show thesis using that [of pt s] tiny_free(1) by simp
qed

text \<open>
  C22. The walk that reads raw page-table words the way the hardware does finds a
  mapped page exactly when the view has it with a legal leaf encoding (readable, or
  executable and not writable), and then at the address that \<open>translate_va\<close> gives,
  provided that the reserved bits of the entry (54 and up) are clear: the walk does
  not mask them out of the page number. For the root of a well-formed table and
  every virtual address.
\<close>

theorem walk_agrees_with_translate_va:
  assumes "sv39_inv base pt s" "\<And>a. read_pte a = Inr (read_u64 (mem s) a)"
  shows "\<exists>r. walk_page_table (push_bit 12 (ppn_0 (root_ppn pt))) va read_pte = Inr r \<and>
    (case sv39_view pt s (VirtPageNum_from (drop_bit 12 va)) of
       None \<Rightarrow> r = None
     | Some e \<Rightarrow>
         if bit (pte_bits e) 1 \<or> bit (pte_bits e) 3 \<and> \<not> bit (pte_bits e) 2
         then \<exists>w. r = Some w \<and>
           (unat (pte_bits e) < 2 ^ 54 \<longrightarrow> sv39_translate_va pt va s = Inr (Some (walk_pa w)))
         else r = None)"
proof -
  let ?v = "VirtPageNum_from (drop_bit 12 va)"
  obtain r where r: "walk_page_table (push_bit 12 (ppn_0 (root_ppn pt))) va read_pte = Inr r"
    "map_option walk_pa r = walk_result (sv39_view pt s ?v) va"
    using walk_page_table_view [OF assms] by blast
  show ?thesis
  proof (cases "sv39_view pt s ?v")
    case None
    then show ?thesis using r by (simp add: walk_result_def)
  next
    case (Some e)
    then obtain t where t: "table_at (mem s) (root_ppn pt) (vpn_path ?v) = Some t"
      "pte_at (mem s) t (vpn_leaf ?v) = e" by (rule view_table)
    have "sv39_translate_va pt va s = Inr (Some (leaf_pa Level4KB e va))" if "unat (pte_bits e) < 2 ^ 54"
      using t leaf_pa_4kb [OF that] by (simp add: translate_va_eq)
    then show ?thesis using r Some by (auto simp: walk_result_def)
  qed
qed

theorem walk_agrees_with_translate_va_witness:
  "\<exists>pt (s::world). (\<exists>w. walk_page_table (push_bit 12 (ppn_0 (root_ppn pt))) 0x5678 (\<lambda>a. Inr (read_u64 (mem s) a)) = Inr (Some w) \<and>
      sv39_translate_va pt 0x5678 s = Inr (Some (walk_pa w))) \<and>
     walk_page_table (push_bit 12 (ppn_0 (root_ppn pt))) 0x6678 (\<lambda>a. Inr (read_u64 (mem s) a)) = Inr None"
proof -
  obtain pt and s :: world where m: "sv39_inv 0x80 pt s" "sv39_view pt s (VirtPageNum 6) = None"
    "sv39_view pt s (VirtPageNum 5) = Some (PageTableEntry_new (PhysPageNum 7) (PTEFlags_R OR PTEFlags_V))"
    by (rule tiny_mapped)
  have e: "pte_bits (PageTableEntry_new (PhysPageNum 7) (PTEFlags_R OR PTEFlags_V)) = 0x1c03" by code_simp
  have b: "bit (0x1c03 :: usize) 1" "unat (0x1c03 :: usize) < 2 ^ 54" by (simp_all add: bit_iff_odd)
  have v: "VirtPageNum_from (drop_bit 12 0x5678) = VirtPageNum 5" "VirtPageNum_from (drop_bit 12 0x6678) = VirtPageNum 6"
    by (simp_all add: VirtPageNum_from_def)
  note w = walk_agrees_with_translate_va [OF m(1), of "\<lambda>a. Inr (read_u64 (mem s) a)", OF refl]
  show ?thesis
    using w [of "0x5678"] w [of "0x6678"] b unfolding v m(2,3) option.case e
    by (intro exI [of _ pt] exI [of _ s]) auto
qed

text \<open>
  C34. \<open>translate_va\<close> does not look at the valid bit of the leaf entry: for a page that is
  not mapped but whose leaf table exists it answers with an address, where the walk
  finds nothing. The address is made of the page number of the invalid entry and the
  offset in the page.
\<close>

theorem translate_va_ignores_valid_bit:
  assumes "sv39_inv base pt s" "sv39_view pt s (VirtPageNum_from (drop_bit 12 va)) = None"
    and "table_at (mem s) (root_ppn pt) (vpn_path (VirtPageNum_from (drop_bit 12 va))) = Some t"
  shows "sv39_translate_va pt va s = Inr (Some
      (push_bit 12 (ppn_0 (pte_ppn (pte_at (mem s) t (vpn_leaf (VirtPageNum_from (drop_bit 12 va)))))) OR (va AND 0xfff))) \<and>
    walk_page_table (push_bit 12 (ppn_0 (root_ppn pt))) va (\<lambda>a. Inr (read_u64 (mem s) a)) = Inr None"
proof -
  obtain r where "walk_page_table (push_bit 12 (ppn_0 (root_ppn pt))) va (\<lambda>a. Inr (read_u64 (mem s) a)) = Inr r"
    "map_option walk_pa r = None"
    using walk_page_table_view [OF assms(1) refl, of va] assms(2) by (auto simp: walk_result_def)
  then show ?thesis using assms(3) by (simp add: translate_va_eq)
qed

theorem translate_va_ignores_valid_bit_witness:
  "\<exists>pt (s::world) pa. sv39_inv 0x80 pt s \<and> sv39_view pt s (VirtPageNum 6) = None \<and>
     sv39_translate_va pt 0x6000 s = Inr (Some pa) \<and>
     walk_page_table (push_bit 12 (ppn_0 (root_ppn pt))) 0x6000 (\<lambda>a. Inr (read_u64 (mem s) a)) = Inr None"
proof -
  obtain pt and s :: world where m: "sv39_inv 0x80 pt s" "sv39_view pt s (VirtPageNum 6) = None"
    "sv39_view pt s (VirtPageNum 5) = Some (PageTableEntry_new (PhysPageNum 7) (PTEFlags_R OR PTEFlags_V))"
    by (rule tiny_mapped)
  obtain t where "table_at (mem s) (root_ppn pt) (vpn_path (VirtPageNum 5)) = Some t" using m(3) by (rule view_table)
  then have t: "table_at (mem s) (root_ppn pt) (vpn_path (VirtPageNum 6)) = Some t" by (simp add: vpn_path_def)
  have v: "VirtPageNum_from (drop_bit 12 0x6000) = VirtPageNum 6" by (simp add: VirtPageNum_from_def)
  from translate_va_ignores_valid_bit [OF m(1), of "0x6000" t, unfolded v, OF m(2) t] m(1,2) show ?thesis by blast
qed

text \<open>
  C39. The token round trip: the root of a page table is read back from the \<open>satp\<close> value
  that \<open>token\<close> makes, and the mode field of that value is 8, Sv39.
\<close>

theorem token_roundtrip:
  assumes "sv39_inv base pt s"
  shows "root_ppn (from_token (token pt)) = root_ppn pt \<and> drop_bit 60 (token pt) = 8"
proof -
  note tree = sv39_inv_parts(3) [OF assms]
  have "ppn_ok (root_ppn pt)" using tree_ok_ppn [OF tree tree_ok_in [OF tree path_ok_Nil]] by simp
  then show ?thesis by (simp add: token_root token_mode)
qed

theorem token_roundtrip_witness:
  "root_ppn (from_token (token tiny_table)) = root_ppn tiny_table \<and> drop_bit 60 (token tiny_table) = 8"
  by (rule token_roundtrip [OF tiny_inv])

end
