(* ===== verification/Guest_Translation.thy ===== *)
theory Guest_Translation
  imports Hypervisor Sv39_Walk
begin

text \<open>
  Module \<open>pmap\<close> of \<^verbatim>\<open>src/guest/mod.rs\<close> and \<open>translate_guest_va\<close> of
  \<^verbatim>\<open>src/page_table/mod.rs\<close>: the hypervisor's software walk of a guest's own page
  table, the translation through both stages, and the decoding of a guest
  instruction.
\<close>

section \<open>Operations\<close>

definition GUEST_SEGMENT_SIZE :: usize where [simp]: "GUEST_SEGMENT_SIZE = 128 * 1024 * 1024"

definition gpa2hpa :: "usize \<Rightarrow> usize \<Rightarrow> usize result" where
  "gpa2hpa va gid = bindR (checked_mul gid GUEST_SEGMENT_SIZE) (\<lambda>o'. checked_add va o')"

definition hpa2gpa :: "usize \<Rightarrow> usize \<Rightarrow> usize result" where
  "hpa2gpa pa gid = bindR (checked_mul gid GUEST_SEGMENT_SIZE) (\<lambda>o'. checked_sub pa o')"

record AddressTranslation =
  at_pte :: PageTableEntry
  at_pte_addr :: usize
  at_guest_pa :: usize
  at_level :: PageTableLevel
  at_page_walk :: PageWalk

text \<open>
  The walk reads the guest's tables at guest-chosen addresses, as words of \<open>mem\<close>:
  a fault of the hypervisor on an address that its own table does not map, and an
  access to a device that is mapped there, are not in the model.
\<close>

definition translate_guest_va ::
  "('p, 'x world_scheme, 'm) PageTable_scheme \<Rightarrow> usize \<Rightarrow> usize \<Rightarrow> usize \<Rightarrow> 'x world_scheme \<Rightarrow>
   AddressTranslation option result" where
  "translate_guest_va G gid root guest_va s =
     bindR (pt_walk_page_table G root guest_va (\<lambda>va.
       bindR (gpa2hpa va gid) (\<lambda>pa. Inr (read_u64 (mem s) pa)))) (\<lambda>w.
     case w of None \<Rightarrow> Inr None
     | Some t \<Rightarrow>
         if walk_path t = [] then Inl Overflow
         else Inr (Some \<lparr>at_pte = pw_pte (last (walk_path t)), at_pte_addr = pw_addr (last (walk_path t)),
           at_guest_pa = walk_pa t, at_level = pw_level (last (walk_path t)), at_page_walk = t\<rparr>))"

definition guest_stage ::
  "('p, 'x world_scheme, 'm) PageTable_scheme \<Rightarrow> usize \<Rightarrow> usize \<Rightarrow> usize \<Rightarrow> 'x world_scheme \<Rightarrow> usize option result" where
  "guest_stage G gid guest_va vsatp s =
     (let guest_root = push_bit 12 (vsatp AND 0x3ffffffffff) in
      if guest_root \<noteq> 0 then
        bindR (translate_guest_va G gid guest_root guest_va s) (\<lambda>t. Inr (map_option at_guest_pa t))
      else Inr (Some guest_va))"

definition two_stage_translation ::
  "('p, 'x world_scheme, 'm) PageTable_scheme \<Rightarrow> usize \<Rightarrow> usize \<Rightarrow> usize \<Rightarrow> 'p GuestMemorySet \<Rightarrow>
   'x world_scheme \<Rightarrow> usize option result" where
  "two_stage_translation G gid guest_va vsatp gpm' s =
     bindR (guest_stage G gid guest_va vsatp s) (\<lambda>r.
     case r of None \<Rightarrow> Inr None | Some guest_pa \<Rightarrow> ms_translate_va G gpm' guest_pa s)"

definition fast_two_stage_translation ::
  "('p, 'x world_scheme, 'm) PageTable_scheme \<Rightarrow> usize \<Rightarrow> usize \<Rightarrow> usize \<Rightarrow> 'x world_scheme \<Rightarrow> usize option result" where
  "fast_two_stage_translation G gid guest_va vsatp s = guest_stage G gid guest_va vsatp s"

text \<open>The decoder: a length of two or four bytes, anything else is \<open>unreachable!\<close>.\<close>

definition decode_inst :: "env \<Rightarrow> usize \<Rightarrow> (usize \<times> Instruction option) result" where
  "decode_inst E inst =
     (let i1 = ucast inst :: u16; len = instruction_length E i1 in
      bindR (if len = 2 then Inr (ucast i1) else if len = 4 then Inr (ucast inst) else Inl Unreachable) (\<lambda>i.
      Inr (len, decode E i)))"

definition decode_inst_at_addr :: "env \<Rightarrow> usize \<Rightarrow> 'x world_scheme \<Rightarrow> (usize \<times> Instruction option) result" where
  "decode_inst_at_addr E host_va s =
     (let i1 = ucast (read_le 2 (mem s) host_va) :: u16; len = instruction_length E i1 in
      bindR (if len = 2 then Inr (ucast i1) else if len = 4 then Inr (ucast (read_le 4 (mem s) host_va))
             else Inl Unreachable) (\<lambda>i.
      Inr (len, decode E i)))"

end
