(* ===== verification/Vmexit.thy ===== *)
theory Vmexit
  imports Sbi Guest_Translation
begin

text \<open>
  \<^verbatim>\<open>src/guest/vmexit.rs\<close>: what happens between a guest's exit and its next
  instruction. \<open>trap_handler\<close> and \<open>switch_to_guest\<close> do not return in the sources;
  here they end in the state in which they jump. An abort (\<open>Inl\<close>) is where the
  sources panic, which shuts the machine down, or wait for a lock for ever.
\<close>

section \<open>Trap entries\<close>

text \<open>Addresses of functions and labels.\<close>

record trap_symbols =
  sym_alltraps :: usize
  sym_alltraps_k :: usize
  sym_restore :: usize
  sym_trap_handler :: usize
  sym_trap_from_kernel :: usize

definition trampoline_va :: "usize \<Rightarrow> usize \<Rightarrow> usize result" where
  "trampoline_va label alltraps = bindR (checked_sub label alltraps) (\<lambda>off. checked_add off TRAMPOLINE)"

definition set_kernel_trap_entry :: "trap_symbols \<Rightarrow> machine \<Rightarrow> machine result" where
  "set_kernel_trap_entry S m =
     bindR (trampoline_va (sym_alltraps_k S) (sym_alltraps S)) (\<lambda>va.
     Inr (on_hart (\<lambda>h. write_csr Sscratch (sym_trap_from_kernel S) (write_csr Stvec va h)) m))"

definition set_user_trap_entry :: "machine \<Rightarrow> machine" where
  "set_user_trap_entry m = on_hart (write_csr Stvec TRAMPOLINE) m"

definition trap_init :: "trap_symbols \<Rightarrow> machine \<Rightarrow> machine result" where
  "trap_init S m = set_kernel_trap_entry S m"

definition enable_timer_interrupt :: "machine \<Rightarrow> machine" where
  "enable_timer_interrupt m = on_hart (set_csr Sie STIP) m"

definition disable_timer_interrupt :: "machine \<Rightarrow> machine" where
  "disable_timer_interrupt m = on_hart (clear_csr Sie STIP) m"

section \<open>Handlers\<close>

definition privileged_inst_handler :: "machine \<Rightarrow> (unit VmmResult \<times> machine) result" where
  "privileged_inst_handler m = Inl NotYetImplemented"

definition add_sepc :: "usize \<Rightarrow> machine \<Rightarrow> machine result" where
  "add_sepc n m =
     bindR (checked_add (ctx_sepc (trap_ctx m)) n) (\<lambda>v. Inr (m\<lparr>trap_ctx := (trap_ctx m)\<lparr>ctx_sepc := v\<rparr>\<rparr>))"

text \<open>
  The instruction of a faulting access: from \<open>htinst\<close>, or from the guest's memory
  when \<open>htinst\<close> does not say. The guest chooses the address of that read, through its
  program counter and its page table. The model reads \<open>mem\<close> there; it does not have
  the fault of the hypervisor when its own table does not map the address, which
  ends in \<open>trap_from_kernel\<close>, nor the access to a device when a device is mapped there.
\<close>

definition faulting_inst :: "Vmm \<Rightarrow> machine \<Rightarrow> usize VmmResult result" where
  "faulting_inst host_vmm m =
     (let inst = csrs (hart m) Htinst in
      if inst = 0 then
        bindR (fast_two_stage_translation Sv39 (vm_guest_id host_vmm) (ctx_sepc (trap_ctx m)) (csrs (hart m) Vsatp) m)
          (\<lambda>t. case t of Some host_inst_addr \<Rightarrow> Inr (Inr (read_u64 (mem m) host_inst_addr))
             | None \<Rightarrow> Inr (Inl TranslationError))
      else if inst = 0x3020 \<or> inst = 0x3000 then Inr (Inl PseudoInst)
      else Inr (Inr inst))"

definition guest_page_fault_handler ::
  "env \<Rightarrow> Vmm \<Rightarrow> machine \<Rightarrow> (unit VmmResult \<times> Vmm \<times> machine) result" where
  "guest_page_fault_handler E host_vmm m =
     (let addr = push_bit 2 (csrs (hart m) Htval) in
      if is_plic_access addr then
        bindR (faulting_inst host_vmm m) (\<lambda>r.
        case r of Inl err \<Rightarrow> Inr (Inl err, host_vmm, m)
        | Inr inst \<Rightarrow>
            bindR (decode_inst E inst) (\<lambda>(len, i).
            case i of None \<Rightarrow> Inr (Inl DecodeInstError, host_vmm, m)
            | Some i \<Rightarrow>
                bindR (handle_plic_access host_vmm addr i m) (\<lambda>(r, host_vmm', m').
                case r of Inl err \<Rightarrow> Inr (Inl err, host_vmm', m')
                | Inr _ \<Rightarrow> bindR (add_sepc len m') (\<lambda>m''. Inr (Inr (), host_vmm', m'')))))
      else Inr (Inl DeviceNotFound, host_vmm, m))"

definition handle_irq :: "env \<Rightarrow> Vmm \<Rightarrow> machine \<Rightarrow> (Vmm \<times> machine) result" where
  "handle_irq E host_vmm m =
     bindR (unwrap (host_plic host_vmm)) (\<lambda>hplic.
     bindR (checked_mul 2 (vm_guest_id host_vmm)) (\<lambda>d.
     bindR (checked_add d 1) (\<lambda>context_id.
     bindR (checked_add (plic_base_addr hplic) 0x00200004) (\<lambda>a.
     bindR (checked_mul 0x1000 context_id) (\<lambda>o'.
     bindR (checked_add a o') (\<lambda>claim_and_complete_addr.
     let irq = mmio_read32 E (events m) claim_and_complete_addr;
         m1 = log_event (MmioRead claim_and_complete_addr) m in
     bindR (set_index (claim_complete hplic) (unat context_id) irq) (\<lambda>cc.
     Inr (host_vmm\<lparr>host_plic := Some (hplic\<lparr>claim_complete := cc\<rparr>), irq_pending := True\<rparr>,
          on_hart (set_csr Hvip VSEIP) m1))))))))"

definition forward_exception :: "machine \<Rightarrow> machine" where
  "forward_exception m =
     (let m1 = on_hart (\<lambda>h. write_csr Vscause (csrs h Scause) (write_csr Vsepc (ctx_sepc (trap_ctx m)) h)) m in
      m1\<lparr>trap_ctx := (trap_ctx m1)\<lparr>ctx_sepc := csrs (hart m1) Vstvec\<rparr>\<rparr>)"

definition handle_internal_vmm_error :: "VmmError \<Rightarrow> 'a result" where
  "handle_internal_vmm_error err = Inl ExplicitPanic"

section \<open>Back to the guest\<close>

text \<open>
  Install the guest's second-stage table if it is not there. \<open>hfence.gvma\<close> has no
  effect without a translation cache; the register may not hold the value
  written.
\<close>

definition install_hgatp :: "env \<Rightarrow> machine \<Rightarrow> machine result" where
  "install_hgatp E m =
     (let want = ctx_hgatp (trap_ctx m) in
      if csrs (hart m) Hgatp \<noteq> want then
        let m1 = on_hart (write_csr Hgatp (hgatp_legal E want)) m in
        bindR (assertR (want = csrs (hart m1) Hgatp)) (\<lambda>_. Inr m1)
      else Inr m)"

definition switch_to_guest :: "env \<Rightarrow> trap_symbols \<Rightarrow> machine \<Rightarrow> machine result" where
  "switch_to_guest E S m =
     (let m1 = set_user_trap_entry m in
      bindR (install_hgatp E m1) (\<lambda>m2.
      bindR (trampoline_va (sym_restore S) (sym_alltraps S)) (\<lambda>restore_va.
      Inr (on_hart (\<lambda>h. (set_gpr 10 TRAP_CONTEXT h)\<lparr>pc := restore_va\<rparr>) m2))))"

definition run_asm :: "instr list \<Rightarrow> machine \<Rightarrow> machine result" where
  "run_asm code m =
     bindR (exec TRAP_CONTEXT code (hart m, ctx_words (trap_ctx m))) (\<lambda>(h, w).
     Inr (m\<lparr>hart := h, trap_ctx := words_ctx w\<rparr>))"

definition hart_entry_2 :: "machine \<Rightarrow> machine result" where
  "hart_entry_2 m = run_asm hart_entry_2_code m"

definition hart_entry_1 :: "env \<Rightarrow> machine \<Rightarrow> machine result" where
  "hart_entry_1 E m = bindR (install_hgatp E (set_user_trap_entry m)) hart_entry_2"

section \<open>The trap handler\<close>

text \<open>
  The \<open>match\<close> on the cause, with the lock held. The arm of
  \<open>InstructionGuestPageFault\<close> locks \<open>HOST_VMM\<close> a second time.
\<close>

definition handle_trap :: "env \<Rightarrow> Vmm \<Rightarrow> machine \<Rightarrow> (VmmError option \<times> Vmm \<times> machine) result" where
  "handle_trap E host_vmm m =
     (case scause_cause E (csrs (hart m) Scause) of
        Exception UserEnvCall \<Rightarrow> Inl ExplicitPanic
      | Exception VirtualSupervisorEnvCall \<Rightarrow>
          bindR (sbi_vs_handler E m) (\<lambda>(r, m1).
          bindR (add_sepc 4 m1) (\<lambda>m2.
          Inr (case r of Inl err \<Rightarrow> Some err | Inr _ \<Rightarrow> None, host_vmm, m2)))
      | Exception VirtualInstruction \<Rightarrow>
          bindR (privileged_inst_handler m) (\<lambda>(r, m1).
          Inr (case r of Inl err \<Rightarrow> Some err | Inr _ \<Rightarrow> None, host_vmm, m1))
      | Exception InstructionGuestPageFault \<Rightarrow>
          bindR (vmm_lock m) (\<lambda>(host_vmm2, m1).
          let gid = vm_guest_id host_vmm2 in
          bindR (get_index (guests host_vmm2) (unat gid)) (\<lambda>g.
          bindR (unwrap g) (\<lambda>guest.
          bindR (two_stage_translation Sv39 gid (ctx_sepc (trap_ctx m1)) (csrs (hart m1) Vsatp) (gpm guest) m1) (\<lambda>_.
          Inl ExplicitPanic))))
      | Exception LoadGuestPageFault \<Rightarrow>
          bindR (guest_page_fault_handler E host_vmm m) (\<lambda>(r, v1, m1).
          bindR (checked_add (guest_page_falut v1) 1) (\<lambda>n.
          Inr (case r of Inl err \<Rightarrow> Some err | Inr _ \<Rightarrow> None, v1\<lparr>guest_page_falut := n\<rparr>, m1)))
      | Exception StoreGuestPageFault \<Rightarrow>
          bindR (guest_page_fault_handler E host_vmm m) (\<lambda>(r, v1, m1).
          bindR (checked_add (guest_page_falut v1) 1) (\<lambda>n.
          Inr (case r of Inl err \<Rightarrow> Some err | Inr _ \<Rightarrow> None, v1\<lparr>guest_page_falut := n\<rparr>, m1)))
      | Interrupt SupervisorExternal \<Rightarrow>
          bindR (handle_irq E host_vmm m) (\<lambda>(v1, m1).
          bindR (checked_add (external_irq v1) 1) (\<lambda>n.
          Inr (None, v1\<lparr>external_irq := n\<rparr>, m1)))
      | Interrupt SupervisorTimer \<Rightarrow>
          let m1 = on_hart (\<lambda>h. clear_csr Sie STIP (set_csr Hvip VSTIP h)) m in
          bindR (checked_add (timer_irq host_vmm) 1) (\<lambda>n.
          Inr (None, host_vmm\<lparr>timer_irq := n\<rparr>, m1))
      | _ \<Rightarrow> Inr (None, host_vmm, forward_exception m))"

definition trap_handler :: "env \<Rightarrow> trap_symbols \<Rightarrow> machine \<Rightarrow> machine result" where
  "trap_handler E S m =
     bindR (set_kernel_trap_entry S m) (\<lambda>m1.
     bindR (vmm_lock m1) (\<lambda>(host_vmm, m2).
     bindR (handle_trap E host_vmm m2) (\<lambda>(err, v, m3).
     let m4 = vmm_unlock v m3 in
     case err of Some e \<Rightarrow> handle_internal_vmm_error e
     | None \<Rightarrow> switch_to_guest E S m4)))"

text \<open>A trap of the hypervisor itself ends it.\<close>

definition trap_from_kernel :: "env \<Rightarrow> machine \<Rightarrow> 'a result" where
  "trap_from_kernel E m = Inl ExplicitPanic"

text \<open>
  A whole exit: the hart has trapped, \<open>__alltraps\<close> saves the guest and jumps to
  the handler, and \<open>__restore\<close> returns to the guest. The handler is compiled code:
  it leaves anything in every register but \<open>tp\<close>, and in \<open>a0\<close> what \<open>switch_to_guest\<close>
  puts there last. The handler of the model takes nothing from the registers, so
  they may as well be overwritten when it starts.
\<close>

definition clobbered :: "env \<Rightarrow> machine \<Rightarrow> machine" where
  "clobbered E = on_hart (\<lambda>h. clobber ([1, 2, 3] @ [5..<32]) (leftover E h) h)"

definition vm_exit :: "env \<Rightarrow> trap_symbols \<Rightarrow> machine \<Rightarrow> machine result" where
  "vm_exit E S m =
     bindR (run_asm alltraps_code m) (\<lambda>m1.
     bindR (trap_handler E S (clobbered E m1)) (run_asm restore_code))"

end
