(* ===== verification/Framed_Area.thy ===== *)
theory Framed_Area
  imports Guest_Memory
begin

text \<open>
  Framed areas of a memory set (\<^verbatim>\<open>src/mm/memory_set.rs\<close>): \<open>map_one\<close> takes a fresh
  frame for every page and the area keeps its tracker. The frames of the areas
  and the tables of the page table are what a memory set owns; a push extends
  that, and the translations, by the new area's.
\<close>

section \<open>What a memory set owns\<close>

definition area_frames :: "MapArea \<Rightarrow> PhysPageNum set" where
  "area_frames a = ft_ppn ` ran (data_frames a)"

definition ms_frames :: "'p MemorySet \<Rightarrow> PhysPageNum set" where
  "ms_frames ms = (\<Union>a \<in> set (areas ms). area_frames a)"

definition framed_pairs :: "MapArea \<Rightarrow> (VirtPageNum \<times> PageTableEntry) set" where
  "framed_pairs a = {(v, e). \<exists>ft. data_frames a v = Some ft \<and>
     e = PageTableEntry_new (ft_ppn ft) (map_perm a OR PTEFlags_V)}"

definition framed_area :: "nat \<Rightarrow> nat \<Rightarrow> MapPermission \<Rightarrow> MapArea" where
  "framed_area l n perm = \<lparr>vpn_range = \<lparr>range_l = vp l, range_r = vp (l + n)\<rparr>, ppn_range = None,
     data_frames = Map.empty, map_type = Framed, map_perm = perm\<rparr>"

lemma framed_area_empty [simp]: "area_frames (framed_area l n perm) = {}" "framed_pairs (framed_area l n perm) = {}"
  by (simp_all add: framed_area_def area_frames_def framed_pairs_def)

lemma area_frames_insert:
  "data_frames a v = None \<Longrightarrow>
   area_frames (a\<lparr>data_frames := (data_frames a)(v \<mapsto> ft)\<rparr>) = insert (ft_ppn ft) (area_frames a)"
  by (simp add: area_frames_def)

lemma MapArea_map_framed:
  assumes "l + n < 2 ^ 64"
  shows "MapArea_map T (framed_area l n perm) p s =
    foldR (\<lambda>v (a, p, s). map_one T a p v None s) (map vp [l..<l + n]) (framed_area l n perm, p, s)"
proof -
  have "unat (vpn_0 (vp l)) = l" "unat (vpn_0 (vp (l + n))) = l + n" using assms by (simp_all add: unat_vp)
  then have "vp l \<le> vp (l + n)" "vpns (vp l) (vp (l + n)) = map vp [l..<l + n]"
    by (simp_all add: less_eq_VirtPageNum_def word_le_nat_alt vpns_def vp_def)
  then show ?thesis
    by (simp add: MapArea_map_def framed_area_def into_iter_def SimpleRangeIterator_new_def get_start_def get_end_def
        for_vpn_foldR)
qed

lemma inj_on_vp: "r < 2 ^ 64 \<Longrightarrow> inj_on vp {l..<r}"
  by (rule inj_on_inverseI [where g = "\<lambda>v. unat (vpn_0 v)"]) (simp add: unat_vp)

lemma distinct_vps: "l + n < 2 ^ 64 \<Longrightarrow> distinct (map vp [l..<l + n])"
  by (simp only: distinct_map set_upt inj_on_vp distinct_upt simp_thms)

lemma vps_ok: "l + n \<le> 2 ^ 27 \<Longrightarrow> v \<in> set (map vp [l..<l + n]) \<Longrightarrow> vpn_ok v"
  by (auto intro: vpn_ok_vp)

section \<open>The loop\<close>

context map_area
begin

lemma map_one_framed:
  assumes "map_type a = Framed" "data_frames a v = None" "map_one T a p v None s = Inr (a', p', s')"
  obtains ft s1 where "frame_alloc_unwrap s = Inr (ft, s1)" "a' = a\<lparr>data_frames := (data_frames a)(v \<mapsto> ft)\<rparr>"
    "pt_map T p v (ft_ppn ft) (map_perm a) s1 = Inr (p', s')"
  using assms by (auto simp: map_one_def drop_frame_def Let_def)

lemma map_one_framed_adds:
  assumes "map_type a = Framed" "data_frames a v = None" "map_one T a p v None s = Inr (a', p', s')" "vpn_ok v"
    "inv p s" "area_frames a \<subseteq> live base s" "area_frames a \<inter> tables p = {}"
  shows "\<exists>ft. a' = a\<lparr>data_frames := (data_frames a)(v \<mapsto> ft)\<rparr> \<and> ft_ppn ft \<notin> live base s \<and> inv p' s' \<and> tables p \<subseteq> tables p' \<and>
    grown base (tables p \<union> area_frames a) (tables p' \<union> area_frames a') s s' \<and> area_frames a' \<inter> tables p' = {} \<and>
    Map.graph (view p' s') = insert (v, PageTableEntry_new (ft_ppn ft) (map_perm a OR PTEFlags_V)) (Map.graph (view p s))"
proof -
  obtain ft s1 where m: "frame_alloc_unwrap s = Inr (ft, s1)" "a' = a\<lparr>data_frames := (data_frames a)(v \<mapsto> ft)\<rparr>"
    "pt_map T p v (ft_ppn ft) (map_perm a) s1 = Inr (p', s')"
    using map_one_framed [OF assms(1-3)] by blast
  note al = inv_tables [OF assms(5)]
  note c = frame_alloc_unwrap_cases [OF conjunct1 [OF al] m(1)]
  note i = inv_frame_alloc [OF assms(5) m(1)]
  note r = map_returned [OF i(1) assms(4) m(3)]
  have A: "area_frames a' = insert (ft_ppn ft) (area_frames a)" using m(2) assms(2) by (simp add: area_frames_insert)
  have live1: "area_frames a' \<subseteq> live base s1" using A c(4) assms(6) by auto
  have d: "area_frames a' \<inter> tables p = {}" using A i(4) assms(7) by auto
  have g1: "grown base (tables p \<union> area_frames a) (tables p \<union> area_frames a') s s1"
    using grown_frame_alloc [OF conjunct1 [OF al] m(1), of "tables p \<union> area_frames a"] al assms(6) A by simp
  have g2: "grown base (tables p \<union> area_frames a') (tables p' \<union> area_frames a') s1 s'"
    using grown_frame [OF r(4) live1] .
  have "area_frames a' \<inter> tables p' = {}" using grownD(6) [OF r(4)] d live1 by blast
  moreover have "Map.graph (view p' s') = insert (v, PageTableEntry_new (ft_ppn ft) (map_perm a OR PTEFlags_V)) (Map.graph (view p s))"
    using r(1) i(2) by (simp only: r(3) graph_upd_new)
  ultimately show ?thesis using m(2) c(2) r(2) grown_trans [OF g1 g2] grownD(2) [OF r(4)] by blast
qed

lemma map_framed_adds:
  "foldR (\<lambda>v (a, p, s). map_one T a p v None s) vs (a, p, s) = Inr (a', p', s') \<Longrightarrow> map_type a = Framed \<Longrightarrow>
   distinct vs \<Longrightarrow> \<forall>v \<in> set vs. vpn_ok v \<and> data_frames a v = None \<Longrightarrow> inv p s \<Longrightarrow>
   area_frames a \<subseteq> live base s \<Longrightarrow> area_frames a \<inter> tables p = {} \<Longrightarrow> inj_on (data_frames a) (dom (data_frames a)) \<Longrightarrow>
   a' = a\<lparr>data_frames := data_frames a'\<rparr> \<and> dom (data_frames a') = dom (data_frames a) \<union> set vs \<and>
   data_frames a \<subseteq>\<^sub>m data_frames a' \<and> inj_on (data_frames a') (dom (data_frames a')) \<and> inv p' s' \<and> tables p \<subseteq> tables p' \<and>
   grown base (tables p \<union> area_frames a) (tables p' \<union> area_frames a') s s' \<and> area_frames a' \<inter> tables p' = {} \<and>
   Map.graph (view p' s') = Map.graph (view p s) \<union> (framed_pairs a' \<inter> set vs \<times> UNIV)"
proof (induction vs arbitrary: a p s)
  case Nil
  then show ?case using inv_tables [OF Nil.prems(5)] grown_refl [of base s] by auto
next
  case (Cons v vs)
  obtain a1 p1 s1 where m: "map_one T a p v None s = Inr (a1, p1, s1)"
    "foldR (\<lambda>v (a, p, s). map_one T a p v None s) vs (a1, p1, s1) = Inr (a', p', s')"
    using Cons.prems(1) by auto
  have f: "data_frames a v = None" "vpn_ok v" using Cons.prems(4) by simp_all
  obtain ft where r: "a1 = a\<lparr>data_frames := (data_frames a)(v \<mapsto> ft)\<rparr>" "ft_ppn ft \<notin> live base s" "inv p1 s1"
    "tables p \<subseteq> tables p1" "grown base (tables p \<union> area_frames a) (tables p1 \<union> area_frames a1) s s1" "area_frames a1 \<inter> tables p1 = {}"
    "Map.graph (view p1 s1) = insert (v, PageTableEntry_new (ft_ppn ft) (map_perm a OR PTEFlags_V)) (Map.graph (view p s))"
    using map_one_framed_adds [OF Cons.prems(2) f(1) m(1) f(2) Cons.prems(5-7)] by blast
  have "ft \<notin> ran (data_frames a)" using r(2) Cons.prems(6) by (auto simp: area_frames_def)
  then have inj: "inj_on (data_frames a1) (dom (data_frames a1))"
    using Cons.prems(8) r(1) f(1) by (auto simp: inj_on_def ran_def)
  have pre: "map_type a1 = Framed" "distinct vs" "\<forall>v \<in> set vs. vpn_ok v \<and> data_frames a1 v = None"
    "area_frames a1 \<subseteq> live base s1"
    using Cons.prems(2-4) r(1) grownD(3) [OF r(5)] by auto
  note IH = Cons.IH [OF m(2) pre(1-3) r(3) pre(4) r(6) inj]
  have ext: "data_frames a \<subseteq>\<^sub>m data_frames a'" "data_frames a' v = Some ft"
    using IH r(1) f(1) by (auto simp: map_le_def dom_def)
  have "a' = a1\<lparr>data_frames := data_frames a'\<rparr>" using IH by blast
  then have e: "a' = a\<lparr>data_frames := data_frames a'\<rparr>" "map_perm a' = map_perm a"
    unfolding r(1) by (simp, metis MapArea.select_convs(5) MapArea.surjective MapArea.update_convs(3))
  have "framed_pairs a' \<inter> set (v # vs) \<times> UNIV =
      insert (v, PageTableEntry_new (ft_ppn ft) (map_perm a OR PTEFlags_V)) (framed_pairs a' \<inter> set vs \<times> UNIV)"
    using ext(2) e(2) by (auto simp: framed_pairs_def)
  then have "Map.graph (view p' s') = Map.graph (view p s) \<union> (framed_pairs a' \<inter> set (v # vs) \<times> UNIV)"
    using IH r(7) by blast
  moreover have "dom (data_frames a') = dom (data_frames a) \<union> set (v # vs)" using IH r(1) by auto
  ultimately show ?case using IH e(1) ext(1) r(4) grown_trans [OF r(5)] by blast
qed

lemma map_one_framed_progress:
  assumes "map_type a = Framed" "data_frames a v = None" "vpn_ok v" "inv p s" "view p s v = None" "3 \<le> free_frames s"
  shows "\<exists>a' p' s'. map_one T a p v None s = Inr (a', p', s') \<and> free_frames s \<le> free_frames s' + 3"
proof -
  note al = inv_tables [OF assms(4)]
  obtain ft s1 where f: "frame_alloc_unwrap s = Inr (ft, s1)"
    using frame_alloc_unwrap_progress [OF conjunct1 [OF al]] assms(6) by fastforce
  note i = inv_frame_alloc [OF assms(4) f] and c = frame_alloc_unwrap_cases [OF conjunct1 [OF al] f]
  have v: "view p s1 v = None" using i(2) assms(5) by simp
  have n: "need p s1 v \<le> free_frames s1" using need_le [of p s1 v] c(5) assms(6) by linarith
  obtain p' s' where m: "pt_map T p v (ft_ppn ft) (map_perm a) s1 = Inr (p', s')" "free_frames s1 = free_frames s' + need p s1 v"
    using map_new [OF i(1) assms(3) v n] by blast
  have "map_one T a p v None s = Inr (a\<lparr>data_frames := (data_frames a)(v \<mapsto> ft)\<rparr>, p', s')"
    using assms(1,2) f m(1) by (simp add: map_one_def drop_frame_def Let_def)
  moreover have "free_frames s \<le> free_frames s' + 3" using m(2) c(5) need_le [of p s1 v] by linarith
  ultimately show ?thesis by blast
qed

lemma map_framed_progress:
  "map_type a = Framed \<Longrightarrow> distinct vs \<Longrightarrow> \<forall>v \<in> set vs. vpn_ok v \<and> data_frames a v = None \<and> view p s v = None \<Longrightarrow>
   inv p s \<Longrightarrow> area_frames a \<subseteq> live base s \<Longrightarrow> area_frames a \<inter> tables p = {} \<Longrightarrow> 3 * length vs \<le> free_frames s \<Longrightarrow>
   \<exists>a' p' s'. foldR (\<lambda>v (a, p, s). map_one T a p v None s) vs (a, p, s) = Inr (a', p', s') \<and>
     free_frames s \<le> free_frames s' + 3 * length vs"
proof (induction vs arbitrary: a p s)
  case Nil
  then show ?case by simp
next
  case (Cons v vs)
  have f: "data_frames a v = None" "vpn_ok v" "view p s v = None" using Cons.prems(3) by simp_all
  obtain a1 p1 s1 where m: "map_one T a p v None s = Inr (a1, p1, s1)" "free_frames s \<le> free_frames s1 + 3"
    using map_one_framed_progress [OF Cons.prems(1) f(1,2) Cons.prems(4) f(3)] Cons.prems(7) by auto
  obtain ft where r: "a1 = a\<lparr>data_frames := (data_frames a)(v \<mapsto> ft)\<rparr>" "inv p1 s1"
    "grown base (tables p \<union> area_frames a) (tables p1 \<union> area_frames a1) s s1" "area_frames a1 \<inter> tables p1 = {}"
    "Map.graph (view p1 s1) = insert (v, PageTableEntry_new (ft_ppn ft) (map_perm a OR PTEFlags_V)) (Map.graph (view p s))"
    using map_one_framed_adds [OF Cons.prems(1) f(1) m(1) f(2) Cons.prems(4-6)] by blast
  have v: "view p1 s1 w = None" if "w \<in> set vs" for w
  proof (rule ccontr)
    assume "view p1 s1 w \<noteq> None"
    then obtain e where "(w, e) \<in> Map.graph (view p1 s1)" by (auto simp: Map.graph_def)
    then show False using r(5) that Cons.prems(2,3) by (auto simp: Map.graph_def)
  qed
  have pre: "map_type a1 = Framed" "distinct vs"
    "\<forall>w \<in> set vs. vpn_ok w \<and> data_frames a1 w = None \<and> view p1 s1 w = None"
    "area_frames a1 \<subseteq> live base s1" "3 * length vs \<le> free_frames s1"
    using Cons.prems(1-3,7) r(1) grownD(3) [OF r(3)] v m(2) by auto
  obtain a' p' s' where "foldR (\<lambda>v (a, p, s). map_one T a p v None s) vs (a1, p1, s1) = Inr (a', p', s')"
    "free_frames s1 \<le> free_frames s' + 3 * length vs"
    using Cons.IH [OF pre(1-3) r(2) pre(4) r(4) pre(5)] by blast
  then show ?case using m by auto
qed

end

section \<open>Extending a memory set\<close>

definition ms_extends where
  "ms_extends base ok view tables E ms s ms' s' \<longleftrightarrow> ok (page_table ms') s' \<and>
     grown base (tables (page_table ms) \<union> ms_frames ms) (tables (page_table ms') \<union> ms_frames ms') s s' \<and>
     tables (page_table ms') \<inter> ms_frames ms' = {} \<and> ms_frames ms \<subseteq> ms_frames ms' \<and>
     Map.graph (view (page_table ms') s') = Map.graph (view (page_table ms) s) \<union> E"

lemma ms_extends_trans:
  "ms_extends base ok view tables E ms s ms' s' \<Longrightarrow> ms_extends base ok view tables E' ms' s' ms'' s'' \<Longrightarrow>
   ms_extends base ok view tables (E \<union> E') ms s ms'' s''"
  by (auto simp: ms_extends_def intro: grown_trans)

text \<open>A memory set in good order: its frames are live and not its tables.\<close>

definition ms_ok where
  "ms_ok base ok tables ms s \<longleftrightarrow> ok (page_table ms) s \<and> ms_frames ms \<subseteq> live base s \<and>
     tables (page_table ms) \<inter> ms_frames ms = {}"

lemma ms_extends_ok: "ms_extends base ok view tables E ms s ms' s' \<Longrightarrow> ms_ok base ok tables ms' s'"
  using grownD(3) by (fastforce simp: ms_extends_def ms_ok_def)

lemma ms_extends_live: "ms_extends base ok view tables E ms s ms' s' \<Longrightarrow> live base s \<subseteq> live base s'"
  unfolding ms_extends_def by (blast dest: grownD(4))

lemma ms_adds_extends:
  assumes "ms_adds base ok view tables E ms s ms' s'" "ms_ok base ok tables ms s" "ms_frames ms' = ms_frames ms"
  shows "ms_extends base ok view tables E ms s ms' s'"
proof -
  have g: "grown base (tables (page_table ms)) (tables (page_table ms')) s s'" using assms(1) by (simp add: ms_adds_def)
  have o: "ms_frames ms \<subseteq> live base s" "tables (page_table ms) \<inter> ms_frames ms = {}"
    using assms(2) by (simp_all add: ms_ok_def)
  have "tables (page_table ms') \<inter> ms_frames ms = {}" using grownD(6) [OF g] o by blast
  then show ?thesis using assms(1,3) grown_frame [OF g o(1)] by (simp add: ms_adds_def ms_extends_def)
qed

lemma area_frames_linear [simp]: "area_frames (linear_area l a n perm) = {}"
  by (simp add: area_frames_def linear_area_def)

lemma map_trampoline_frames: "map_trampoline T st ms s = Inr (ms', s') \<Longrightarrow> ms_frames ms' = ms_frames ms"
  by (auto simp: map_trampoline_def ms_frames_def)

context map_area
begin

lemma push_framed:
  assumes "l + n \<le> 2 ^ 27" "ms_ok base inv tables ms s" "push T ms (framed_area l n perm) None s = Inr (ms', s')"
  shows "\<exists>a'. areas ms' = areas ms @ [a'] \<and> a' = (framed_area l n perm)\<lparr>data_frames := data_frames a'\<rparr> \<and> dom (data_frames a') = vp ` {l..<l + n} \<and> map_perm a' = perm \<and>
    inj_on (data_frames a') (dom (data_frames a')) \<and> area_frames a' \<inter> live base s = {} \<and>
    ms_extends base inv view tables (framed_pairs a') ms s ms' s'"
proof -
  let ?a = "framed_area l n perm" and ?p = "page_table ms"
  have small: "l + n < 2 ^ 64" using assms(1) by simp
  obtain a' p' where r: "foldR (\<lambda>v (a, p, s). map_one T a p v None s) (map vp [l..<l + n]) (?a, ?p, s) = Inr (a', p', s')"
    "ms' = ms\<lparr>page_table := p', areas := areas ms @ [a']\<rparr>"
    using assms(3) by (auto simp: push_def MapArea_map_framed [OF small])
  have i: "inv ?p s" using assms(2) by (simp add: ms_ok_def)
  have vs: "distinct (map vp [l..<l + n])" "\<forall>v \<in> set (map vp [l..<l + n]). vpn_ok v \<and> data_frames ?a v = None"
    using distinct_vps [OF small] vps_ok [OF assms(1)] by (simp_all add: framed_area_def)
  have ty: "map_type ?a = Framed" "inj_on (data_frames ?a) (dom (data_frames ?a))" by (simp_all add: framed_area_def)
  have e: "area_frames ?a \<subseteq> live base s" "area_frames ?a \<inter> tables ?p = {}" by simp_all
  note A = map_framed_adds [OF r(1) ty(1) vs i e ty(2)]
  have perm: "map_perm a' = perm" using A by (metis MapArea.select_convs(5) MapArea.surjective MapArea.update_convs(3) framed_area_def)
  have dom: "dom (data_frames a') = vp ` {l..<l + n}" using A by (simp add: framed_area_def)
  have fp: "framed_pairs a' \<inter> set (map vp [l..<l + n]) \<times> UNIV = framed_pairs a'"
    using dom by (auto simp: framed_pairs_def)
  have g: "grown base (tables ?p) (tables p' \<union> area_frames a') s s'" using A by simp
  have fr: "ms_frames ms' = ms_frames ms \<union> area_frames a'" using r(2) by (auto simp: ms_frames_def)
  have o: "ms_frames ms \<subseteq> live base s" "tables ?p \<inter> ms_frames ms = {}" using assms(2) by (simp_all add: ms_ok_def)
  have d: "area_frames a' \<inter> tables p' = {}" using A by blast
  have new: "area_frames a' \<inter> live base s = {}" using grownD(6) [OF g] d A by blast
  have "tables p' \<inter> ms_frames ms' = {}" using grownD(6) [OF g] o d fr by blast
  moreover have "grown base (tables ?p \<union> ms_frames ms) (tables p' \<union> ms_frames ms') s s'"
    using grown_frame [OF g o(1)] fr by (simp add: Un_ac)
  ultimately have "ms_extends base inv view tables (framed_pairs a') ms s ms' s'"
    using A fp r(2) fr by (simp add: ms_extends_def)
  then show ?thesis using A dom perm new r(2) by (intro exI [of _ a']) simp
qed

lemma push_framed_progress:
  assumes "l + n \<le> 2 ^ 27" "ms_ok base inv tables ms s" "3 * n \<le> free_frames s"
    "\<And>k. l \<le> k \<Longrightarrow> k < l + n \<Longrightarrow> view (page_table ms) s (vp k) = None"
  shows "\<exists>ms' s'. push T ms (framed_area l n perm) None s = Inr (ms', s') \<and> free_frames s \<le> free_frames s' + 3 * n"
proof -
  let ?a = "framed_area l n perm" and ?p = "page_table ms"
  have small: "l + n < 2 ^ 64" using assms(1) by simp
  have i: "inv ?p s" using assms(2) by (simp add: ms_ok_def)
  have vs: "distinct (map vp [l..<l + n])"
    "\<forall>v \<in> set (map vp [l..<l + n]). vpn_ok v \<and> data_frames ?a v = None \<and> view ?p s v = None"
    using distinct_vps [OF small] vps_ok [OF assms(1)] assms(4) by (auto simp: framed_area_def)
  have ty: "map_type ?a = Framed" by (simp add: framed_area_def)
  obtain a' p' s' where "foldR (\<lambda>v (a, p, s). map_one T a p v None s) (map vp [l..<l + n]) (?a, ?p, s) = Inr (a', p', s')"
    "free_frames s \<le> free_frames s' + 3 * n"
    using map_framed_progress [OF ty vs i] assms(3) by auto
  then show ?thesis by (auto simp: push_def MapArea_map_framed [OF small])
qed

lemma push_region_extends:
  assumes "region_ok r" "ms_ok base inv tables ms s" "push_region T r (ms, s) = Inr (ms', s')"
  shows "ms_extends base inv view tables (region_pairs r) ms s ms' s'" "ms_frames ms' = ms_frames ms"
proof -
  have i: "inv (page_table ms) s" using assms(2) by (simp add: ms_ok_def)
  obtain start stop perm where r: "r = (start, stop, perm)" by (cases r)
  then have ok: "start < stop" "unat stop < 2 ^ 39" using assms(1) by (simp_all add: region_ok_def)
  note c = page_count_end [OF ok(1)] page_end_bound [OF ok(2)]
  have b: "first_page start + page_count start stop \<le> 2 ^ 27" "first_page start + page_count start stop < 2 ^ 64"
    using c by simp_all
  show f: "ms_frames ms' = ms_frames ms"
    using push_linear(3) [OF c(2) b i] assms(3) by (simp add: r push_region_def push_identity_eq [OF ok] ms_frames_def)
  show "ms_extends base inv view tables (region_pairs r) ms s ms' s'"
    using ms_adds_extends [OF push_region_adds [OF assms(1) i assms(3)] assms(2) f] .
qed

lemma push_regions_extends:
  "\<forall>r \<in> set rs. region_ok r \<Longrightarrow> ms_ok base inv tables ms s \<Longrightarrow> foldR (push_region T) rs (ms, s) = Inr (ms', s') \<Longrightarrow>
   ms_extends base inv view tables (\<Union> (region_pairs ` set rs)) ms s ms' s' \<and> ms_frames ms' = ms_frames ms"
proof (induction rs arbitrary: ms s)
  case Nil
  then have "inv (page_table ms) s" by (simp add: ms_ok_def)
  with Nil show ?case using inv_tables grown_refl [of base s] by (auto simp: ms_extends_def ms_ok_def)
next
  case (Cons r rs)
  obtain m1 s1 where m: "push_region T r (ms, s) = Inr (m1, s1)" "foldR (push_region T) rs (m1, s1) = Inr (ms', s')"
    using Cons.prems(3) by auto
  have r: "region_ok r" using Cons.prems(1) by simp
  note a = push_region_extends [OF r Cons.prems(2) m(1)]
  from Cons.IH [OF _ ms_extends_ok [OF a(1)] m(2)] Cons.prems(1) ms_extends_trans [OF a(1)] a(2) show ?case by simp
qed

lemma map_trampoline_extends:
  assumes "ms_ok base inv tables ms s" "map_trampoline T st ms s = Inr (ms', s')"
  shows "ms_extends base inv view tables {trampoline_pair st} ms s ms' s'"
  using ms_adds_extends [OF map_trampoline_adds [OF _ assms(2)] assms(1) map_trampoline_frames [OF assms(2)]] assms(1)
  by (simp add: ms_ok_def)

end

end
