(* ===== verification/Host_Memory.thy ===== *)
theory Host_Memory
  imports Framed_Area Hypervisor
begin

text \<open>
  The hypervisor's own address space (\<open>HostMemorySet::new_host_vmm\<close> and
  \<open>map_guest\<close> of \<^verbatim>\<open>src/mm/memory_set.rs\<close>): its sections, the rest of the memory and
  the devices of the machine at their own addresses, the trampoline, and one
  fresh frame for the trap context.
\<close>

section \<open>Regions\<close>

definition perm_rx :: MapPermission where "perm_rx = MapPermission_R OR MapPermission_X"
definition perm_rw :: MapPermission where "perm_rw = MapPermission_R OR MapPermission_W"

definition section_regions :: "symbols \<Rightarrow> region list" where
  "section_regions syms =
     [(sym_stext syms, sym_etext syms, perm_rx), (sym_srodata syms, sym_erodata syms, MapPermission_R),
      (sym_sdata syms, sym_edata syms, perm_rw), (sym_sbss_with_stack syms, sym_ebss syms, perm_rw),
      (sym_ekernel syms, MEMORY_END, perm_rw)]"

definition host_device_regions :: "MachineMeta \<Rightarrow> region list" where
  "host_device_regions m = map (\<lambda>d. region_of (dev_size d) perm_rw d)
     (opt_list (test_finisher_address m) @ virtio m @ opt_list (plic m))"

definition host_regions :: "symbols \<Rightarrow> MachineMeta \<Rightarrow> region list" where
  "host_regions syms m = section_regions syms @ host_device_regions m"

definition host_ok :: "symbols \<Rightarrow> MachineMeta \<Rightarrow> bool" where
  "host_ok syms m \<longleftrightarrow> list_all region_ok (section_regions syms) \<and>
     list_all (\<lambda>d. dev_fits (dev_size d) d) (opt_list (test_finisher_address m) @ virtio m @ opt_list (plic m))"

lemma host_regions_ok: "host_ok syms m \<Longrightarrow> \<forall>r \<in> set (host_regions syms m). region_ok r"
  by (auto simp: host_ok_def host_regions_def host_device_regions_def list_all_iff region_of_ok)

lemma trap_context_area:
  "MapArea_new (VirtAddr_from TRAP_CONTEXT) (VirtAddr_from TRAMPOLINE) None None Framed perm =
   Inr (framed_area 0x7fffffe 1 perm)"
  by (simp add: MapArea_new_def VirtAddr_from_def VirtAddr_ceil_def VirtAddr_floor_def checked_sub_def checked_add_def
      SimpleRange_new_def framed_area_def vp_def less_eq_VirtPageNum_def Let_def)

text \<open>The sequence of pushes as one loop over the regions.\<close>

lemma new_host_vmm_regions:
  assumes "host_ok syms m"
  shows "new_host_vmm T syms m s =
    bindR (new_bare T s) (\<lambda>(hpm, s).
    bindR (map_trampoline T (sym_strampoline syms) hpm s) (\<lambda>(hpm, s).
    bindR (push T hpm (framed_area 0x7fffffe 1 perm_rw) None s) (foldR (push_region T) (host_regions syms m))))"
proof -
  have d: "list_all (\<lambda>d. dev_fits (dev_size d) d) (opt_list (test_finisher_address m))"
    "list_all (\<lambda>d. dev_fits (dev_size d) d) (virtio m)" "list_all (\<lambda>d. dev_fits (dev_size d) d) (opt_list (plic m))"
    using assms by (simp_all add: host_ok_def)
  show ?thesis
    unfolding new_host_vmm_def Let_def perm_rx_def [symmetric] perm_rw_def [symmetric] trap_context_area
      push_devices_regions [OF d(2)] if_some_devices [OF d(1)] if_some_devices [OF d(3)]
    by (simp add: host_regions_def section_regions_def host_device_regions_def foldR_append bindR_assoc case_prod_unfold
        push_region_def del: MEMORY_END_def cong: bindR_cong)
qed

section \<open>The translations\<close>

lemma new_bare_returned:
  assumes "alloc_ok base s" "new_bare Sv39 s = Inr (hs, s')"
  shows "ms_ok base (sv39_inv base) sv39_tables hs s'" "sv39_view (page_table hs) s' = Map.empty"
    "grown base {} (sv39_tables (page_table hs)) s s'" "ms_frames hs = {}" "free_frames s = Suc (free_frames s')"
proof -
  obtain pt where pt: "PageTableSv39_new s = Inr (pt, s')" "hs = \<lparr>page_table = pt, areas = []\<rparr>"
    using assms(2) by (auto simp: new_bare_def)
  note r = PageTableSv39_new_returned [OF assms(1) pt(1)]
  then show "ms_ok base (sv39_inv base) sv39_tables hs s'" "sv39_view (page_table hs) s' = Map.empty"
    "grown base {} (sv39_tables (page_table hs)) s s'" "ms_frames hs = {}" "free_frames s = Suc (free_frames s')"
    by (simp_all add: pt(2) ms_ok_def ms_frames_def)
qed

text \<open>The entry of the trap context: a page of the memory set's own, readable and writable.\<close>

definition trap_context_pair :: "PhysPageNum \<Rightarrow> VirtPageNum \<times> PageTableEntry" where
  "trap_context_pair f = (VirtPageNum 0x7fffffe, PageTableEntry_new f (perm_rw OR PTEFlags_V))"

lemma host_space:
  assumes ok: "alloc_ok base s" and h: "host_ok syms m" and ret: "new_host_vmm Sv39 syms m s = Inr (hs, s')"
  shows "\<exists>f. ms_frames hs = {f} \<and> f \<notin> live base s \<and> ms_ok base (sv39_inv base) sv39_tables hs s' \<and>
    grown base {} (insert f (sv39_tables (page_table hs))) s s' \<and>
    Map.graph (sv39_view (page_table hs) s') =
      {trampoline_pair (sym_strampoline syms), trap_context_pair f} \<union> \<Union> (region_pairs ` set (host_regions syms m))"
proof -
  obtain h0 s0 h1 s1 h2 s2 where r: "new_bare Sv39 s = Inr (h0, s0)"
    "map_trampoline Sv39 (sym_strampoline syms) h0 s0 = Inr (h1, s1)"
    "push Sv39 h1 (framed_area 0x7fffffe 1 perm_rw) None s1 = Inr (h2, s2)"
    "foldR (push_region Sv39) (host_regions syms m) (h2, s2) = Inr (hs, s')"
    using ret unfolding new_host_vmm_regions [OF h] by auto
  note b = new_bare_returned [OF ok r(1)]
  note e1 = sv39_area.map_trampoline_extends [OF b(1) r(2)]
  have bound: "0x7fffffe + 1 \<le> (2::nat) ^ 27" by simp
  obtain a where a: "areas h2 = areas h1 @ [a]" "dom (data_frames a) = vp ` {0x7fffffe..<0x7fffffe + 1}" "map_perm a = perm_rw"
    "area_frames a \<inter> live base s1 = {}"
    "ms_extends base (sv39_inv base) sv39_view sv39_tables (framed_pairs a) h1 s1 h2 s2"
    using sv39_area.push_framed [OF bound ms_extends_ok [OF e1] r(3)] by blast
  have "{0x7fffffe..<0x7fffffe + 1 :: nat} = {0x7fffffe}" by auto
  then have "dom (data_frames a) = {VirtPageNum 0x7fffffe}" using a(2) by (simp only: image_insert image_empty) (simp add: vp_def)
  then obtain ft where ft: "data_frames a = [VirtPageNum 0x7fffffe \<mapsto> ft]" using dom_eq_singleton_conv by metis
  let ?f = "ft_ppn ft"
  have fr: "area_frames a = {?f}" "framed_pairs a = {trap_context_pair ?f}"
    using ft a(3) by (auto simp: area_frames_def framed_pairs_def trap_context_pair_def split: if_splits)
  note e3 = sv39_area.push_regions_extends [OF host_regions_ok [OF h] ms_extends_ok [OF a(5)] r(4)]
  note all = ms_extends_trans [OF ms_extends_trans [OF e1 a(5)] conjunct1 [OF e3]]
  have f2: "ms_frames h2 = {?f}" using a(1) fr(1) b(4) map_trampoline_frames [OF r(2)] by (simp add: ms_frames_def)
  have F: "ms_frames hs = {?f}" using e3 f2 by simp
  have g: "grown base (sv39_tables (page_table h0)) (insert ?f (sv39_tables (page_table hs))) s0 s'"
    using all b(4) F by (simp add: ms_extends_def)
  have "?f \<notin> live base s1" using a(4) fr(1) by blast
  moreover have "live base s \<subseteq> live base s0" "live base s0 \<subseteq> live base s1"
    using grownD(4) [OF b(3)] ms_extends_live [OF e1] by blast+
  ultimately have "?f \<notin> live base s" by blast
  moreover have "Map.graph (sv39_view (page_table hs) s') =
      {trampoline_pair (sym_strampoline syms), trap_context_pair ?f} \<union> \<Union> (region_pairs ` set (host_regions syms m))"
    using all b(2) fr(2) by (auto simp: ms_extends_def)
  ultimately show ?thesis
    using F grown_trans [OF b(3) g] ms_extends_ok [OF conjunct1 [OF e3]] by blast
qed

section \<open>It returns\<close>

text \<open>Pages of a region that ends below the trap context.\<close>

definition below_trap_context :: "region \<Rightarrow> bool" where
  "below_trap_context = (\<lambda>(start, stop, perm). first_page start + page_count start stop \<le> 0x7fffffe)"

lemma host_space_total:
  assumes ok: "alloc_ok base s" and h: "host_ok syms m" and al: "unat (sym_strampoline syms) mod 4096 = 0"
    and dis: "disjoint_regions (host_regions syms m)" and low: "list_all below_trap_context (host_regions syms m)"
    and room: "6 + (\<Sum>r\<leftarrow>host_regions syms m. region_cost r) \<le> free_frames s"
  shows "\<exists>hs s'. new_host_vmm Sv39 syms m s = Inr (hs, s') \<and>
    free_frames s \<le> free_frames s' + 6 + (\<Sum>r\<leftarrow>host_regions syms m. region_cost r)"
proof -
  let ?R = "host_regions syms m" and ?t = "VirtPageNum 0x7ffffff" and ?c = "VirtPageNum 0x7fffffe"
  obtain pt s0 where pt: "PageTableSv39_new s = Inr (pt, s0)" using PageTableSv39_new_progress [OF ok] room by auto
  define h0 where "h0 = \<lparr>page_table = pt, areas = [] :: MapArea list\<rparr>"
  have r0: "new_bare Sv39 s = Inr (h0, s0)" using pt by (simp add: new_bare_def h0_def)
  note b = new_bare_returned [OF ok r0]
  have i0: "sv39_inv base (page_table h0) s0" using b(1) by (simp add: ms_ok_def)
  obtain h1 s1 where r1: "map_trampoline Sv39 (sym_strampoline syms) h0 s0 = Inr (h1, s1)" "free_frames s0 \<le> free_frames s1 + 2"
    using sv39_area.map_trampoline_progress [OF i0 al] b(2,5) room by auto
  note e1 = sv39_area.map_trampoline_extends [OF b(1) r1(1)]
  have g1: "Map.graph (sv39_view (page_table h1) s1) = {trampoline_pair (sym_strampoline syms)}"
    using e1 b(2) by (simp add: ms_extends_def)
  have bound: "0x7fffffe + 1 \<le> (2::nat) ^ 27" by simp
  have "sv39_view (page_table h1) s1 (vp k) = None" if "0x7fffffe \<le> k" "k < 0x7fffffe + 1" for k
  proof (rule ccontr)
    assume "sv39_view (page_table h1) s1 (vp k) \<noteq> None"
    then obtain x where "(vp k, x) \<in> Map.graph (sv39_view (page_table h1) s1)" by (auto simp: Map.graph_def)
    moreover have "k = 0x7fffffe" using that by simp
    ultimately show False using g1 by (simp add: trampoline_pair_def vp_def)
  qed
  then obtain h2 s2 where r2: "push Sv39 h1 (framed_area 0x7fffffe 1 perm_rw) None s1 = Inr (h2, s2)"
    "free_frames s1 \<le> free_frames s2 + 3"
    using sv39_area.push_framed_progress [OF bound ms_extends_ok [OF e1], where perm = perm_rw] r1(2) b(5) room by auto
  obtain a where a: "dom (data_frames a) = vp ` {0x7fffffe..<0x7fffffe + 1}"
    "ms_extends base (sv39_inv base) sv39_view sv39_tables (framed_pairs a) h1 s1 h2 s2"
    using sv39_area.push_framed [OF bound ms_extends_ok [OF e1] r2(1)] by blast
  have i2: "sv39_inv base (page_table h2) s2" using a(2) by (simp add: ms_extends_def)
  have un: "sv39_view (page_table h2) s2 v = None" if r: "r \<in> set ?R" "unat (vpn_0 v) \<in> region_pages r" for r v
  proof (rule ccontr)
    assume "sv39_view (page_table h2) s2 v \<noteq> None"
    then obtain x where "(v, x) \<in> Map.graph (sv39_view (page_table h2) s2)" by (auto simp: Map.graph_def)
    then have "(v, x) = trampoline_pair (sym_strampoline syms) \<or> (v, x) \<in> framed_pairs a"
      using a(2) g1 by (auto simp: ms_extends_def)
    then have "v = ?t \<or> v \<in> dom (data_frames a)" by (auto simp: trampoline_pair_def framed_pairs_def)
    then have "0x7fffffe \<le> unat (vpn_0 v)" using a(1) by (auto simp: unat_vp)
    moreover have "below_trap_context r" using low r(1) by (simp add: list_all_iff)
    ultimately show False using r(2) by (cases r) (auto simp: below_trap_context_def region_pages_def)
  qed
  have "\<exists>ms' s'. foldR (push_region Sv39) ?R (h2, s2) = Inr (ms', s') \<and>
      free_frames s2 \<le> free_frames s' + (\<Sum>r\<leftarrow>?R. region_cost r)"
    by (rule sv39_area.push_regions_progress [OF host_regions_ok [OF h] dis i2 _ un])
       (use r1(2) r2(2) b(5) room in simp_all)
  then obtain hs s' where r3: "foldR (push_region Sv39) ?R (h2, s2) = Inr (hs, s')"
    "free_frames s2 \<le> free_frames s' + (\<Sum>r\<leftarrow>?R. region_cost r)" by blast
  have "new_host_vmm Sv39 syms m s = Inr (hs, s')"
    unfolding new_host_vmm_regions [OF h] using r0 r1(1) r2(1) r3(1) by simp
  then show ?thesis using r1(2) r2(2) r3(2) b(5) by auto
qed

section \<open>Permissions\<close>

lemma flag_bits:
  "bit PTEFlags_V n \<longleftrightarrow> n = 0" "bit PTEFlags_R n \<longleftrightarrow> n = 1" "bit PTEFlags_X n \<longleftrightarrow> n = 3"
  "bit MapPermission_R n \<longleftrightarrow> n = 1" "bit MapPermission_W n \<longleftrightarrow> n = 2" "bit MapPermission_X n \<longleftrightarrow> n = 3"
  unfolding PTEFlags_V_def PTEFlags_R_def PTEFlags_X_def MapPermission_R_def MapPermission_W_def MapPermission_X_def
    bit_push_bit_iff bit_1_iff
  by auto

lemma host_region_perm:
  "(start, stop, perm) \<in> set (host_regions syms m) \<Longrightarrow> perm \<in> {perm_rx, perm_rw, MapPermission_R}"
  by (auto simp: host_regions_def section_regions_def host_device_regions_def region_of_def)

text \<open>What one assertion of \<open>remap_test\<close> finds in a section.\<close>

lemma middle_page:
  assumes "region_ok (s, e, perm)"
  shows "(VirtPageNum ((s + e) div 2 div 0x1000), PageTableEntry_new (PhysPageNum ((s + e) div 2 div 0x1000)) (perm OR PTEFlags_V))
      \<in> region_pairs (s, e, perm)"
    and "checked_add s e = Inr (s + e)" "VirtAddr_floor (VirtAddr_from ((s + e) div 2)) = VirtPageNum ((s + e) div 2 div 0x1000)"
proof -
  have b: "s < e" "unat e < 2 ^ 39" "unat s < unat e" using assms by (simp_all add: region_ok_def word_less_nat_alt)
  then have sum: "unat (s + e) = unat s + unat e" by (intro unat_add_no_wrap) simp
  have mid: "unat ((s + e) div 2) = (unat s + unat e) div 2" by (simp add: unat_div sum)
  have "unat ((s + e) div 2 div 0x1000) = (unat s + unat e) div 2 div 4096" by (simp add: unat_div sum)
  moreover have "unat s div 4096 \<le> (unat s + unat e) div 2 div 4096" using b by (intro div_le_mono) simp
  moreover have "(unat s + unat e) div 2 div 4096 < (unat e + 4095) div 4096"
  proof -
    have "(unat s + unat e) div 2 + 1 \<le> unat e" using b(3) by simp
    then have "((unat s + unat e) div 2 + 4096) div 4096 \<le> (unat e + 4095) div 4096" by (intro div_le_mono) simp
    then show ?thesis by simp
  qed
  ultimately show "(VirtPageNum ((s + e) div 2 div 0x1000),
      PageTableEntry_new (PhysPageNum ((s + e) div 2 div 0x1000)) (perm OR PTEFlags_V)) \<in> region_pairs (s, e, perm)"
    using assms by (simp add: region_pairs_iff)
  show "checked_add s e = Inr (s + e)" using b by (simp add: checked_add_def)
  have "unat ((s + e) div 2) < 2 ^ 39" using b mid by simp
  then show "VirtAddr_floor (VirtAddr_from ((s + e) div 2)) = VirtPageNum ((s + e) div 2 div 0x1000)"
    by (simp add: from_small VirtAddr_floor_def)
qed

lemma remap_assert_passes:
  assumes "sv39_inv base pt m" "region_ok (s, e, perm)" "region_pairs (s, e, perm) \<subseteq> Map.graph (sv39_view pt m)"
    and "\<And>p. flag (PageTableEntry_new p (perm OR PTEFlags_V)) = Inr False"
  shows "remap_assert flag s e pt m = Inr ()"
proof -
  let ?n = "(s + e) div 2 div 0x1000"
  note mid = middle_page [OF assms(2)]
  have "sv39_view pt m (VirtPageNum ?n) = Some (PageTableEntry_new (PhysPageNum ?n) (perm OR PTEFlags_V))"
    using mid(1) assms(3) by (auto simp: view_graph)
  from sv39.translate_mapped [OF assms(1) this] show ?thesis
    using mid(2,3) assms(4) by (simp add: remap_assert_def)
qed

section \<open>Properties\<close>

text \<open>
  A kernel image at \<open>0x80200000\<close> in the order of the linker script, and the machine
  in the state in which \<open>heap_init\<close> leaves it, for the witnesses.
\<close>

definition virt_symbols :: symbols where
  "virt_symbols = \<lparr>sym_stext = 0x80200000, sym_etext = 0x80220000, sym_srodata = 0x80220000, sym_erodata = 0x80230000,
     sym_sdata = 0x80230000, sym_edata = 0x80240000, sym_sbss_with_stack = 0x80240000, sym_ebss = 0x80600000,
     sym_ekernel = 0x80600000, sym_strampoline = 0x80201000\<rparr>"

lemmas virt_host_eval = virt_symbols_def virt_guest_def host_regions_def section_regions_def host_device_regions_def
  region_of_def opt_list_def

lemma virt_host_ok: "host_ok virt_symbols virt_guest"
  by (simp add: host_ok_def virt_host_eval dev_fits_def region_ok_def)

lemma virt_host_disjoint:
  "disjoint_regions (host_regions virt_symbols virt_guest)"
  "list_all below_trap_context (host_regions virt_symbols virt_guest)"
  by (simp_all add: virt_host_eval regions_apart_def first_page_def page_count_def below_trap_context_def)

lemma virt_host_cost: "(\<Sum>r\<leftarrow>host_regions virt_symbols virt_guest. region_cost r) = 81"
  by (simp add: virt_host_eval region_cost_def table_cost_def first_page_def page_count_def)

lemma virt_host_built:
  assumes "fresh 0x80600 0x88000 s"
  shows "\<exists>hs s'. new_host_vmm Sv39 virt_symbols virt_guest s = Inr (hs, s') \<and> free_frames s \<le> free_frames s' + 87"
proof -
  have ok: "alloc_ok 0x80600 s" by (rule fresh_alloc_ok [OF assms]) simp_all
  have f: "free_frames s = 0x7a00" using fresh_free [OF assms] by simp
  have al: "unat (sym_strampoline virt_symbols) mod 4096 = 0" by (simp add: virt_symbols_def)
  show ?thesis using host_space_total [OF ok virt_host_ok al virt_host_disjoint] f by (simp add: virt_host_cost)
qed

text \<open>
  C15. The hypervisor's address space is exact: when \<open>new_host_vmm\<close> returns, the pages it
  translates are the trampoline, the trap context, which got a frame that was free
  before and is none of the tables, and the pages of the sections, of the memory
  above the kernel and of the machine's devices, each at its own address with the
  permissions of its region, and no other page. Symbols and description fit
  (\<open>host_ok\<close>): no section and no device is empty, and all end below \<open>2 ^ 39\<close>.
\<close>

theorem host_memory_exact:
  assumes "alloc_ok base s" "host_ok syms m" "new_host_vmm Sv39 syms m s = Inr (hs, s')"
  shows "\<exists>f. f \<notin> live base s \<and> f \<in> live base s' \<and> f \<notin> sv39_tables (page_table hs) \<and>
    (\<forall>v e. sv39_view (page_table hs) s' v = Some e \<longleftrightarrow> (v, e) = trampoline_pair (sym_strampoline syms) \<or>
      (v, e) = trap_context_pair f \<or> (\<exists>r \<in> set (host_regions syms m). (v, e) \<in> region_pairs r))"
proof -
  obtain f where f: "ms_frames hs = {f}" "f \<notin> live base s" "ms_ok base (sv39_inv base) sv39_tables hs s'"
    "Map.graph (sv39_view (page_table hs) s') =
      {trampoline_pair (sym_strampoline syms), trap_context_pair f} \<union> \<Union> (region_pairs ` set (host_regions syms m))"
    using host_space [OF assms] by blast
  then have "f \<in> live base s'" "f \<notin> sv39_tables (page_table hs)" by (auto simp: ms_ok_def)
  with f(2,4) show ?thesis by (intro exI [of _ f]) (simp add: view_graph)
qed

theorem host_memory_exact_witness:
  "\<exists>hs s'. new_host_vmm Sv39 virt_symbols virt_guest boot_world = Inr (hs, s') \<and>
     sv39_view (page_table hs) s' (VirtPageNum 0x80210) =
       Some (PageTableEntry_new (PhysPageNum 0x80210) (perm_rx OR PTEFlags_V))"
proof -
  obtain hs s' where r: "new_host_vmm Sv39 virt_symbols virt_guest boot_world = Inr (hs, s')"
    using virt_host_built [OF boot_world_facts(1)] by blast
  have reg: "(0x80200000, 0x80220000, perm_rx) \<in> set (host_regions virt_symbols virt_guest)"
    by (simp add: virt_host_eval)
  have "(VirtPageNum 0x80210, PageTableEntry_new (PhysPageNum 0x80210) (perm_rx OR PTEFlags_V))
      \<in> region_pairs (0x80200000, 0x80220000, perm_rx)"
    by (subst region_pairs_iff) (simp_all add: region_ok_def)
  then show ?thesis
    using host_memory_exact [OF boot_world_facts(2) virt_host_ok r] reg r by blast
qed

text \<open>
  C16. Write xor execute: no page that the hypervisor maps for itself is both writable
  and executable, and none of them has the user flag.
\<close>

theorem host_write_xor_execute:
  assumes "alloc_ok base s" "host_ok syms m" "new_host_vmm Sv39 syms m s = Inr (hs, s')"
    and "sv39_view (page_table hs) s' v = Some e"
  shows "\<not> (writable e = Inr True \<and> executable e = Inr True) \<and> is_user e = Inr False"
proof -
  obtain f where "Map.graph (sv39_view (page_table hs) s') =
      {trampoline_pair (sym_strampoline syms), trap_context_pair f} \<union> \<Union> (region_pairs ` set (host_regions syms m))"
    using host_space [OF assms(1-3)] by blast
  then consider "(v, e) = trampoline_pair (sym_strampoline syms)" | "(v, e) = trap_context_pair f"
    | r where "r \<in> set (host_regions syms m)" "(v, e) \<in> region_pairs r"
    using assms(4) by (auto simp: view_graph)
  then obtain p perm where e: "e = PageTableEntry_new p (perm OR PTEFlags_V)"
    "perm \<in> {perm_rx, perm_rw, MapPermission_R, PTEFlags_R OR PTEFlags_X}"
  proof cases
    case 1
    then show thesis using that [of _ "PTEFlags_R OR PTEFlags_X"] by (simp add: trampoline_pair_def or.assoc)
  next
    case 2
    then show thesis using that by (auto simp: trap_context_pair_def)
  next
    case (3 r)
    obtain start stop perm where r: "r = (start, stop, perm)" by (cases r)
    have "region_ok r" using host_regions_ok [OF assms(2)] 3(1) by blast
    then show thesis
      using that [of "PhysPageNum (vpn_0 v)" perm] 3 host_region_perm [of start stop perm syms m]
      unfolding r by (auto simp: region_pairs_iff)
  qed
  show ?thesis using e(2) unfolding e(1) by (auto simp: perm_rx_def perm_rw_def flag_bits bit_or_iff)
qed

theorem host_write_xor_execute_witness:
  "\<exists>hs s'. new_host_vmm Sv39 virt_symbols virt_guest boot_world = Inr (hs, s') \<and>
     (\<exists>e. sv39_view (page_table hs) s' (VirtPageNum 0x7ffffff) = Some e \<and>
       \<not> (writable e = Inr True \<and> executable e = Inr True))"
proof -
  obtain hs s' where r: "new_host_vmm Sv39 virt_symbols virt_guest boot_world = Inr (hs, s')"
    using virt_host_built [OF boot_world_facts(1)] by blast
  have "trampoline_pair 0x80201000 \<in> Map.graph (sv39_view (page_table hs) s')"
    using host_space [OF boot_world_facts(2) virt_host_ok r] by (auto simp: virt_symbols_def)
  then obtain e where "sv39_view (page_table hs) s' (VirtPageNum 0x7ffffff) = Some e"
    by (auto simp: trampoline_pair_def view_graph)
  then show ?thesis using r host_write_xor_execute [OF boot_world_facts(2) virt_host_ok r] by blast
qed

end
