(* ===== verification/Detect.thy ===== *)
theory Detect
  imports Environment Phys_Memory
begin

text \<open>
  \<^verbatim>\<open>src/detect.rs\<close>: whether the hart has the hypervisor extension is found out by
  reading \<open>hgatp\<close> with a trap handler in place that skips an illegal instruction.
  The handler saves registers on the stack: \<open>w\<close> are the 21 words below the stack
  pointer. The hart is one with the extension or without (\<open>has_h\<close>); without it the
  instruction traps, and \<open>stval\<close> holds the instruction or zero, as the privileged
  architecture allows.
\<close>

section \<open>The trap frame\<close>

record TrapFrame =
  tf_ra :: usize
  tf_tp :: usize
  tf_a0 :: usize
  tf_a1 :: usize
  tf_a2 :: usize
  tf_a3 :: usize
  tf_a4 :: usize
  tf_a5 :: usize
  tf_a6 :: usize
  tf_a7 :: usize
  tf_t0 :: usize
  tf_t1 :: usize
  tf_t2 :: usize
  tf_t3 :: usize
  tf_t4 :: usize
  tf_t5 :: usize
  tf_t6 :: usize
  tf_sstatus :: usize
  tf_sepc :: usize
  tf_scause :: usize
  tf_stval :: usize

definition frame_words :: "TrapFrame \<Rightarrow> usize list" where
  "frame_words f = [tf_ra f, tf_tp f, tf_a0 f, tf_a1 f, tf_a2 f, tf_a3 f, tf_a4 f, tf_a5 f, tf_a6 f, tf_a7 f,
     tf_t0 f, tf_t1 f, tf_t2 f, tf_t3 f, tf_t4 f, tf_t5 f, tf_t6 f, tf_sstatus f, tf_sepc f, tf_scause f, tf_stval f]"

definition words_frame :: "usize list \<Rightarrow> TrapFrame" where
  "words_frame w = \<lparr>tf_ra = w ! 0, tf_tp = w ! 1, tf_a0 = w ! 2, tf_a1 = w ! 3, tf_a2 = w ! 4, tf_a3 = w ! 5,
     tf_a4 = w ! 6, tf_a5 = w ! 7, tf_a6 = w ! 8, tf_a7 = w ! 9, tf_t0 = w ! 10, tf_t1 = w ! 11, tf_t2 = w ! 12,
     tf_t3 = w ! 13, tf_t4 = w ! 14, tf_t5 = w ! 15, tf_t6 = w ! 16, tf_sstatus = w ! 17, tf_sepc = w ! 18,
     tf_scause = w ! 19, tf_stval = w ! 20\<rparr>"

section \<open>Handler\<close>

definition riscv_illegal_insn_bits :: "u16 \<Rightarrow> usize" where
  "riscv_illegal_insn_bits insn =
     (if insn = 0 then 0
      else if insn AND 3 \<noteq> 3 then 2
      else if insn AND 28 \<noteq> 28 then 4
      else 0)"

definition rust_detect_trap :: "env \<Rightarrow> memory \<Rightarrow> TrapFrame \<Rightarrow> TrapFrame result" where
  "rust_detect_trap E m trap_frame =
     (let trap_frame = trap_frame\<lparr>tf_tp := tf_scause trap_frame\<rparr> in
      case scause_cause E (tf_scause trap_frame) of
        Exception IllegalInstruction \<Rightarrow>
          let insn_bits = riscv_illegal_insn_bits (ucast (tf_stval trap_frame AND 0xffff));
              insn_bits = (if insn_bits = 0 then riscv_illegal_insn_bits (ucast (read_le 2 m (tf_sepc trap_frame)))
                           else insn_bits)
          in Inr (trap_frame\<lparr>tf_sepc := tf_sepc trap_frame + insn_bits\<rparr>)
      | Exception _ \<Rightarrow> Inl Unreachable
      | Interrupt _ \<Rightarrow> Inl Unreachable)"

text \<open>The slots of the saved registers, in the order of the instructions.\<close>

definition detect_regs :: "nat list" where
  "detect_regs = [1, 4, 10, 11, 12, 13, 14, 15, 16, 17, 5, 6, 7, 28, 29, 30, 31]"

definition detect_slot :: "nat \<Rightarrow> nat" where
  "detect_slot r = (if r = 1 then 0 else if r = 4 then 1 else if r < 10 then r + 5 else if r < 18 then r - 8 else r - 15)"

definition on_detect_trap_save :: "instr list" where
  "on_detect_trap_save =
     [Addi 2 2 (- (8 * 21))] @ save_regs detect_slot 2 detect_regs @
     [Csrr 5 Sstatus, Sd 5 (17 * 8) 2, Csrr 6 Sepc, Sd 6 (18 * 8) 2, Csrr 7 Scause, Sd 7 (19 * 8) 2,
      Csrr 28 Stval, Sd 28 (20 * 8) 2, Mv 10 2]"

definition on_detect_trap_restore :: "instr list" where
  "on_detect_trap_restore =
     [Ld 5 (17 * 8) 2, Csrw Sstatus 5, Ld 6 (18 * 8) 2, Csrw Sepc 6, Ld 7 (19 * 8) 2, Csrw Scause 7,
      Ld 28 (20 * 8) 2, Csrw Stval 28] @
     load_regs detect_slot 2 detect_regs @ [Addi 2 2 (8 * 21), Sret]"

text \<open>
  The call of \<open>rust_detect_trap\<close> between the two halves leaves anything in the
  caller-saved registers.
\<close>

definition on_detect_trap :: "env \<Rightarrow> memory \<Rightarrow> hart \<times> usize list \<Rightarrow> (hart \<times> usize list) result" where
  "on_detect_trap E m = (\<lambda>(h, w).
     let b = get_gpr 2 h - 8 * 21 in
     bindR (exec b on_detect_trap_save (h, w)) (\<lambda>(h1, w1).
     bindR (rust_detect_trap E m (words_frame w1)) (\<lambda>f.
     exec b on_detect_trap_restore (clobber caller_saved (leftover E h1) h1, frame_words f))))"

section \<open>Detection\<close>

definition init_detect_trap :: "usize \<Rightarrow> usize \<Rightarrow> hart \<Rightarrow> ((bool \<times> usize \<times> usize) \<times> hart) result" where
  "init_detect_trap sym_on_detect_trap param h =
     (let stored_sie = bit (csrs h Sstatus) 1;
          h1 = clear_csr Sstatus (push_bit 1 1) h;
          stored_stvec = csrs h1 Stvec in
      bindR (if sym_on_detect_trap AND 1 \<noteq> 0 then checked_add sym_on_detect_trap 1 else Inr sym_on_detect_trap) (\<lambda>trap_addr.
      let h2 = write_csr Stvec trap_addr h1;
          stored_tp = get_gpr 4 h2;
          h3 = set_gpr 4 param h2 in
      Inr ((stored_sie, stored_stvec, stored_tp), h3)))"

definition restore_detect_trap :: "bool \<Rightarrow> usize \<Rightarrow> usize \<Rightarrow> hart \<Rightarrow> usize \<times> hart" where
  "restore_detect_trap sie stvec tp h =
     (let ans = get_gpr 4 h;
          h1 = set_gpr 4 tp h;
          h2 = write_csr Stvec stvec h1;
          h3 = (if sie then set_csr Sstatus (push_bit 1 1) h2 else h2) in
      (ans, h3))"

text \<open>
  The instruction \<open>csrr rd, hgatp\<close>. Without the extension it raises an illegal
  instruction exception (cause 2) with \<open>tval\<close> in \<open>stval\<close>.
\<close>

definition csrr_hgatp :: "env \<Rightarrow> bool \<Rightarrow> usize \<Rightarrow> nat \<Rightarrow> memory \<Rightarrow> hart \<times> usize list \<Rightarrow> (hart \<times> usize list) result" where
  "csrr_hgatp E has_h tval rd m = (\<lambda>(h, w).
     if has_h then Inr ((set_gpr rd (csrs h Hgatp) h)\<lparr>pc := pc h + 4\<rparr>, w)
     else on_detect_trap E m (hw_trap 2 tval 0 0 h, w))"

definition with_detect_trap ::
  "usize \<Rightarrow> usize \<Rightarrow> (hart \<times> usize list \<Rightarrow> (hart \<times> usize list) result) \<Rightarrow> hart \<times> usize list \<Rightarrow>
   (usize \<times> hart \<times> usize list) result" where
  "with_detect_trap sym_on_detect_trap param f = (\<lambda>(h, w).
     bindR (init_detect_trap sym_on_detect_trap param h) (\<lambda>((sie, stvec, tp), h1).
     bindR (f (h1, w)) (\<lambda>(h2, w2).
     let (ans, h3) = restore_detect_trap sie stvec tp h2 in
     Inr (ans, h3, w2))))"

definition detect_h_extension ::
  "env \<Rightarrow> usize \<Rightarrow> bool \<Rightarrow> usize \<Rightarrow> nat \<Rightarrow> memory \<Rightarrow> hart \<times> usize list \<Rightarrow> (bool \<times> hart \<times> usize list) result" where
  "detect_h_extension E sym_on_detect_trap has_h tval rd m hw =
     bindR (with_detect_trap sym_on_detect_trap 0 (csrr_hgatp E has_h tval rd m) hw) (\<lambda>(ans, h, w).
     Inr (ans \<noteq> 2, h, w))"

section \<open>The handler skips the instruction\<close>

lemma frame_words_words:
  assumes "length w = 21"
  shows "frame_words (words_frame w) = w"
proof -
  have "map (\<lambda>i. w ! i) [0..<21] = w" using assms map_nth [of w] by simp
  then show ?thesis by (simp add: frame_words_def words_frame_def upt_rec numeral_eq_Suc)
qed

lemma detect_regs_facts:
  "inj_on detect_slot (set detect_regs)" "\<forall>r \<in> set detect_regs. detect_slot r < 17 \<and> r < 32" "2 \<notin> set detect_regs"
  by (auto simp: detect_regs_def detect_slot_def inj_on_def)

lemma rust_detect_trap_words:
  assumes "length w = 21" "scause_cause E (w ! 19) = Exception IllegalInstruction"
    and "riscv_illegal_insn_bits (ucast (w ! 20 AND 0xffff)) = 4 \<or>
      w ! 20 = 0 \<and> riscv_illegal_insn_bits (ucast (read_le 2 m (w ! 18))) = 4"
  shows "\<exists>f. rust_detect_trap E m (words_frame w) = Inr f \<and> frame_words f = w[1 := w ! 19, 18 := w ! 18 + 4]"
proof -
  let ?f = "(words_frame w)\<lparr>tf_tp := w ! 19, tf_sepc := w ! 18 + 4\<rparr>"
  have "frame_words ?f = frame_words (words_frame (w[1 := w ! 19, 18 := w ! 18 + 4]))"
    using assms(1) by (simp add: frame_words_def words_frame_def)
  also have "\<dots> = w[1 := w ! 19, 18 := w ! 18 + 4]" using assms(1) by (intro frame_words_words) simp
  finally have "frame_words ?f = w[1 := w ! 19, 18 := w ! 18 + 4]" .
  moreover have "riscv_illegal_insn_bits 0 = 0" by (simp add: riscv_illegal_insn_bits_def)
  ultimately show ?thesis
    using assms(2,3) by (intro exI [of _ ?f]) (auto simp: rust_detect_trap_def words_frame_def Let_def)
qed

lemma exec_detect_save:
  assumes ok: "hart_ok h" "length w = 21" and b: "b = get_gpr 2 h - 8 * 21"
  shows "\<exists>h' w'. exec b on_detect_trap_save (h, w) = Inr (h', w') \<and> hart_ok h' \<and> csrs h' = csrs h \<and>
    virt h' = virt h \<and> supervisor h' = supervisor h \<and> pc h' = pc h \<and> length w' = 21 \<and> get_gpr 2 h' = b \<and>
    (\<forall>r < 32. r \<notin> {2, 5, 6, 7, 10, 28} \<longrightarrow> get_gpr r h' = get_gpr r h) \<and>
    (\<forall>r \<in> set detect_regs. w' ! detect_slot r = get_gpr r h) \<and>
    w' ! 17 = csrs h Sstatus \<and> w' ! 18 = csrs h Sepc \<and> w' ! 19 = csrs h Scause \<and> w' ! 20 = csrs h Stval"
proof -
  let ?h = "set_gpr 2 b h"
  have g: "get_gpr q ?h = (if q = 2 then b else get_gpr q h)" for q using ok by (simp add: get_set_gpr)
  obtain w1 where w1: "exec b (save_regs detect_slot 2 detect_regs) (?h, w) = Inr (?h, w1)" "length w1 = 21"
    "\<forall>r \<in> set detect_regs. w1 ! detect_slot r = get_gpr r ?h"
    using exec_save_regs [of 2 ?h b detect_regs detect_slot w] detect_regs_facts ok g by fastforce
  let ?w = "w1[17 := csrs h Sstatus, 18 := csrs h Sepc, 19 := csrs h Scause, 20 := csrs h Stval]"
  let ?h' = "set_gpr 10 b (set_gpr 28 (csrs h Stval) (set_gpr 7 (csrs h Scause)
    (set_gpr 6 (csrs h Sepc) (set_gpr 5 (csrs h Sstatus) ?h))))"
  have a: "get_gpr 2 h + - (8 * 21) = b" using b by simp
  have e: "exec b on_detect_trap_save (h, w) = Inr (?h', ?w)"
    using ok w1(1,2) a by (simp add: on_detect_trap_save_def exec_append g get_set_gpr)
  have "?w ! detect_slot r = get_gpr r h" if "r \<in> set detect_regs" for r
  proof -
    have "detect_slot r < 17" "r \<noteq> 2" using detect_regs_facts(2,3) that by auto
    then show ?thesis using w1(3) that g [of r] by simp
  qed
  then show ?thesis
    using e ok w1(2) g by (intro exI [of _ ?h'] exI [of _ ?w]) (simp add: get_set_gpr)
qed

lemma exec_detect_restore:
  assumes ok: "hart_ok h" "length w = 21" and b: "get_gpr 2 h = b"
  shows "\<exists>h'. exec b on_detect_trap_restore (h, w) = Inr (sret h', w) \<and> hart_ok h' \<and>
    csrs h' = (csrs h)(Sstatus := w ! 17, Sepc := w ! 18, Scause := w ! 19, Stval := w ! 20) \<and>
    virt h' = virt h \<and> supervisor h' = supervisor h \<and>
    (\<forall>r < 32. get_gpr r h' = (if r \<in> set detect_regs then w ! detect_slot r else if r = 2 then b + 8 * 21 else get_gpr r h))"
proof -
  let ?h1 = "write_csr Stval (w ! 20) (set_gpr 28 (w ! 20) (write_csr Scause (w ! 19) (set_gpr 7 (w ! 19)
    (write_csr Sepc (w ! 18) (set_gpr 6 (w ! 18) (write_csr Sstatus (w ! 17) (set_gpr 5 (w ! 17) h)))))))"
  have pre: "exec b [Ld 5 (17 * 8) 2, Csrw Sstatus 5, Ld 6 (18 * 8) 2, Csrw Sepc 6, Ld 7 (19 * 8) 2, Csrw Scause 7,
      Ld 28 (20 * 8) 2, Csrw Stval 28] (h, w) = Inr (?h1, w)"
    using ok b by (simp add: get_set_gpr)
  have h1: "hart_ok ?h1" "get_gpr 2 ?h1 = b" using ok b by (simp_all add: get_set_gpr)
  have g1: "get_gpr r ?h1 = get_gpr r h" if "r \<notin> set detect_regs" for r
    using that ok by (auto simp: detect_regs_def get_set_gpr)
  obtain h2 where h2: "exec b (load_regs detect_slot 2 detect_regs) (?h1, w) = Inr (h2, w)" "hart_ok h2"
    "csrs h2 = csrs ?h1" "virt h2 = virt ?h1" "supervisor h2 = supervisor ?h1"
    "\<forall>r. get_gpr r h2 = (if r \<in> set detect_regs \<and> r \<noteq> 0 then w ! detect_slot r else get_gpr r ?h1)"
    using exec_load_regs [of ?h1 2 b detect_regs w detect_slot] h1 ok detect_regs_facts by fastforce
  let ?h3 = "set_gpr 2 (b + 8 * 21) h2"
  have two: "get_gpr 2 h2 = b" using h2(6) h1(2) detect_regs_facts(3) by simp
  have e: "exec b on_detect_trap_restore (h, w) = Inr (sret ?h3, w)"
    unfolding on_detect_trap_restore_def exec_append pre bindR_Inr h2(1) by (simp add: two)
  have "0 \<notin> set detect_regs" by (simp add: detect_regs_def)
  then have "get_gpr r ?h3 = (if r \<in> set detect_regs then w ! detect_slot r else if r = 2 then b + 8 * 21 else get_gpr r h)"
    if "r < 32" for r
    using that h2(2,6) g1 [of r] detect_regs_facts(3) by (auto simp: get_set_gpr)
  then show ?thesis using e h2(2-5) by (intro exI [of _ ?h3]) simp
qed

lemma on_detect_trap_skips:
  assumes ok: "hart_ok h" "length w = 21" and c: "scause_cause E (csrs h Scause) = Exception IllegalInstruction"
    and i: "riscv_illegal_insn_bits (ucast (csrs h Stval AND 0xffff)) = 4 \<or>
      csrs h Stval = 0 \<and> riscv_illegal_insn_bits (ucast (read_le 2 m (csrs h Sepc))) = 4"
  shows "\<exists>h' w'. on_detect_trap E m (h, w) = Inr (h', w') \<and> length w' = 21 \<and> hart_ok h' \<and> pc h' = csrs h Sepc + 4 \<and>
    get_gpr 4 h' = csrs h Scause \<and> (\<forall>r < 32. r \<noteq> 4 \<longrightarrow> get_gpr r h' = get_gpr r h) \<and>
    (\<forall>k. k \<notin> {Sstatus, Sepc, Hstatus} \<longrightarrow> csrs h' k = csrs h k) \<and>
    (bit (csrs h' Sstatus) 1 \<longleftrightarrow> bit (csrs h Sstatus) 5) \<and>
    virt h' = bit (csrs h Hstatus) 7 \<and> supervisor h' = bit (csrs h Sstatus) 8"
proof -
  define b where "b = get_gpr 2 h - 8 * 21"
  obtain h1 w1 where s: "exec b on_detect_trap_save (h, w) = Inr (h1, w1)" "hart_ok h1" "csrs h1 = csrs h"
    "length w1 = 21" "get_gpr 2 h1 = b" "\<forall>r < 32. r \<notin> {2, 5, 6, 7, 10, 28} \<longrightarrow> get_gpr r h1 = get_gpr r h"
    "\<forall>r \<in> set detect_regs. w1 ! detect_slot r = get_gpr r h"
    "w1 ! 17 = csrs h Sstatus" "w1 ! 18 = csrs h Sepc" "w1 ! 19 = csrs h Scause" "w1 ! 20 = csrs h Stval"
    using exec_detect_save [OF ok b_def] by blast
  let ?w = "w1[1 := w1 ! 19, 18 := w1 ! 18 + 4]"
  obtain f where f: "rust_detect_trap E m (words_frame w1) = Inr f" "frame_words f = ?w"
    using rust_detect_trap_words [OF s(4)] c i s(9-11) by metis
  have len: "length ?w = 21" using s(4) by simp
  let ?c = "clobber caller_saved (leftover E h1) h1"
  have c1: "get_gpr 2 ?c = b" using s(5) by (simp add: get_gpr_clobber caller_saved_def)
  obtain h2 where r: "exec b on_detect_trap_restore (?c, ?w) = Inr (sret h2, ?w)" "hart_ok h2"
    "csrs h2 = (csrs h1)(Sstatus := ?w ! 17, Sepc := ?w ! 18, Scause := ?w ! 19, Stval := ?w ! 20)"
    "\<forall>r < 32. get_gpr r h2 = (if r \<in> set detect_regs then ?w ! detect_slot r else if r = 2 then b + 8 * 21 else get_gpr r ?c)"
    using exec_detect_restore [OF clobber_fields(5) len c1] by auto
  have cs: "csrs h2 = (csrs h)(Sepc := csrs h Sepc + 4)" using r(3) s(3,4,8-11) by (simp add: fun_eq_iff)
  have four: "get_gpr 4 h2 = csrs h Scause" using r(4) s(4,10) by (simp add: detect_regs_def detect_slot_def)
  have g: "get_gpr q h2 = get_gpr q h" if "q < 32" "q \<noteq> 4" for q
  proof (cases "q \<in> set detect_regs")
    case True
    then have "detect_slot q < 17" "detect_slot q \<noteq> 1" using that(2) by (auto simp: detect_regs_def detect_slot_def)
    then show ?thesis using r(4) s(7) True that by simp
  next
    case False
    then have "q \<notin> {5, 6, 7, 10, 28}" "q \<notin> set caller_saved" by (auto simp: detect_regs_def caller_saved_def)
    then show ?thesis using r(4) s(6) False that by (simp add: b_def get_gpr_clobber)
  qed
  have "on_detect_trap E m (h, w) = Inr (sret h2, ?w)"
    using s(1) f r(1) by (simp add: on_detect_trap_def b_def Let_def)
  moreover have "bit (csrs (sret h2) Sstatus) 1 \<longleftrightarrow> bit (csrs h Sstatus) 5" using cs by (simp add: sret_def)
  ultimately show ?thesis
    using len r(2) four g cs by (intro exI [of _ "sret h2"] exI [of _ ?w]) simp
qed

text \<open>The encoding of \<open>csrr rd, hgatp\<close>, an instruction of four bytes.\<close>

definition csrr_hgatp_insn :: "nat \<Rightarrow> usize" where
  "csrr_hgatp_insn rd = 0x68002073 OR push_bit 7 (word_of_nat rd)"

lemma csrr_hgatp_insn_bits:
  assumes "rd < 32"
  shows "riscv_illegal_insn_bits (ucast (csrr_hgatp_insn rd AND 0xffff)) = 4"
proof -
  have "list_all (\<lambda>rd. riscv_illegal_insn_bits (ucast (csrr_hgatp_insn rd AND 0xffff)) = 4) [0..<32]" by code_simp
  then show ?thesis using assms by (simp add: list_all_iff)
qed

section \<open>Properties\<close>

text \<open>
  C26. Detection: \<open>detect_h_extension\<close> answers whether the hart has the hypervisor
  extension, with or without the instruction in \<open>stval\<close>, and leaves the hart as it
  was: it goes on behind the instruction in HS-mode, with the trap vector, the
  interrupt enable bit and all registers but the destination of the read
  restored, whatever the compiled \<open>rust_detect_trap\<close> leaves in the caller-saved
  registers. The vector is even, the destination that the compiler chose is not
  \<open>zero\<close>, \<open>sp\<close>, \<open>gp\<close> or \<open>tp\<close>, and without the extension \<open>stval\<close> holds the instruction
  or zero.
\<close>

theorem detect_h_extension_correct:
  assumes ok: "hart_ok h" "length w = 21" and rd: "rd < 32" "rd \<notin> {0, 2, 3, 4}" and mode: "\<not> virt h" "supervisor h"
    and al: "trap_addr AND 1 = 0" and c: "scause_cause E 2 = Exception IllegalInstruction"
    and tv: "tval = csrr_hgatp_insn rd \<or> tval = 0 \<and> read_le 2 m (pc h) = csrr_hgatp_insn rd AND 0xffff"
  shows "\<exists>h' w'. detect_h_extension E trap_addr has_h tval rd m (h, w) = Inr (has_h, h', w') \<and> pc h' = pc h + 4 \<and>
    \<not> virt h' \<and> supervisor h' \<and> csrs h' Stvec = csrs h Stvec \<and>
    (bit (csrs h' Sstatus) 1 \<longleftrightarrow> bit (csrs h Sstatus) 1) \<and> (\<forall>r < 32. r \<noteq> rd \<longrightarrow> get_gpr r h' = get_gpr r h)"
proof -
  let ?h1 = "set_gpr 4 0 (write_csr Stvec trap_addr (clear_csr Sstatus (push_bit 1 1) h))"
  have init: "init_detect_trap trap_addr 0 h = Inr ((bit (csrs h Sstatus) 1, csrs h Stvec, get_gpr 4 h), ?h1)"
    using al by (simp add: init_detect_trap_def Let_def)
  have sie: "\<not> bit (csrs ?h1 Sstatus) 1" by (simp add: bit_simps)
  have sie_back: "bit (csrs h' Sstatus) 1 \<longleftrightarrow> bit (csrs h Sstatus) 1"
    if "\<not> bit (csrs h2 Sstatus) 1" "(a, h') = restore_detect_trap (bit (csrs h Sstatus) 1) (csrs h Stvec) (get_gpr 4 h) h2"
    for a h' h2
    using that by (auto simp: restore_detect_trap_def Let_def bit_simps split: if_splits)
  show ?thesis
  proof (cases has_h)
    case True
    let ?h2 = "(set_gpr rd (csrs ?h1 Hgatp) ?h1)\<lparr>pc := pc h + 4\<rparr>"
    show ?thesis
      using True ok rd mode sie_back [of ?h2] sie
      by (auto simp: detect_h_extension_def with_detect_trap_def init csrr_hgatp_def restore_detect_trap_def Let_def
          get_set_gpr)
  next
    case False
    let ?t = "hw_trap 2 tval 0 0 ?h1"
    have tok: "hart_ok ?t" using ok(1) by simp
    have t: "csrs ?t Scause = 2" "csrs ?t Stval = tval" "csrs ?t Sepc = pc h" "csrs ?t Stvec = trap_addr"
      "\<not> bit (csrs ?t Sstatus) 5" "\<not> bit (csrs ?t Hstatus) 7" "bit (csrs ?t Sstatus) 8"
      using ok(1) mode sie by (simp_all add: hw_trap_def)
    have i: "riscv_illegal_insn_bits (ucast (csrs ?t Stval AND 0xffff)) = 4 \<or>
        csrs ?t Stval = 0 \<and> riscv_illegal_insn_bits (ucast (read_le 2 m (csrs ?t Sepc))) = 4"
      using tv csrr_hgatp_insn_bits [OF rd(1)] t(2,3) by metis
    have cc: "scause_cause E (csrs ?t Scause) = Exception IllegalInstruction" using c t(1) by simp
    obtain h2 w2 where r: "on_detect_trap E m (?t, w) = Inr (h2, w2)" "hart_ok h2" "pc h2 = pc h + 4"
      "get_gpr 4 h2 = 2" "\<forall>r < 32. r \<noteq> 4 \<longrightarrow> get_gpr r h2 = get_gpr r h" "\<not> bit (csrs h2 Sstatus) 1"
      "\<not> virt h2" "supervisor h2"
      using on_detect_trap_skips [OF tok ok(2) cc i] t ok(1) by (auto simp: get_set_gpr)
    show ?thesis
      using False r sie_back [of h2]
      by (auto simp: detect_h_extension_def with_detect_trap_def init csrr_hgatp_def restore_detect_trap_def Let_def
          get_set_gpr)
  qed
qed

theorem detect_h_extension_correct_witness:
  "\<exists>E h w. (\<exists>h' w'. detect_h_extension E 0x80205000 False 0 10 (\<lambda>a. if a = 0x80201000 then 0x73 else if a = 0x80201001 then 0x25 else 0)
      (h, w) = Inr (False, h', w') \<and> pc h' = 0x80201004) \<and>
    (\<exists>h' w'. detect_h_extension E 0x80205000 True 0 10 (\<lambda>a. if a = 0x80201000 then 0x73 else if a = 0x80201001 then 0x25 else 0)
      (h, w) = Inr (True, h', w') \<and> pc h' = 0x80201004)"
proof -
  let ?m = "\<lambda>a :: usize. if a = 0x80201000 then 0x73 else if a = 0x80201001 then 0x25 else 0 :: u8"
  define E :: env where "E = \<lparr>mmio_read32 = \<lambda>_ _. 0, sbi_ecall = \<lambda>_ _ _ _. (0, 0), sbi_rt = \<lambda>_ _. 0,
    scause_cause = \<lambda>_. Exception IllegalInstruction, set_spp_supervisor = id, set_spv = id,
    instruction_length = \<lambda>_. 4, decode = \<lambda>_. None, hgatp_legal = id, leftover = \<lambda>_ r. word_of_nat r\<rparr>"
  define h :: hart where "h = \<lparr>gprs = replicate 32 0, csrs = \<lambda>_. 0, pc = 0x80201000, virt = False, supervisor = True\<rparr>"
  have h: "hart_ok h" "\<not> virt h" "supervisor h" "pc h = 0x80201000" by (simp_all add: h_def hart_ok_def)
  have E: "scause_cause E 2 = Exception IllegalInstruction" by (simp add: E_def)
  have len: "length (replicate 21 0 :: usize list) = 21" by simp
  have tv: "(0 :: usize) = csrr_hgatp_insn 10 \<or> (0 :: usize) = 0 \<and> read_le 2 ?m (pc h) = csrr_hgatp_insn 10 AND 0xffff"
    unfolding h(4) by code_simp
  have "\<exists>h' w'. detect_h_extension E 0x80205000 b 0 10 ?m (h, replicate 21 0) = Inr (b, h', w') \<and> pc h' = 0x80201004" for b
    using detect_h_extension_correct [OF h(1) len _ _ h(2,3) _ E tv, of "0x80205000" b] h(4) by auto
  then show ?thesis by blast
qed

end
