(* ===== verification/Boot.thy ===== *)
theory Boot
  imports Vmexit Host_Memory Detect
begin

text \<open>
  \<^verbatim>\<open>src/main.rs\<close>: from \<open>hentry\<close> to the first instruction of the guest, and
  \<open>heap_init\<close> of \<^verbatim>\<open>src/hyp_alloc/mod.rs\<close>. The addresses of the image and of the
  guest's device tree, and the hart's answer to the probe of \<open>Detect\<close>, are
  arguments. The heap itself is not modelled.
\<close>

section \<open>Operations\<close>

record image =
  img_symbols :: symbols
  img_sbss :: usize
  img_traps :: trap_symbols
  img_on_detect_trap :: usize
  img_guest_dtb :: usize

text \<open>The hart as the probe finds it: \<open>stval\<close> of an illegal instruction and the register the compiler chose.\<close>

record probed =
  has_h :: bool
  illegal_stval :: usize
  probe_rd :: nat

text \<open>\<open>_start\<close>: the boot stack of hart \<open>a0\<close> ends at \<open>boot_stack + size * (a0 + 1)\<close>.\<close>

definition BOOT_STACK_SIZE :: usize where
  "BOOT_STACK_SIZE = 16 * PAGE_SIZE"

definition start :: "usize \<Rightarrow> usize \<Rightarrow> hart \<Rightarrow> hart" where
  "start boot_stack hentry_addr h =
     (let h = set_gpr 2 boot_stack h;
          h = set_gpr 7 BOOT_STACK_SIZE h;
          h = set_gpr 28 (get_gpr 10 h + 1) h;
          h = set_gpr 7 (get_gpr 7 h * get_gpr 28 h) h;
          h = set_gpr 2 (get_gpr 2 h + get_gpr 7 h) h
      in h\<lparr>pc := hentry_addr\<rparr>)"

definition clear_bss :: "usize \<Rightarrow> usize \<Rightarrow> 'x world_scheme \<Rightarrow> 'x world_scheme result" where
  "clear_bss sbss ebss s =
     bindR (checked_sub ebss sbss) (\<lambda>n. Inr (s\<lparr>mem := fill_bytes sbss (unat n) 0 (mem s)\<rparr>))"

definition heap_init :: "usize \<Rightarrow> 'x world_scheme \<Rightarrow> 'x world_scheme result" where
  "heap_init ekernel s = init_frame_allocator ekernel s"

text \<open>
  The two probes of \<open>hentry\<close>. \<open>w\<close> are the words of the boot stack below the
  stack pointer.
\<close>

definition probe_machine :: "env \<Rightarrow> image \<Rightarrow> probed \<Rightarrow> usize list \<Rightarrow> machine \<Rightarrow> machine result" where
  "probe_machine E img p w m =
     (let (r, m1) = do_rt E Rt_probe_hsm m in
      if r = 0 then Inl ExplicitPanic
      else
        bindR (detect_h_extension E (img_on_detect_trap img) (has_h p) (illegal_stval p) (probe_rd p) (mem m1) (hart m1, w))
          (\<lambda>(found, h, _).
        if \<not> found then Inl ExplicitPanic else Inr (m1\<lparr>hart := h\<rparr>)))"

definition hentry ::
  "env \<Rightarrow> ('fdt, 'node) fdt_crate \<Rightarrow> image \<Rightarrow> probed \<Rightarrow> usize list \<Rightarrow> usize \<Rightarrow> usize \<Rightarrow> machine \<Rightarrow> machine result" where
  "hentry E api img p w hart_id dtb m =
     (if hart_id = 0 then
        let syms = img_symbols img; S = img_traps img in
        bindR (clear_bss (img_sbss img) (sym_ebss syms) m) (\<lambda>m.
        bindR (probe_machine E img p w m) (\<lambda>m.
        bindR (heap_init (sym_ekernel syms) m) (\<lambda>m.
        bindR (parse api dtb) (\<lambda>machine.
        bindR (parse api (img_guest_dtb img)) (\<lambda>guest_machine.
        bindR (new_host_vmm Sv39 syms machine m) (\<lambda>(hpm', m).
        let m = init_vmm hpm' machine m in
        bindR (new_guest_without_load Sv39 (sym_strampoline syms) guest_machine m) (\<lambda>(gpm', m).
        bindR (vmm_lock m) (\<lambda>(host_vmm, m).
        bindR (map_guest Sv39 (hpm host_vmm) GUEST_START_PA GUEST_DEFAULT_SIZE m) (\<lambda>(hpm', m).
        let m = vmm_unlock (host_vmm\<lparr>hpm := hpm'\<rparr>) m in
        bindR (enable_paging m) (\<lambda>m.
        bindR (trap_init S m) (\<lambda>m.
        bindR (remap_test syms m) (\<lambda>m.
        bindR (Guest_new E (sym_trap_handler S) 0 gpm' guest_machine m) (\<lambda>(guest, m).
        bindR (add_guest_queue guest m) (\<lambda>m.
        hart_entry_1 E m))))))))))))))
      else Inl Unreachable)"

end
