(* ===== verification/Vmexit_Frame.thy ===== *)
theory Vmexit_Frame
  imports Vmexit
begin

text \<open>
  What an exit of the guest can change. Every handler makes an \<open>exit_step\<close>:
  memory, the frame allocator, the global \<open>HOST_VMM\<close>, the fields of the trap
  context that the hypervisor depends on and all but four control registers stay,
  the outside sees only the events a guest may cause, and the timer invariant is
  kept.
\<close>

section \<open>Steps\<close>

text \<open>
  What a guest may cause outside: writes to the context registers of the
  interrupt controller, the claim of its own context, and firmware calls that
  neither reset the machine nor reach another extension.
\<close>

definition guest_event :: "PlicState option \<Rightarrow> usize \<Rightarrow> event \<Rightarrow> bool" where
  "guest_event p gid e = (case e of
     MmioWrite a _ \<Rightarrow> (\<exists>pl. p = Some pl \<and> 0x200000 \<le> a - plic_base_addr pl \<and>
       a - plic_base_addr pl < 0x200000 + 0x1000 * MAX_CONTEXTS)
   | MmioRead a \<Rightarrow> (\<exists>pl. p = Some pl \<and> a = plic_base_addr pl + 0x200004 + 0x1000 * (2 * gid + 1))
   | Ecall eid _ _ \<Rightarrow> eid = SBI_EXTID_BASE \<or> eid = SBI_CONSOLE_PUTCHAR \<or> eid = SBI_CONSOLE_GETCHAR
   | RtCall c \<Rightarrow> c \<noteq> Rt_shutdown \<and> c \<noteq> Rt_probe_hsm)"

text \<open>A timer interrupt is either pending in the guest or can still come.\<close>

definition timer_ok :: "hart \<Rightarrow> bool" where
  "timer_ok h \<longleftrightarrow> (bit (csrs h Hvip) 6 \<longleftrightarrow> \<not> bit (csrs h Sie) 5)"

definition same_ctx :: "TrapContext \<Rightarrow> TrapContext \<Rightarrow> bool" where
  "same_ctx c c' \<longleftrightarrow> ctx_hgatp c' = ctx_hgatp c \<and> ctx_kernel_sp c' = ctx_kernel_sp c \<and>
     ctx_trap_handler c' = ctx_trap_handler c \<and> ctx_hstatus c' = ctx_hstatus c \<and>
     ctx_sstatus c' = ctx_sstatus c \<and> length (ctx_x c') = length (ctx_x c)"

definition same_hart :: "hart \<Rightarrow> hart \<Rightarrow> bool" where
  "same_hart h h' \<longleftrightarrow> gprs h' = gprs h \<and> pc h' = pc h \<and> virt h' = virt h \<and> supervisor h' = supervisor h \<and>
     (\<forall>c. c \<notin> {Hvip, Sie, Vsepc, Vscause} \<longrightarrow> csrs h' c = csrs h c)"

definition exit_step :: "(event \<Rightarrow> bool) \<Rightarrow> machine \<Rightarrow> machine \<Rightarrow> bool" where
  "exit_step G m m' \<longleftrightarrow> mem m' = mem m \<and> FRAME_ALLOCATOR m' = FRAME_ALLOCATOR m \<and> HOST_VMM m' = HOST_VMM m \<and>
     same_ctx (trap_ctx m) (trap_ctx m') \<and> same_hart (hart m) (hart m') \<and>
     (\<exists>es. events m' = es @ events m \<and> list_all G es) \<and> (timer_ok (hart m) \<longrightarrow> timer_ok (hart m'))"

definition same_vmm :: "Vmm \<Rightarrow> Vmm \<Rightarrow> bool" where
  "same_vmm v v' \<longleftrightarrow> host_machine v' = host_machine v \<and> hpm v' = hpm v \<and> guests v' = guests v \<and>
     vm_guest_id v' = vm_guest_id v \<and>
     map_option plic_base_addr (host_plic v') = map_option plic_base_addr (host_plic v) \<and>
     map_option (\<lambda>p. length (claim_complete p)) (host_plic v') = map_option (\<lambda>p. length (claim_complete p)) (host_plic v)"

lemma exit_step_refl: "exit_step G m m"
  by (simp add: exit_step_def same_ctx_def same_hart_def)

lemma exit_step_trans:
  assumes "exit_step G m m'" "exit_step G m' m''"
  shows "exit_step G m m''"
proof -
  obtain es es' where "events m' = es @ events m" "list_all G es" "events m'' = es' @ events m'" "list_all G es'"
    using assms by (auto simp: exit_step_def)
  then have "\<exists>es. events m'' = es @ events m \<and> list_all G es" by (intro exI [of _ "es' @ es"]) simp
  with assms show ?thesis by (simp add: exit_step_def same_ctx_def same_hart_def)
qed

lemma same_vmm_refl [simp]: "same_vmm v v"
  by (simp add: same_vmm_def)

section \<open>The primitives\<close>

named_theorems exit_steps \<open>the steps of the handlers\<close>

lemma exit_step_log [exit_steps]: "G e \<Longrightarrow> exit_step G m (log_event e m)"
  by (simp add: exit_step_def same_ctx_def same_hart_def log_event_def)

lemma exit_step_ctx_set: "ctx_set r v m = Inr m' \<Longrightarrow> exit_step G m m'"
  by (auto simp: ctx_set_def set_index_def exit_step_def same_ctx_def same_hart_def split: if_splits)

lemma exit_step_sepc: "exit_step G m (m\<lparr>trap_ctx := (trap_ctx m)\<lparr>ctx_sepc := v\<rparr>\<rparr>)"
  by (simp add: exit_step_def same_ctx_def same_hart_def)

lemma exit_step_add_sepc: "add_sepc n m = Inr m' \<Longrightarrow> exit_step G m m'"
  by (auto simp: add_sepc_def exit_step_sepc)

lemma exit_step_hart:
  assumes "same_hart (hart m) (f (hart m))" "timer_ok (hart m) \<Longrightarrow> timer_ok (f (hart m))"
  shows "exit_step G m (on_hart f m)"
  using assms by (simp add: exit_step_def same_ctx_def on_hart_def)

lemma exit_step_arm [exit_steps]:
  "G (RtCall (Rt_set_timer t)) \<Longrightarrow> exit_step G m (arm_timer E t m)"
  unfolding arm_timer_def set_timer_def do_rt_def snd_conv
  by (rule exit_step_trans [OF exit_step_log], assumption, rule exit_step_hart)
     (auto simp: same_hart_def timer_ok_def pending_defs bit_simps)

lemma exit_step_vseip [exit_steps]:
  "exit_step G m (on_hart (clear_csr Hvip VSEIP) m)" "exit_step G m (on_hart (set_csr Hvip VSEIP) m)"
  by (rule exit_step_hart; auto simp: same_hart_def timer_ok_def pending_defs bit_simps)+

lemma exit_step_timer [exit_steps]:
  "exit_step G m (on_hart (\<lambda>h. clear_csr Sie STIP (set_csr Hvip VSTIP h)) m)"
  by (rule exit_step_hart) (auto simp: same_hart_def timer_ok_def pending_defs bit_simps)

lemma exit_step_forward [exit_steps]: "exit_step G m (forward_exception m)"
  unfolding forward_exception_def Let_def
  by (rule exit_step_trans [OF exit_step_hart exit_step_sepc])
     (auto simp: same_hart_def timer_ok_def)

section \<open>The firmware calls\<close>

definition sbi_event :: "event \<Rightarrow> bool" where
  "sbi_event e = (case e of Ecall eid _ _ \<Rightarrow> eid = SBI_EXTID_BASE \<or> eid = SBI_CONSOLE_PUTCHAR \<or> eid = SBI_CONSOLE_GETCHAR
     | RtCall c \<Rightarrow> c \<noteq> Rt_shutdown \<and> c \<noteq> Rt_probe_hsm | _ \<Rightarrow> False)"

lemma guest_event_sbi: "sbi_event e \<Longrightarrow> guest_event p gid e"
  by (cases e) (auto simp: sbi_event_def guest_event_def)

lemma exit_step_mono: "exit_step G m m' \<Longrightarrow> (\<And>e. G e \<Longrightarrow> H e) \<Longrightarrow> exit_step H m m'"
  unfolding exit_step_def by (metis list.pred_mono_strong)

lemma sbi_dispatch_step:
  assumes "sbi_dispatch E ext_id fid m = Inr (r, m')"
  shows "exit_step sbi_event m m'"
  using assms
  by (auto simp: sbi_dispatch_def sbi_base_handler_def sbi_call_1_def sbi_rt_value_def do_ecall_def do_rt_def
      sbi_time_handler_def sbi_console_putchar_handler_def sbi_console_getchar_handler_def console_putchar_def
      console_getchar_def sbi_call_def sbi_legacy_set_time_def sbi_event_def
      intro!: exit_steps exit_step_refl split: if_splits prod.splits)

lemma sbi_vs_handler_step:
  assumes "sbi_vs_handler E m = Inr (r, m')"
  shows "exit_step sbi_event m m'" "r = Inr ()"
  using assms unfolding sbi_vs_handler_def
  by (auto elim!: exit_step_trans [OF exit_step_trans [OF sbi_dispatch_step exit_step_ctx_set] exit_step_ctx_set])

section \<open>The interrupt controller\<close>

lemma handle_plic_access_step:
  assumes "handle_plic_access v a i m = Inr (r, v', m')"
  shows "exit_step (guest_event (host_plic v) gid) m m'" "same_vmm v v'"
proof -
  obtain p where p: "host_plic v = Some p" "0x200000 \<le> a - plic_base_addr p"
    "a - plic_base_addr p < 0x200000 + 0x1000 * MAX_CONTEXTS"
    using assms by (auto simp: handle_plic_access_def result_simps Let_def split: if_splits)
  then have e: "guest_event (host_plic v) gid (MmioWrite a w)" for w by (simp add: guest_event_def)
  have w: "exit_step (guest_event (host_plic v) gid) m (log_event (MmioWrite a w) m)" for w
    using e by (rule exit_step_log)
  show "exit_step (guest_event (host_plic v) gid) m m'"
  proof (cases i)
    case (Lw rd)
    then show ?thesis
      using assms p by (auto simp: handle_plic_access_def Let_def split: if_splits
          intro: exit_step_refl exit_step_ctx_set)
  next
    case (Sw rs2)
    then show ?thesis
      using assms p w exit_step_trans [OF w exit_step_vseip(1)]
      by (auto simp: handle_plic_access_def Let_def exit_step_refl split: if_splits)
  next
    case OtherInstruction
    then show ?thesis
      using assms p by (auto simp: handle_plic_access_def Let_def exit_step_refl split: if_splits)
  qed
  show "same_vmm v v'"
    using assms p
    by (auto simp: handle_plic_access_def Let_def same_vmm_def set_index_def split: if_splits Instruction.splits)
qed

lemma handle_irq_step:
  assumes "handle_irq E v m = Inr (v', m')"
  shows "exit_step (guest_event (host_plic v) (vm_guest_id v)) m m'" "same_vmm v v'"
proof -
  obtain p a where p: "host_plic v = Some p"
    "a = plic_base_addr p + 0x200004 + 0x1000 * (2 * vm_guest_id v + 1)"
    "m' = on_hart (set_csr Hvip VSEIP) (log_event (MmioRead a) m)" "same_vmm v v'"
    using assms by (auto simp: handle_irq_def Let_def result_simps same_vmm_def set_index_def split: if_splits)
  then have "guest_event (host_plic v) (vm_guest_id v) (MmioRead a)" by (simp add: guest_event_def)
  then show "exit_step (guest_event (host_plic v) (vm_guest_id v)) m m'" "same_vmm v v'"
    using p exit_step_trans [OF exit_step_log exit_step_vseip(2)] by simp_all
qed

lemma guest_page_fault_handler_step:
  assumes "guest_page_fault_handler E v m = Inr (r, v', m')"
  shows "exit_step (guest_event (host_plic v) gid) m m' \<and> same_vmm v v'"
proof -
  have "v' = v \<and> m' = m \<or> (\<exists>a i r1 m1. handle_plic_access v a i m = Inr (r1, v', m1) \<and>
      (m' = m1 \<or> (\<exists>n. add_sepc n m1 = Inr m')))"
    using assms
    by (fastforce simp: guest_page_fault_handler_def Let_def split: if_splits sum.splits option.splits)
  then show ?thesis
    using exit_step_refl same_vmm_refl handle_plic_access_step exit_step_trans exit_step_add_sepc by metis
qed

section \<open>The trap handler\<close>

lemma same_vmm_counters [simp]:
  "same_vmm v (v'\<lparr>guest_page_falut := n\<rparr>) = same_vmm v v'" "same_vmm v (v'\<lparr>external_irq := n\<rparr>) = same_vmm v v'"
  "same_vmm v (v'\<lparr>timer_irq := n\<rparr>) = same_vmm v v'"
  by (simp_all add: same_vmm_def)

lemma handle_trap_step:
  assumes "handle_trap E v m = Inr (err, v', m')"
  shows "exit_step (guest_event (host_plic v) (vm_guest_id v)) m m' \<and> same_vmm v v'"
proof (cases "scause_cause E (csrs (hart m) Scause)")
  case (Exception e)
  show ?thesis
  proof (cases "e = VirtualSupervisorEnvCall")
    case True
    then obtain r m1 where h: "sbi_vs_handler E m = Inr (r, m1)" "add_sepc 4 m1 = Inr m'" "v' = v"
      using assms Exception by (auto simp: handle_trap_def)
    have "exit_step (guest_event (host_plic v) (vm_guest_id v)) m m1"
      by (rule exit_step_mono [OF sbi_vs_handler_step(1) [OF h(1)] guest_event_sbi])
    from exit_step_trans [OF this exit_step_add_sepc [OF h(2)]] show ?thesis using h(3) by simp
  next
    case False
    then show ?thesis
      using assms Exception
      by (cases e) (auto simp: handle_trap_def privileged_inst_handler_def Let_def exit_step_forward
          dest!: guest_page_fault_handler_step [where gid = "vm_guest_id v"])
  qed
next
  case (Interrupt i)
  then show ?thesis
    using assms
    by (cases i) (auto simp: handle_trap_def Let_def exit_step_forward exit_step_timer dest: handle_irq_step)
qed

end
