(* ===== verification/Guest_Run.thy ===== *)
theory Guest_Run
  imports Vmexit_Frame
begin

text \<open>
  Running a guest: a whole exit (\<open>__alltraps\<close>, \<open>trap_handler\<close>, \<open>__restore\<close>), the
  state in which a guest runs, and that every exit that does not stop the machine
  leads back to it.
\<close>

section \<open>The state in which a guest runs\<close>

definition plic_ok :: "PlicState option \<Rightarrow> bool" where
  "plic_ok p \<longleftrightarrow> (\<forall>pl. p = Some pl \<longrightarrow> length (claim_complete pl) = unat MAX_CONTEXTS)"

definition guest_running :: "trap_symbols \<Rightarrow> machine \<Rightarrow> bool" where
  "guest_running S m \<longleftrightarrow> hart_ok (hart m) \<and> ctx_ok (trap_ctx m) \<and> virt (hart m) \<and>
     csrs (hart m) Sscratch = TRAP_CONTEXT \<and> csrs (hart m) Stvec = TRAMPOLINE \<and>
     csrs (hart m) Hgatp = ctx_hgatp (trap_ctx m) \<and> ctx_trap_handler (trap_ctx m) = sym_trap_handler S \<and>
     timer_ok (hart m) \<and>
     (\<exists>v. HOST_VMM m = Some \<lparr>mutex_inner = v, mutex_locked = False\<rparr> \<and> plic_ok (host_plic v))"

text \<open>\<open>the_vmm\<close> is what the lock protects.\<close>

definition the_vmm :: "machine \<Rightarrow> Vmm" where
  "the_vmm m = mutex_inner (the (HOST_VMM m))"

text \<open>Control registers that an exit leaves as they were.\<close>

definition kept_csrs :: "csr set" where
  "kept_csrs = {Satp, Hgatp, Hedeleg, Hideleg, Hcounteren, Vstvec, Vsatp, Vsstatus}"

text \<open>What stays from one run of the guest to the next.\<close>

definition exit_keeps :: "machine \<Rightarrow> machine \<Rightarrow> bool" where
  "exit_keeps m m' \<longleftrightarrow> mem m' = mem m \<and> FRAME_ALLOCATOR m' = FRAME_ALLOCATOR m \<and>
     same_vmm (the_vmm m) (the_vmm m') \<and> ctx_hgatp (trap_ctx m') = ctx_hgatp (trap_ctx m) \<and>
     ctx_kernel_sp (trap_ctx m') = ctx_kernel_sp (trap_ctx m) \<and>
     (\<forall>c \<in> kept_csrs. csrs (hart m') c = csrs (hart m) c) \<and>
     (\<exists>es. events m' = es @ events m \<and> list_all (guest_event (host_plic (the_vmm m)) (vm_guest_id (the_vmm m))) es)"

section \<open>Entering and leaving the handler\<close>

lemma run_alltraps:
  assumes "hart_ok (hart m)" "ctx_ok (trap_ctx m)" "csrs (hart m) Sscratch = TRAP_CONTEXT"
  shows "\<exists>h. run_asm alltraps_code m = Inr (m\<lparr>hart := h, trap_ctx := saved_ctx (hart m) (trap_ctx m)\<rparr>) \<and>
    hart_ok h \<and> csrs h = (csrs (hart m))(Sscratch := get_gpr 2 (hart m)) \<and>
    pc h = ctx_trap_handler (trap_ctx m) \<and> get_gpr 2 h = ctx_kernel_sp (trap_ctx m) \<and>
    get_gpr 4 h = get_gpr 4 (hart m)"
  using exec_alltraps [OF assms] by (auto simp: run_asm_def simp del: TRAP_CONTEXT_def)

lemma run_restore:
  assumes "hart_ok (hart m)" "ctx_ok (trap_ctx m)" "get_gpr 10 (hart m) = TRAP_CONTEXT"
  shows "\<exists>h. run_asm restore_code m = Inr (m\<lparr>hart := h\<rparr>) \<and> resumed (hart m) TRAP_CONTEXT (trap_ctx m) h \<and>
    (\<forall>r < 32. get_gpr r h = restored_gpr (hart m) (trap_ctx m) r)"
  using exec_restore [OF assms] assms(2) by (auto simp: run_asm_def words_ctx_words simp del: TRAP_CONTEXT_def)

lemma install_hgatp_returned:
  assumes "install_hgatp E m = Inr m'"
  shows "csrs (hart m') Hgatp = ctx_hgatp (trap_ctx m)" "m' = m\<lparr>hart := hart m'\<rparr>" "gprs (hart m') = gprs (hart m)"
    "\<And>c. c \<noteq> Hgatp \<Longrightarrow> csrs (hart m') c = csrs (hart m) c"
  using assms by (auto simp: install_hgatp_def on_hart_def Let_def result_simps split: if_splits)

lemma switch_to_guest_returned:
  assumes "switch_to_guest E S m = Inr m'" "hart_ok (hart m)"
  shows "m' = m\<lparr>hart := hart m'\<rparr>" "hart_ok (hart m')" "get_gpr 10 (hart m') = TRAP_CONTEXT"
    "get_gpr 4 (hart m') = get_gpr 4 (hart m)"
    "csrs (hart m') Hgatp = ctx_hgatp (trap_ctx m)" "csrs (hart m') Stvec = TRAMPOLINE"
    "\<And>c. c \<noteq> Hgatp \<Longrightarrow> c \<noteq> Stvec \<Longrightarrow> csrs (hart m') c = csrs (hart m) c"
proof -
  let ?m1 = "set_user_trap_entry m"
  obtain m2 va where m2: "install_hgatp E ?m1 = Inr m2"
    "m' = on_hart (\<lambda>h. (set_gpr 10 TRAP_CONTEXT h)\<lparr>pc := va\<rparr>) m2"
    using assms(1) unfolding switch_to_guest_def Let_def by auto
  note i = install_hgatp_returned [OF m2(1)]
  have ok: "hart_ok (hart m2)" using i(3) assms(2) by (simp add: hart_ok_def set_user_trap_entry_def on_hart_def)
  show "m' = m\<lparr>hart := hart m'\<rparr>"
    using i(2) m2(2) by (cases m, cases m2) (simp add: on_hart_def set_user_trap_entry_def)
  show "hart_ok (hart m')" using m2(2) ok by (simp add: on_hart_def)
  show "get_gpr 10 (hart m') = TRAP_CONTEXT"
    using m2(2) ok by (simp add: on_hart_def get_set_gpr del: TRAP_CONTEXT_def)
  have "get_gpr 4 (hart m2) = get_gpr 4 (hart m)"
    using i(3) by (simp add: get_gpr_def set_user_trap_entry_def on_hart_def write_csr_def)
  then show "get_gpr 4 (hart m') = get_gpr 4 (hart m)" using m2(2) ok by (simp add: on_hart_def get_set_gpr)
  show "csrs (hart m') Hgatp = ctx_hgatp (trap_ctx m)" "csrs (hart m') Stvec = TRAMPOLINE"
    "\<And>c. c \<noteq> Hgatp \<Longrightarrow> c \<noteq> Stvec \<Longrightarrow> csrs (hart m') c = csrs (hart m) c"
    using i(1,4) m2(2) by (simp_all add: on_hart_def set_user_trap_entry_def)
qed

section \<open>The handler\<close>

text \<open>The state in which \<open>handle_trap\<close> works: kernel trap entry set, \<open>HOST_VMM\<close> locked.\<close>

definition locked_state :: "trap_symbols \<Rightarrow> machine \<Rightarrow> machine" where
  "locked_state S m = m\<lparr>hart := write_csr Sscratch (sym_trap_from_kernel S)
       (write_csr Stvec (sym_alltraps_k S - sym_alltraps S + TRAMPOLINE) (hart m)),
     HOST_VMM := Some \<lparr>mutex_inner = the_vmm m, mutex_locked = True\<rparr>\<rparr>"

lemma trap_handler_returned:
  assumes "trap_handler E S m = Inr m'" "HOST_VMM m = Some \<lparr>mutex_inner = v, mutex_locked = False\<rparr>"
  obtains v' m3 where "handle_trap E v (locked_state S m) = Inr (None, v', m3)"
    "switch_to_guest E S (vmm_unlock v' m3) = Inr m'"
proof -
  obtain m1 err v' m3 where h: "set_kernel_trap_entry S m = Inr m1"
    "handle_trap E v (m1\<lparr>HOST_VMM := Some \<lparr>mutex_inner = v, mutex_locked = True\<rparr>\<rparr>) = Inr (err, v', m3)"
    "(case err of Some e \<Rightarrow> handle_internal_vmm_error e | None \<Rightarrow> switch_to_guest E S (vmm_unlock v' m3)) = Inr m'"
    using assms by (auto simp: trap_handler_def vmm_lock_def set_kernel_trap_entry_def on_hart_def Let_def)
  have "m1\<lparr>HOST_VMM := Some \<lparr>mutex_inner = v, mutex_locked = True\<rparr>\<rparr> = locked_state S m"
    using h(1) assms(2)
    by (auto simp: set_kernel_trap_entry_def trampoline_va_def on_hart_def locked_state_def the_vmm_def result_simps)
  with h that show thesis by (cases err) (auto simp: handle_internal_vmm_error_def)
qed

text \<open>
  The two stations of an exit between the assembly and the handler: what has
  been saved of the guest, and what of \<open>m\<close> is still there.
\<close>

definition in_handler :: "Vmm \<Rightarrow> machine \<Rightarrow> machine \<Rightarrow> bool" where
  "in_handler v m m' \<longleftrightarrow> mem m' = mem m \<and> FRAME_ALLOCATOR m' = FRAME_ALLOCATOR m \<and>
     HOST_VMM m' = Some \<lparr>mutex_inner = v, mutex_locked = False\<rparr> \<and> same_vmm (the_vmm m) v \<and>
     hart_ok (hart m') \<and> ctx_ok (trap_ctx m') \<and> bit (ctx_hstatus (trap_ctx m')) 7 \<and>
     ctx_hgatp (trap_ctx m') = ctx_hgatp (trap_ctx m) \<and>
     ctx_trap_handler (trap_ctx m') = ctx_trap_handler (trap_ctx m) \<and>
     ctx_kernel_sp (trap_ctx m') = ctx_kernel_sp (trap_ctx m) \<and>
     (\<forall>c \<in> kept_csrs. csrs (hart m') c = csrs (hart m) c) \<and> timer_ok (hart m') \<and>
     (\<exists>es. events m' = es @ events m \<and> list_all (guest_event (host_plic (the_vmm m)) (vm_guest_id (the_vmm m))) es)"

lemma enter_handler:
  assumes "guest_running S m"
  shows "\<exists>m0 m1. run_asm alltraps_code (on_hart (hw_trap cause tval gpa inst) m) = Inr m0 \<and> m1 = clobbered E m0 \<and>
    in_handler (the_vmm m) m m1 \<and> events m1 = events m \<and>
    trap_ctx m1 = saved_ctx (hw_trap cause tval gpa inst (hart m)) (trap_ctx m) \<and>
    (\<forall>c. c \<noteq> Sscratch \<longrightarrow> csrs (hart m1) c = csrs (hw_trap cause tval gpa inst (hart m)) c) \<and>
    get_gpr 4 (hart m1) = get_gpr 4 (hart m)"
proof -
  let ?h = "hw_trap cause tval gpa inst (hart m)" and ?m0 = "on_hart (hw_trap cause tval gpa inst) m"
  obtain v where v: "HOST_VMM m = Some \<lparr>mutex_inner = v, mutex_locked = False\<rparr>"
    and rr: "hart_ok (hart m)" "ctx_ok (trap_ctx m)" "virt (hart m)" "csrs (hart m) Sscratch = TRAP_CONTEXT"
      "timer_ok (hart m)"
    using assms unfolding guest_running_def by blast
  have h0: "hart_ok (hart ?m0)" "ctx_ok (trap_ctx ?m0)" "csrs (hart ?m0) Sscratch = TRAP_CONTEXT"
    using rr by (simp_all add: on_hart_def hw_trap_def hart_ok_def)
  obtain h where h: "run_asm alltraps_code ?m0 = Inr (?m0\<lparr>hart := h, trap_ctx := saved_ctx (hart ?m0) (trap_ctx ?m0)\<rparr>)"
    "hart_ok h" "csrs h = (csrs (hart ?m0))(Sscratch := get_gpr 2 (hart ?m0))" "get_gpr 4 h = get_gpr 4 (hart ?m0)"
    using run_alltraps [OF h0] by blast
  let ?m1 = "?m0\<lparr>hart := h, trap_ctx := saved_ctx (hart ?m0) (trap_ctx ?m0)\<rparr>"
  have c: "csrs h c = csrs ?h c" if "c \<noteq> Sscratch" for c using h(3) that by (simp add: on_hart_def)
  have "timer_ok h" using rr(5) c by (simp add: timer_ok_def hw_trap_def)
  moreover have "csrs h c = csrs (hart m) c" if "c \<in> kept_csrs" for c
    using c [of c] that by (auto simp: kept_csrs_def hw_trap_def)
  moreover have "bit (csrs ?h Hstatus) 7" using rr(3) by (simp add: hw_trap_def)
  ultimately have "in_handler v m (clobbered E ?m1)"
    using v h(2) by (simp add: in_handler_def on_hart_def the_vmm_def saved_ctx_def ctx_ok_def saved_regs_def
        clobbered_def timer_ok_def)
  moreover have "get_gpr 4 (hart (clobbered E ?m1)) = get_gpr 4 (hart m)"
    using h(4) by (simp add: clobbered_def on_hart_def get_gpr_clobber)
  ultimately show ?thesis
    using h(1) c v by (intro exI [of _ ?m1] exI [of _ "clobbered E ?m1"]) (simp add: on_hart_def the_vmm_def clobbered_def)
qed

lemma in_handler_trans:
  assumes i: "in_handler v m m1" and st: "exit_step (guest_event (host_plic v) (vm_guest_id v)) (locked_state S m1) m2"
    and v: "same_vmm v v'"
  shows "in_handler v' m (vmm_unlock v' m2)"
proof -
  have vm: "the_vmm m1 = v" "same_vmm (the_vmm m) v" using i by (simp_all add: in_handler_def the_vmm_def)
  have g: "guest_event (host_plic v) (vm_guest_id v) = guest_event (host_plic (the_vmm m)) (vm_guest_id (the_vmm m))"
    using vm(2) by (intro ext) (cases "host_plic v"; cases "host_plic (the_vmm m)";
        auto simp: guest_event_def same_vmm_def split: event.splits)
  have sh: "same_hart (hart (locked_state S m1)) (hart m2)" "same_ctx (trap_ctx m1) (trap_ctx m2)"
    "mem m2 = mem m1" "FRAME_ALLOCATOR m2 = FRAME_ALLOCATOR m1"
    using st by (simp_all add: exit_step_def locked_state_def)
  have k: "csrs (hart m2) c = csrs (hart m) c" if c: "c \<in> kept_csrs" for c
  proof -
    have "csrs (hart m2) c = csrs (hart (locked_state S m1)) c"
      using sh(1) c by (auto simp: same_hart_def kept_csrs_def)
    also have "\<dots> = csrs (hart m1) c" using c by (auto simp: locked_state_def kept_csrs_def)
    also have "\<dots> = csrs (hart m) c" using i c by (simp add: in_handler_def)
    finally show ?thesis .
  qed
  have "timer_ok (hart (locked_state S m1))"
    using i by (simp add: timer_ok_def locked_state_def in_handler_def)
  then have t: "timer_ok (hart m2)" using st by (simp add: exit_step_def)
  have e: "\<exists>es. events m2 = es @ events m \<and> list_all (guest_event (host_plic (the_vmm m)) (vm_guest_id (the_vmm m))) es"
  proof -
    obtain es es' where "events m1 = es @ events m" "events m2 = es' @ events m1"
      "list_all (guest_event (host_plic (the_vmm m)) (vm_guest_id (the_vmm m))) es"
      "list_all (guest_event (host_plic v) (vm_guest_id v)) es'"
      using i st by (auto simp: in_handler_def exit_step_def locked_state_def)
    then show ?thesis using g by (intro exI [of _ "es' @ es"]) simp
  qed
  have "same_vmm (the_vmm m) v'" using vm(2) v by (simp add: same_vmm_def)
  moreover have "hart_ok (hart m2)" "ctx_ok (trap_ctx m2)" "bit (ctx_hstatus (trap_ctx m2)) 7"
    "ctx_hgatp (trap_ctx m2) = ctx_hgatp (trap_ctx m)" "ctx_trap_handler (trap_ctx m2) = ctx_trap_handler (trap_ctx m)"
    "ctx_kernel_sp (trap_ctx m2) = ctx_kernel_sp (trap_ctx m)" "mem m2 = mem m" "FRAME_ALLOCATOR m2 = FRAME_ALLOCATOR m"
    using sh i by (simp_all add: same_hart_def same_ctx_def locked_state_def in_handler_def hart_ok_def ctx_ok_def)
  ultimately show ?thesis using k t e by (simp add: in_handler_def vmm_unlock_def)
qed

lemma leave_handler:
  assumes i: "in_handler v m m1" and sw: "switch_to_guest E S m1 = Inr m2" and ex: "run_asm restore_code m2 = Inr m'"
    and r: "guest_running S m"
  shows "guest_running S m' \<and> exit_keeps m m'"
proof -
  have i': "hart_ok (hart m1)" "ctx_ok (trap_ctx m1)" "bit (ctx_hstatus (trap_ctx m1)) 7" "timer_ok (hart m1)"
    "\<forall>c \<in> kept_csrs. csrs (hart m1) c = csrs (hart m) c" "ctx_hgatp (trap_ctx m1) = ctx_hgatp (trap_ctx m)"
    "ctx_trap_handler (trap_ctx m1) = ctx_trap_handler (trap_ctx m)" "HOST_VMM m1 = Some \<lparr>mutex_inner = v, mutex_locked = False\<rparr>"
    "same_vmm (the_vmm m) v"
    using i by (simp_all add: in_handler_def)
  have r': "csrs (hart m) Hgatp = ctx_hgatp (trap_ctx m)" "ctx_trap_handler (trap_ctx m) = sym_trap_handler S"
    "plic_ok (host_plic (the_vmm m))"
    using r by (auto simp: guest_running_def the_vmm_def)
  note s = switch_to_guest_returned [OF sw i'(1)]
  have m2: "trap_ctx m2 = trap_ctx m1" "mem m2 = mem m1" "FRAME_ALLOCATOR m2 = FRAME_ALLOCATOR m1"
    "events m2 = events m1" "HOST_VMM m2 = HOST_VMM m1"
    by (subst s(1), simp)+
  obtain h' where h': "m' = m2\<lparr>hart := h'\<rparr>" "resumed (hart m2) TRAP_CONTEXT (trap_ctx m2) h'"
    using run_restore [OF s(2) _ s(3)] ex i'(2) m2(1) by auto
  have c': "csrs h' c = csrs (hart m2) c" if "c \<notin> {Sscratch, Sstatus, Sepc, Hstatus}" for c
    using h'(2) that by (simp add: resumed_def)
  have t: "timer_ok h'" using i'(4) c' s(7) by (simp add: timer_ok_def)
  have hg: "csrs h' Hgatp = ctx_hgatp (trap_ctx m1)" "csrs h' Stvec = TRAMPOLINE"
    using c' [of Hgatp] c' [of Stvec] s(5,6) by simp_all
  have k: "csrs h' c = csrs (hart m) c" if "c \<in> kept_csrs" for c
    using c' [of c] s(7) [of c] i'(5,6) hg(1) r'(1) that by (cases "c = Hgatp") (auto simp: kept_csrs_def)
  have "plic_ok (host_plic v)"
    using r'(3) i'(9) by (cases "host_plic (the_vmm m)") (auto simp: same_vmm_def plic_ok_def)
  then have "guest_running S m'"
    using h' m2 i' r'(2) t hg by (simp add: guest_running_def resumed_def)
  moreover have "exit_keeps m m'"
    using h'(1) m2 k i by (simp add: exit_keeps_def in_handler_def kept_csrs_def the_vmm_def)
  ultimately show ?thesis by blast
qed

lemma vm_exit_returned:
  assumes r: "guest_running S m" and ex: "vm_exit E S (on_hart (hw_trap cause tval gpa inst) m) = Inr m'"
  shows "guest_running S m' \<and> exit_keeps m m'"
proof -
  obtain m0 m1 where m1: "run_asm alltraps_code (on_hart (hw_trap cause tval gpa inst) m) = Inr m0"
    "in_handler (the_vmm m) m m1" "m1 = clobbered E m0"
    using enter_handler [OF r] by blast
  obtain m5 where m5: "trap_handler E S m1 = Inr m5" "run_asm restore_code m5 = Inr m'"
    using ex m1(1,3) by (auto simp: vm_exit_def)
  have "HOST_VMM m1 = Some \<lparr>mutex_inner = the_vmm m, mutex_locked = False\<rparr>" using m1(2) by (simp add: in_handler_def)
  from trap_handler_returned [OF m5(1) this] obtain v' m3 where
    t: "handle_trap E (the_vmm m) (locked_state S m1) = Inr (None, v', m3)"
    "switch_to_guest E S (vmm_unlock v' m3) = Inr m5" by blast
  note st = handle_trap_step [OF t(1)]
  have "in_handler v' m (vmm_unlock v' m3)"
    by (rule in_handler_trans [OF m1(2) conjunct1 [OF st] conjunct2 [OF st]])
  from leave_handler [OF this t(2) m5(2) r] show ?thesis .
qed

end
