(* ===== verification/Sv39x4.thy ===== *)
theory Sv39x4
  imports Guest_Memory Sv39_Walk
begin

text \<open>
  The second stage as the hardware sees it. \<open>hgatp\<close> selects Sv39x4: the root table
  has four pages and guest-physical addresses have 41 bits, whereas the code
  builds a table for 39 bits in the first root page. The other three pages must
  stay empty for the guest to have no more than the code maps; this theory
  proves that they do.
\<close>

section \<open>Frames a table owns but does not use\<close>

text \<open>The list of frames is only appended to: no operation looks at it.\<close>

lemma descend_frames:
  assumes "descend t i pt s = Inr (t', pt', s')"
  shows "\<exists>N. pt' = pt\<lparr>pt_frames := pt_frames pt @ N\<rparr> \<and>
    (\<forall>F. descend t i (pt\<lparr>pt_frames := F\<rparr>) s = Inr (t', pt\<lparr>pt_frames := F @ N\<rparr>, s'))"
proof (cases "pte_valid (pte_at (mem s) t i)")
  case True
  then show ?thesis using assms by (intro exI [of _ "[]"]) (auto simp: descend_def)
next
  case False
  then obtain f s1 where "frame_alloc_unwrap s = Inr (f, s1)" "pt' = pt\<lparr>pt_frames := pt_frames pt @ [f]\<rparr>"
    using assms by (auto simp: descend_def)
  then show ?thesis using assms False by (intro exI [of _ "[f]"]) (auto simp: descend_def)
qed

lemma find_pte_create_frames:
  assumes "find_pte_create pt v s = Inr (r, pt', s')"
  shows "\<exists>N. pt' = pt\<lparr>pt_frames := pt_frames pt @ N\<rparr> \<and>
    (\<forall>F. find_pte_create (pt\<lparr>pt_frames := F\<rparr>) v s = Inr (r, pt\<lparr>pt_frames := F @ N\<rparr>, s'))"
proof -
  obtain t1 pt1 s1 t2 where d: "descend (root_ppn pt) (hd (vpn_path v)) pt s = Inr (t1, pt1, s1)"
    "descend t1 (last (vpn_path v)) pt1 s1 = Inr (t2, pt', s')" "r = Some (pte_addr t2 (vpn_leaf v))"
    using assms unfolding find_pte_create_descend by auto
  obtain N1 where n1: "pt1 = pt\<lparr>pt_frames := pt_frames pt @ N1\<rparr>"
    "\<And>F. descend (root_ppn pt) (hd (vpn_path v)) (pt\<lparr>pt_frames := F\<rparr>) s = Inr (t1, pt\<lparr>pt_frames := F @ N1\<rparr>, s1)"
    using descend_frames [OF d(1)] by blast
  obtain N2 where n2: "pt' = pt1\<lparr>pt_frames := pt_frames pt1 @ N2\<rparr>"
    "\<And>F. descend t1 (last (vpn_path v)) (pt1\<lparr>pt_frames := F\<rparr>) s1 = Inr (t2, pt1\<lparr>pt_frames := F @ N2\<rparr>, s')"
    using descend_frames [OF d(2)] by blast
  have "descend t1 (last (vpn_path v)) (pt\<lparr>pt_frames := F\<rparr>) s1 = Inr (t2, pt\<lparr>pt_frames := F @ N2\<rparr>, s')" for F
    using n2(2) [of F] n1(1) by simp
  then show ?thesis
    using n1 n2(1) d(3) by (intro exI [of _ "N1 @ N2"]) (simp add: find_pte_create_descend)
qed

lemma sv39_map_frames:
  assumes "sv39_map pt v ppn fl s = Inr (pt', s')"
  shows "\<exists>N. pt' = pt\<lparr>pt_frames := pt_frames pt @ N\<rparr> \<and>
    (\<forall>F. sv39_map (pt\<lparr>pt_frames := F\<rparr>) v ppn fl s = Inr (pt\<lparr>pt_frames := F @ N\<rparr>, s'))"
proof -
  obtain r s1 where "find_pte_create pt v s = Inr (r, pt', s1)" using assms by (auto simp: sv39_map_def)
  with find_pte_create_frames [OF this] assms show ?thesis by (auto simp: sv39_map_def)
qed

lemma sv39_unmap_frames:
  "sv39_unmap (pt\<lparr>pt_frames := F\<rparr>) v s = bindR (sv39_unmap pt v s) (\<lambda>(pt', s'). Inr (pt\<lparr>pt_frames := F\<rparr>, s'))"
  by (cases "find_pte pt v s") (auto simp: sv39_unmap_def find_pte_eq bindR_def split: sum.split)

text \<open>\<open>unused X pt s\<close>: the table owns the frames \<open>X\<close> and none of its paths leads there.\<close>

definition unused :: "PhysPageNum set \<Rightarrow> PageTableSv39 \<Rightarrow> 'x world_scheme \<Rightarrow> bool" where
  "unused X pt s \<longleftrightarrow> X \<subseteq> sv39_tables pt \<and>
     (\<forall>\<pi> t. path_ok \<pi> \<longrightarrow> table_at (mem s) (root_ppn pt) \<pi> = Some t \<longrightarrow> t \<notin> X)"

definition without :: "PhysPageNum set \<Rightarrow> PageTableSv39 \<Rightarrow> PageTableSv39" where
  "without X pt = pt\<lparr>pt_frames := filter (\<lambda>f. ft_ppn f \<notin> X) (pt_frames pt)\<rparr>"

lemma without_simps [simp]:
  "root_ppn (without X pt) = root_ppn pt" "sv39_view (without X pt) s = sv39_view pt s"
  "sv39_tables (without X pt) = sv39_tables pt - X"
  by (auto simp: without_def sv39_view_def sv39_tables_def fun_eq_iff)

lemma without_inv:
  assumes "sv39_inv base pt s" "unused X pt s"
  shows "sv39_inv base (without X pt) s"
proof -
  note parts = sv39_inv_parts [OF assms(1)]
  have "tree_ok (mem s) (root_ppn pt) (sv39_tables pt - X)"
    using parts(3) assms(2) unfolding tree_ok_def unused_def by (auto 0 3)
  then show ?thesis using parts by (auto simp: sv39_inv_def)
qed

lemma unused_grown:
  assumes inv: "sv39_inv base pt s" and u: "unused X pt s"
    and g: "grown base (sv39_tables pt - X) T' s s'" and tree: "tree_ok (mem s') (root_ppn pt) T'"
    and sub: "X \<subseteq> sv39_tables pt'" "root_ppn pt' = root_ppn pt" and q: "q \<in> X"
  shows "unused X pt' s'" "page_same q (mem s) (mem s')"
proof -
  have X: "X \<subseteq> live base s" using u sv39_inv_parts(2) [OF inv] by (auto simp: unused_def)
  have d: "X \<inter> T' = {}" using grown_other(1) [OF g X] by blast
  show "page_same q (mem s) (mem s')" using grown_other(3) [OF g X _ q] by blast
  show "unused X pt' s'" using sub tree_ok_in [OF tree] d by (auto simp: unused_def)
qed

lemma sv39_map_unused:
  assumes inv: "sv39_inv base pt s" and u: "unused X pt s" and ok: "vpn_ok v"
    and ret: "sv39_map pt v ppn fl s = Inr (pt', s')" and q: "q \<in> X"
  shows "unused X pt' s'" "page_same q (mem s) (mem s')"
proof -
  obtain N where N: "pt' = pt\<lparr>pt_frames := pt_frames pt @ N\<rparr>"
    "\<And>F. sv39_map (pt\<lparr>pt_frames := F\<rparr>) v ppn fl s = Inr (pt\<lparr>pt_frames := F @ N\<rparr>, s')"
    using sv39_map_frames [OF ret] by blast
  let ?p = "without X pt" and ?p' = "pt\<lparr>pt_frames := filter (\<lambda>f. ft_ppn f \<notin> X) (pt_frames pt) @ N\<rparr>"
  have m: "sv39_map ?p v ppn fl s = Inr (?p', s')" using N(2) by (simp add: without_def)
  note r = sv39.map_returned [OF without_inv [OF inv u] ok m]
  have sub: "X \<subseteq> sv39_tables pt'" using u N(1) by (auto simp: unused_def sv39_tables_def)
  have "root_ppn pt' = root_ppn pt" using N(1) by simp
  moreover have "tree_ok (mem s') (root_ppn pt) (sv39_tables ?p')" using sv39_inv_parts(3) [OF r(2)] by simp
  moreover have "grown base (sv39_tables pt - X) (sv39_tables ?p') s s'" using r(4) by simp
  ultimately show "unused X pt' s'" "page_same q (mem s) (mem s')"
    using unused_grown [OF inv u _ _ sub] q by blast+
qed

lemma sv39_unmap_unused:
  assumes inv: "sv39_inv base pt s" and u: "unused X pt s" and v: "sv39_view pt s v \<noteq> None"
    and ret: "sv39_unmap pt v s = Inr (pt', s')" and q: "q \<in> X"
  shows "unused X pt' s'" "page_same q (mem s) (mem s')"
proof -
  have m: "sv39_unmap (without X pt) v s = Inr (without X pt, s')"
    using sv39_unmap_frames [of "filter (\<lambda>f. ft_ppn f \<notin> X) (pt_frames pt)" pt v s] ret by (simp add: without_def)
  have p: "pt' = pt" using ret by (auto simp: sv39_unmap_def)
  obtain s2 where "sv39_unmap (without X pt) v s = Inr (without X pt, s2)" "sv39_inv base (without X pt) s2"
    "grown base (sv39_tables pt - X) (sv39_tables pt - X) s s2"
    using sv39.unmap_mapped [OF without_inv [OF inv u], of v] v m by auto
  with m have g: "sv39_inv base (without X pt) s'" "grown base (sv39_tables pt - X) (sv39_tables pt - X) s s'" by auto
  have "X \<subseteq> sv39_tables pt" using u by (simp add: unused_def)
  then show "unused X pt' s'" "page_same q (mem s) (mem s')"
    using unused_grown [OF inv u g(2), of pt] sv39_inv_parts(3) [OF g(1)] p q by auto
qed

section \<open>The rest of the root\<close>

definition root_page :: "PageTableSv39 \<Rightarrow> nat \<Rightarrow> PhysPageNum" where
  "root_page pt k = PhysPageNum (ppn_0 (root_ppn pt) + word_of_nat k)"

definition root_rest :: "PageTableSv39 \<Rightarrow> PhysPageNum set" where
  "root_rest pt = root_page pt ` {1, 2, 3}"

definition sv39x4_inv :: "nat \<Rightarrow> PageTableSv39 \<Rightarrow> 'x world_scheme \<Rightarrow> bool" where
  "sv39x4_inv base pt s \<longleftrightarrow> sv39_inv base pt s \<and> unused (root_rest pt) pt s \<and>
     (\<forall>q \<in> root_rest pt. zeroed (mem s) q) \<and> ppn_0 (root_ppn pt) AND 3 = 0"

lemma sv39x4_invD: "sv39x4_inv base pt s \<Longrightarrow> sv39_inv base pt s"
  by (simp add: sv39x4_inv_def)

lemma zeroed_page_same: "page_same q m m' \<Longrightarrow> ppn_ok q \<Longrightarrow> zeroed m q \<Longrightarrow> zeroed m' q"
  by (auto simp: zeroed_def pte_at_page_same)

lemma sv39x4_map:
  assumes i: "sv39x4_inv base pt s" and ok: "vpn_ok v" and ret: "sv39_map pt v ppn fl s = Inr (pt', s')"
  shows "sv39x4_inv base pt' s'"
proof -
  have inv: "sv39_inv base pt s" and u: "unused (root_rest pt) pt s" and z: "\<forall>q \<in> root_rest pt. zeroed (mem s) q"
    and a3: "ppn_0 (root_ppn pt) AND 3 = 0"
    using i by (simp_all add: sv39x4_inv_def)
  have r: "root_ppn pt' = root_ppn pt" using sv39_map_frames [OF ret] by auto
  then have R: "root_rest pt' = root_rest pt" by (simp add: root_rest_def root_page_def)
  have p: "ppn_ok q" if "q \<in> root_rest pt" for q
    using u that tree_ok_ppn [OF sv39_inv_parts(3) [OF inv]] by (auto simp: unused_def)
  have m: "root_page pt 1 \<in> root_rest pt" by (simp add: root_rest_def)
  show ?thesis
    using sv39.map_returned(2) [OF inv ok ret] sv39_map_unused [OF inv u ok ret] m z p a3 zeroed_page_same
    unfolding sv39x4_inv_def R r by blast
qed

lemma sv39x4_unmap:
  assumes i: "sv39x4_inv base pt s" and v: "sv39_view pt s v \<noteq> None" and ret: "sv39_unmap pt v s = Inr (pt', s')"
  shows "sv39x4_inv base pt' s'"
proof -
  have inv: "sv39_inv base pt s" and u: "unused (root_rest pt) pt s" and z: "\<forall>q \<in> root_rest pt. zeroed (mem s) q"
    and a3: "ppn_0 (root_ppn pt) AND 3 = 0"
    using i by (simp_all add: sv39x4_inv_def)
  have R: "pt' = pt" using ret by (auto simp: sv39_unmap_def)
  have p: "ppn_ok q" if "q \<in> root_rest pt" for q
    using u that tree_ok_ppn [OF sv39_inv_parts(3) [OF inv]] by (auto simp: unused_def)
  have m: "root_page pt 1 \<in> root_rest pt" by (simp add: root_rest_def)
  have "sv39_inv base pt s'" using sv39.unmap_mapped [OF inv v] ret R by auto
  then show ?thesis
    using sv39_unmap_unused [OF inv u v ret] m z p a3 zeroed_page_same
    unfolding sv39x4_inv_def R by blast
qed

lemma sv39x4_local:
  fixes s s' :: "'x world_scheme"
  assumes i: "sv39x4_inv base pt s" and a: "alloc_ok base s'" "sv39_tables pt \<subseteq> live base s'"
    and same: "\<And>q. q \<in> sv39_tables pt \<Longrightarrow> page_same q (mem s) (mem s')"
  shows "sv39x4_inv base pt s'"
proof -
  have inv: "sv39_inv base pt s" and u: "unused (root_rest pt) pt s" and z: "\<forall>q \<in> root_rest pt. zeroed (mem s) q"
    and a3: "ppn_0 (root_ppn pt) AND 3 = 0"
    using i by (simp_all add: sv39x4_inv_def)
  note parts = sv39_inv_parts [OF inv]
  have inv': "sv39_inv base pt s'" using sv39.inv_local [OF inv a same] by blast
  have t: "table_at (mem s') (root_ppn pt) \<pi> = table_at (mem s) (root_ppn pt) \<pi>" if "path_ok \<pi>" for \<pi>
    using table_at_local [OF parts(3) same] that by blast
  have "unused (root_rest pt) pt s'" using u t by (simp add: unused_def)
  moreover have "zeroed (mem s') q" if "q \<in> root_rest pt" for q
    using that z u same tree_ok_ppn [OF parts(3)] zeroed_page_same by (meson unused_def subsetD)
  ultimately show ?thesis using inv' a3 by (simp add: sv39x4_inv_def)
qed

text \<open>The contract of a page table holds with the stronger invariant.\<close>

interpretation sv39x4: page_table_contract base sv39_map sv39_unmap sv39_translate "sv39x4_inv base" sv39_view
    sv39_tables sv39_need
  for base
proof (unfold_locales, goal_cases)
  case (1 p s)
  then show ?case unfolding sv39x4_inv_def by (blast dest: sv39.inv_tables)
next
  case (2 p s s')
  then show ?case
    using sv39x4_local [OF 2] sv39.inv_local [OF _ 2(2-4)] 2(1) by (simp add: sv39x4_inv_def)
next
  case (3 p s v e)
  then show ?case by (rule sv39.view_ok)
next
  case (4 p s v ppn fl)
  then show ?case using sv39.map_new [of base p s v ppn fl] sv39x4_map [of base p s v] by (fastforce simp: sv39x4_inv_def)
next
  case (5 p s v ppn fl)
  then show ?case by (intro sv39.map_mapped [OF sv39x4_invD])
next
  case (6 p s v ppn fl)
  then show ?case by (intro sv39.map_full [OF sv39x4_invD])
next
  case (7 p s v)
  then show ?case using sv39.unmap_mapped [of base p s v] sv39x4_unmap [of base p s v] by (fastforce simp: sv39x4_inv_def)
next
  case (8 p s v)
  then show ?case by (intro sv39.unmap_missing [OF sv39x4_invD])
next
  case (9 p s v e)
  then show ?case by (intro sv39.translate_mapped [OF sv39x4_invD])
next
  case (10 p s v)
  then show ?case by (intro sv39.translate_missing [OF sv39x4_invD])
next
  case (11 p s v)
  show ?case by (rule sv39.need_le)
next
  case (12 p s w v)
  then show ?case by (intro sv39.need_same_2mb [OF sv39x4_invD])
next
  case (13 p s w v)
  then show ?case by (intro sv39.need_same_1gb [OF sv39x4_invD])
qed

interpretation sv39x4_area: map_area base Sv39 "sv39x4_inv base" sv39_view sv39_tables sv39_need
  for base
  by (unfold map_area_def Sv39_sel) (rule sv39x4.page_table_contract_axioms)

section \<open>The guest's table\<close>

lemma new_guest_sv39x4:
  assumes ok: "alloc_ok base s" and f: "fresh c e s" and ret: "new_guest s = Inr (pt, s')"
  shows "sv39x4_inv base pt s'"
proof -
  note r = new_guest_returned [OF ok ret]
  have "unat c \<le> unat e" using ok f by (simp add: alloc_ok_def fresh_def fa_inv_def word_le_nat_alt)
  then have t: "\<forall>k < 4. root_page pt k \<in> sv39_tables pt"
    using new_guest_fresh_root [OF f _ ret] by (simp add: root_page_def)
  have sub: "root_rest pt \<subseteq> sv39_tables pt" using t by (auto simp: root_rest_def)
  have root: "root_ppn pt \<in> sv39_tables pt" using t by (force simp: root_page_def dest: spec [of _ 0])
  have ne: "root_ppn pt \<notin> root_rest pt"
  proof
    assume "root_ppn pt \<in> root_rest pt"
    then obtain k :: nat where k: "k \<in> {1, 2, 3}" "root_ppn pt = root_page pt k" by (auto simp: root_rest_def)
    then have "ppn_0 (root_ppn pt) = ppn_0 (root_ppn pt) + word_of_nat k" by (metis PhysPageNum.sel root_page_def)
    then have "(word_of_nat k :: usize) = 0" by simp
    then show False using k(1) by auto
  qed
  have "unused (root_rest pt) pt s'"
    using sub ne table_at_zeroed [of "mem s'" "root_ppn pt"] r(5) root by (auto simp: unused_def split: if_splits)
  then show ?thesis using r(1,4,5) sub by (auto simp: sv39x4_inv_def)
qed

lemma guest_space_sv39x4:
  assumes ok: "alloc_ok base s" and f: "fresh c e s" and m: "guest_ok m"
    and ret: "new_guest_without_load Sv39 st m s = Inr (gpm, s')"
  shows "sv39x4_inv base (page_table gpm) s'"
proof -
  obtain g0 s0 g1 s1 g2 s2 where r: "new_guest_bare Sv39 s = Inr (g0, s0)"
    "push_region Sv39 (memory_region m) (g0, s0) = Inr (g1, s1)"
    "map_trampoline Sv39 st g1 s1 = Inr (g2, s2)"
    "foldR (push_region Sv39) (device_regions m) (g2, s2) = Inr (gpm, s')"
    using ret unfolding new_guest_without_load_regions [OF m] by auto
  have i0: "sv39x4_inv base (page_table g0) s0"
    using r(1) new_guest_sv39x4 [OF ok f] by (auto simp: new_guest_bare_def)
  have rok: "region_ok (memory_region m)" "\<forall>r \<in> set (device_regions m). region_ok r"
    using guest_regions_ok [OF m] by (simp_all add: guest_regions_def)
  have i1: "sv39x4_inv base (page_table g1) s1"
    using sv39x4_area.push_region_adds [OF rok(1) i0 r(2)] by (simp add: ms_adds_def)
  have i2: "sv39x4_inv base (page_table g2) s2"
    using sv39x4_area.map_trampoline_adds [OF i1 r(3)] by (simp add: ms_adds_def)
  show ?thesis using sv39x4_area.push_regions_adds [OF rok(2) i2 r(4)] by (simp add: ms_adds_def)
qed

section \<open>The hardware walk\<close>

text \<open>
  Second-stage translation of a guest-physical address: bits 40 and 39 select the
  page of the root, the rest is a walk of three levels from there.
\<close>

definition gstage_walk :: "memory \<Rightarrow> usize \<Rightarrow> usize \<Rightarrow> PageWalk option result" where
  "gstage_walk m hgatp gpa =
     (if unat gpa < 2 ^ 41 then
        walk_page_table (push_bit 12 (ppn_0 (root_ppn (from_token hgatp)) + drop_bit 39 gpa)) gpa (\<lambda>a. Inr (read_u64 m a))
      else Inr None)"

lemma walk_zeroed:
  assumes "zeroed m t" "ppn_ok t"
  shows "walk_page_table (push_bit 12 (ppn_0 t)) va (\<lambda>a. Inr (read_u64 m a)) = Inr None"
proof -
  have three: "[0..<3] = [0, 1, 2::nat]" by (simp add: upt_rec)
  have "unat (walk_index 0 va) < 512" by (simp add: walk_index_def unat_and_511)
  then have z: "pte_at m t (walk_index 0 va) = PageTableEntry 0" using assms(1) by (simp add: zeroed_def)
  show ?thesis
    unfolding walk_page_table_def three
    using walk_step [OF assms(2), of 0 "\<lambda>a. Inr (read_u64 m a)" m "walk_index 0 va" va "[1, 2]" "[]"] z
    by (auto simp: pte_valid_def)
qed

text \<open>What the guest reaches is what the view has, for addresses below \<open>2^39\<close>, and nothing else.\<close>

lemma gstage_view:
  assumes i: "sv39x4_inv base pt s" and w: "gstage_walk (mem s) (token pt) gpa = Inr (Some w)"
  shows "unat gpa < 2 ^ 39" "sv39_view pt s (VirtPageNum_from (drop_bit 12 gpa)) = Some (walk_pte w)"
    "walk_pa w = leaf_pa Level4KB (walk_pte w) gpa"
proof -
  have inv: "sv39_inv base pt s" using i by (simp add: sv39x4_inv_def)
  note tree = sv39_inv_parts(3) [OF inv]
  have root: "ppn_ok (root_ppn pt)" using tree_ok_ppn [OF tree tree_ok_in [OF tree path_ok_Nil]] by simp
  have b: "unat gpa < 2 ^ 41" and w': "walk_page_table (push_bit 12 (ppn_0 (root_ppn pt) + drop_bit 39 gpa)) gpa
      (\<lambda>a. Inr (read_u64 (mem s) a)) = Inr (Some w)"
    using w token_root [OF root] by (simp_all add: gstage_walk_def split: if_splits)
  have k: "unat (drop_bit 39 gpa) < 4" using b by (simp add: unat_drop_bit less_mult_imp_div_less)
  have "drop_bit 39 gpa = 0"
  proof (rule ccontr)
    assume n: "drop_bit 39 gpa \<noteq> 0"
    have "unat (drop_bit 39 gpa) \<noteq> 0" using n by (simp add: usize_eq_iff_unat del: unat_eq_0)
    then have "unat (drop_bit 39 gpa) \<in> {1, 2, 3}" using k by auto
    then have "root_page pt (unat (drop_bit 39 gpa)) \<in> root_rest pt" unfolding root_rest_def by (rule imageI)
    then have "PhysPageNum (ppn_0 (root_ppn pt) + drop_bit 39 gpa) \<in> root_rest pt" by (simp add: root_page_def)
    then have "zeroed (mem s) (PhysPageNum (ppn_0 (root_ppn pt) + drop_bit 39 gpa))"
      "ppn_ok (PhysPageNum (ppn_0 (root_ppn pt) + drop_bit 39 gpa))"
      using i tree_ok_ppn [OF tree] by (auto simp: sv39x4_inv_def unused_def)
    from walk_zeroed [OF this, of gpa] w' show False by simp
  qed
  then have "unat gpa div 2 ^ 39 = 0" by (metis unat_drop_bit unsigned_0)
  then show "unat gpa < 2 ^ 39" by (simp add: div_eq_0_iff)
  obtain r where r: "walk_page_table (push_bit 12 (ppn_0 (root_ppn pt))) gpa (\<lambda>a. Inr (read_u64 (mem s) a)) = Inr r"
    "map_option walk_pa r = walk_result (sv39_view pt s (VirtPageNum_from (drop_bit 12 gpa))) gpa"
    "\<forall>w. r = Some w \<longrightarrow> sv39_view pt s (VirtPageNum_from (drop_bit 12 gpa)) = Some (walk_pte w)"
    using walk_page_table_view [OF inv refl] by blast
  have "r = Some w" using r(1) w' \<open>drop_bit 39 gpa = 0\<close> by simp
  with r(2,3) show "sv39_view pt s (VirtPageNum_from (drop_bit 12 gpa)) = Some (walk_pte w)"
    "walk_pa w = leaf_pa Level4KB (walk_pte w) gpa"
    by (auto simp: walk_result_def split: if_splits)
qed

end
