(* ===== verification/Isolation.thy ===== *)
theory Isolation
  imports Guest_Run Sv39x4
begin

text \<open>
  The guest's side: what a hart in virtualization mode can do between two exits,
  as a step relation with the exits of \<open>Guest_Run\<close>, and what it cannot reach. A
  guest's access goes through the second translation stage (\<open>gstage_walk\<close>) and
  needs an entry with the user flag; which guest-physical address it uses is up
  to the guest (its own first stage is its own business). Steps of the guest are
  single bytes, so that a wider store is several of them.
\<close>

section \<open>Guest steps\<close>

definition guest_can :: "(PageTableEntry \<Rightarrow> bool result) \<Rightarrow> machine \<Rightarrow> usize \<Rightarrow> bool" where
  "guest_can flag m pa \<longleftrightarrow> (\<exists>gpa w. gstage_walk (mem m) (csrs (hart m) Hgatp) gpa = Inr (Some w) \<and>
     walk_pa w = pa \<and> is_user (walk_pte w) = Inr True \<and> flag (walk_pte w) = Inr True)"

text \<open>
  Control registers that a hart in VS-mode or VU-mode may change: its own, those
  it shares with the hypervisor, the dirty bits of \<open>sstatus\<close>, and, through its
  view of \<open>sip\<close>, bit VSSIP of \<open>hvip\<close>.
\<close>

definition guest_csrs :: "csr set" where
  "guest_csrs = {Vsstatus, Vstvec, Vsepc, Vscause, Vsatp, Sstatus, Scounteren}"

definition guest_hart_step :: "hart \<Rightarrow> hart \<Rightarrow> bool" where
  "guest_hart_step h h' \<longleftrightarrow> hart_ok h' \<and> virt h' \<and> (\<forall>c. c \<notin> guest_csrs \<and> c \<noteq> Hvip \<longrightarrow> csrs h' c = csrs h c) \<and>
     (\<forall>n. n \<noteq> 2 \<longrightarrow> bit (csrs h' Hvip) n = bit (csrs h Hvip) n)"

inductive guest_step :: "env \<Rightarrow> trap_symbols \<Rightarrow> machine \<Rightarrow> machine \<Rightarrow> bool" for E S where
  guest_store: "virt (hart m) \<Longrightarrow> guest_can writable m pa \<Longrightarrow> guest_step E S m (m\<lparr>mem := (mem m)(pa := b)\<rparr>)"
| guest_local: "virt (hart m) \<Longrightarrow> guest_hart_step (hart m) h' \<Longrightarrow> guest_step E S m (m\<lparr>hart := h'\<rparr>)"
| guest_exit: "virt (hart m) \<Longrightarrow> vm_exit E S (on_hart (hw_trap cause tval gpa inst) m) = Inr m' \<Longrightarrow>
    guest_step E S m m'"

inductive_cases guest_stepE: "guest_step E S m m'"

section \<open>What the guest reaches\<close>

definition guest_page :: "MachineMeta \<Rightarrow> nat \<Rightarrow> bool" where
  "guest_page meta n \<longleftrightarrow> (\<exists>r \<in> set (guest_regions meta). n \<in> region_pages r)"

definition guest_addr :: "MachineMeta \<Rightarrow> usize \<Rightarrow> bool" where
  "guest_addr meta pa \<longleftrightarrow> guest_page meta (unat pa div 4096)"

text \<open>
  The table \<open>pt\<close> is installed, has the pages of the guest's description and the
  trampoline, and none of its own pages is one of them.
\<close>

definition confined_by :: "nat \<Rightarrow> usize \<Rightarrow> MachineMeta \<Rightarrow> PageTableSv39 \<Rightarrow> machine \<Rightarrow> bool" where
  "confined_by base st meta pt m \<longleftrightarrow> sv39x4_inv base pt m \<and> csrs (hart m) Hgatp = token pt \<and>
     Map.graph (sv39_view pt m) = insert (trampoline_pair st) (\<Union> (region_pairs ` set (guest_regions meta))) \<and>
     (\<forall>p \<in> sv39_tables pt. \<not> guest_page meta (unat (ppn_0 p)))"

lemma bit_and_4095: "bit ((w::usize) AND 0xfff) n \<Longrightarrow> n < 12"
proof -
  assume b: "bit (w AND 0xfff) n"
  have "(0xfff::usize) = mask 12" by (simp add: mask_eq_exp_minus_1)
  with b show "n < 12" by (simp only: bit_and_iff bit_mask_iff)
qed

lemma leaf_page:
  assumes "ppn_ok p"
  shows "unat (leaf_pa Level4KB (PageTableEntry_new p f) va) div 4096 = unat (ppn_0 p)"
proof -
  have "drop_bit 12 (leaf_pa Level4KB (PageTableEntry_new p f) va) = ppn_0 p"
  proof (rule bit_word_eqI)
    fix n :: nat
    assume "n < LENGTH(64)"
    show "bit (drop_bit 12 (leaf_pa Level4KB (PageTableEntry_new p f) va)) n = bit (ppn_0 p) n"
      using ppn_ok_bit [OF assms, of n] bit_imp_le_length [of f "10 + n"] bit_and_4095 [of va "n + 12"]
      by (auto simp: leaf_pa_def bit_simps bit_pte_new)
  qed
  then show ?thesis using unat_drop_bit [of 12 "leaf_pa Level4KB (PageTableEntry_new p f) va"] by simp
qed

lemma guest_can_addr:
  assumes c: "confined_by base st meta pt m" and meta: "guest_ok meta" and g: "guest_can flag m pa"
  shows "guest_addr meta pa"
proof -
  obtain gpa w where w: "gstage_walk (mem m) (token pt) gpa = Inr (Some w)" "walk_pa w = pa" "is_user (walk_pte w) = Inr True"
    using g c by (auto simp: guest_can_def confined_by_def)
  have i: "sv39x4_inv base pt m" using c by (simp add: confined_by_def)
  note v = gstage_view [OF i w(1)]
  have "(VirtPageNum_from (drop_bit 12 gpa), walk_pte w) \<in>
      insert (trampoline_pair st) (\<Union> (region_pairs ` set (guest_regions meta)))"
    using v(2) c by (metis confined_by_def view_graph)
  from guest_pair_user [OF meta this w(3)] obtain r perm where r: "r \<in> set (guest_regions meta)"
    "unat (vpn_0 (VirtPageNum_from (drop_bit 12 gpa))) \<in> region_pages r"
    "walk_pte w = PageTableEntry_new (PhysPageNum (vpn_0 (VirtPageNum_from (drop_bit 12 gpa)))) perm"
    "unat (vpn_0 (VirtPageNum_from (drop_bit 12 gpa))) < 2 ^ 27" .
  have "ppn_ok (PhysPageNum (vpn_0 (VirtPageNum_from (drop_bit 12 gpa))))" using r(4) by (simp add: ppn_ok_def)
  from leaf_page [OF this, of perm gpa] v(3) r(3) w(2)
  have "unat pa div 4096 = unat (vpn_0 (VirtPageNum_from (drop_bit 12 gpa)))" by simp
  then show ?thesis using r(1,2) by (auto simp: guest_addr_def guest_page_def)
qed

text \<open>What of the machine does not change while the guest runs.\<close>

definition host_intact :: "MachineMeta \<Rightarrow> machine \<Rightarrow> machine \<Rightarrow> bool" where
  "host_intact meta m m' \<longleftrightarrow> (\<forall>pa. \<not> guest_addr meta pa \<longrightarrow> mem m' pa = mem m pa) \<and>
     FRAME_ALLOCATOR m' = FRAME_ALLOCATOR m \<and> same_vmm (the_vmm m) (the_vmm m') \<and>
     ctx_hgatp (trap_ctx m') = ctx_hgatp (trap_ctx m) \<and> ctx_kernel_sp (trap_ctx m') = ctx_kernel_sp (trap_ctx m) \<and>
     (\<forall>c \<in> {Satp, Hgatp, Hedeleg, Hideleg, Hcounteren}. csrs (hart m') c = csrs (hart m) c) \<and>
     (\<exists>es. events m' = es @ events m \<and> list_all (guest_event (host_plic (the_vmm m)) (vm_guest_id (the_vmm m))) es)"

lemma host_intact_refl: "host_intact meta m m"
  by (simp add: host_intact_def)

lemma guest_event_same:
  assumes "same_vmm v v'"
  shows "guest_event (host_plic v') (vm_guest_id v') = guest_event (host_plic v) (vm_guest_id v)"
proof -
  have "vm_guest_id v' = vm_guest_id v" "map_option plic_base_addr (host_plic v') = map_option plic_base_addr (host_plic v)"
    using assms by (simp_all add: same_vmm_def)
  then show ?thesis
    by (cases "host_plic v"; cases "host_plic v'") (auto simp: guest_event_def fun_eq_iff split: event.split)
qed

lemma same_vmm_trans: "same_vmm v v' \<Longrightarrow> same_vmm v' v'' \<Longrightarrow> same_vmm v v''"
  by (simp add: same_vmm_def)

lemma host_intact_trans:
  assumes "host_intact meta m m'" "host_intact meta m' m''"
  shows "host_intact meta m m''"
proof -
  let ?G = "guest_event (host_plic (the_vmm m)) (vm_guest_id (the_vmm m))"
  have v: "same_vmm (the_vmm m) (the_vmm m')" using assms(1) by (simp add: host_intact_def)
  obtain es es' where "events m' = es @ events m" "list_all ?G es" "events m'' = es' @ events m'" "list_all ?G es'"
    using assms guest_event_same [OF v] by (auto simp: host_intact_def)
  then have "\<exists>es. events m'' = es @ events m \<and> list_all ?G es" by (intro exI [of _ "es' @ es"]) simp
  moreover have "same_vmm (the_vmm m) (the_vmm m'')"
    using assms(2) same_vmm_trans [OF v] by (simp add: host_intact_def)
  ultimately show ?thesis using assms by (simp add: host_intact_def)
qed

lemma exit_keeps_intact: "exit_keeps m m' \<Longrightarrow> host_intact meta m m'"
  by (simp add: exit_keeps_def host_intact_def kept_csrs_def)

section \<open>Every step keeps it\<close>

lemma confined_by_step:
  assumes c: "confined_by base st meta pt m" and h: "host_intact meta m m'"
  shows "confined_by base st meta pt m'"
proof -
  have i: "sv39x4_inv base pt m" and d: "\<forall>p \<in> sv39_tables pt. \<not> guest_page meta (unat (ppn_0 p))"
    using c by (simp_all add: confined_by_def)
  note parts = sv39x4_invD [OF i]
  have fa: "FRAME_ALLOCATOR m' = FRAME_ALLOCATOR m" using h by (simp add: host_intact_def)
  have a: "alloc_ok base m'" "sv39_tables pt \<subseteq> live base m'"
    using sv39.inv_tables [OF parts] fa by (simp_all add: alloc_ok_def live_def)
  have same: "page_same q (mem m) (mem m')" if "q \<in> sv39_tables pt" for q
    using that d h by (auto simp: page_same_def host_intact_def guest_addr_def page_of_eq_iff)
  note l = sv39x4_local [OF i a same] sv39.inv_local [OF parts a same]
  have "csrs (hart m') Hgatp = csrs (hart m) Hgatp" using h by (simp add: host_intact_def)
  then show ?thesis using c l by (simp add: confined_by_def)
qed

lemma guest_local_running:
  assumes "guest_running S m" "guest_hart_step (hart m) h'"
  shows "guest_running S (m\<lparr>hart := h'\<rparr>)"
proof -
  have "csrs h' c = csrs (hart m) c" if "c \<in> {Sscratch, Stvec, Hgatp, Sie}" for c
    using assms(2) that by (auto simp: guest_hart_step_def guest_csrs_def)
  moreover have "bit (csrs h' Hvip) 6 = bit (csrs (hart m) Hvip) 6" using assms(2) by (simp add: guest_hart_step_def)
  ultimately show ?thesis
    using assms by (simp add: guest_running_def guest_hart_step_def timer_ok_def)
qed

lemma guest_local_intact:
  assumes "guest_hart_step (hart m) h'"
  shows "host_intact meta m (m\<lparr>hart := h'\<rparr>)"
  using assms by (auto simp: guest_hart_step_def guest_csrs_def host_intact_def the_vmm_def)

lemma guest_step_confined:
  assumes "guest_step E S m m'" "guest_running S m" "confined_by base st meta pt m" "guest_ok meta"
  shows "guest_running S m' \<and> host_intact meta m m'"
  using assms(1)
proof cases
  case (guest_store pa b)
  have "guest_addr meta pa" by (rule guest_can_addr [OF assms(3,4) guest_store(3)])
  then have "host_intact meta m m'" using guest_store(1) by (auto simp: host_intact_def the_vmm_def)
  then show ?thesis using guest_store(1) assms(2) by (simp add: guest_running_def)
next
  case (guest_local h')
  then show ?thesis using guest_local_running [OF assms(2)] guest_local_intact by blast
next
  case (guest_exit cause tval gpa inst)
  then show ?thesis using vm_exit_returned [OF assms(2)] exit_keeps_intact by blast
qed

lemma guest_confined:
  assumes "(guest_step E S)\<^sup>*\<^sup>* m0 m" "guest_running S m0" "confined_by base st meta pt m0" "guest_ok meta"
  shows "guest_running S m \<and> confined_by base st meta pt m \<and> host_intact meta m0 m"
  using assms(1)
proof induction
  case base
  then show ?case using assms(2,3) host_intact_refl by blast
next
  case (step m1 m2)
  then have "guest_running S m2 \<and> host_intact meta m1 m2"
    using guest_step_confined [OF step(2)] assms(4) by blast
  with step show ?case using confined_by_step host_intact_trans by blast
qed

section \<open>Software translation\<close>

text \<open>
  What the hypervisor's own walk of the guest's table finds for an address in one of
  the guest's regions: the same address.
\<close>

lemma guest_addr_identity:
  assumes c: "confined_by base st meta pt m" and meta: "guest_ok meta" and a: "guest_addr meta pa"
  shows "sv39_translate_va pt pa m = Inr (Some pa)"
proof -
  obtain start stop perm where r: "(start, stop, perm) \<in> set (guest_regions meta)" "unat pa div 4096 \<in> region_pages (start, stop, perm)"
    using a unfolding guest_addr_def guest_page_def by (metis prod_cases3)
  have ok: "region_ok (start, stop, perm)" using guest_regions_ok [OF meta r(1)] .
  let ?v = "VirtPageNum (drop_bit 12 pa)"
  have n: "unat (drop_bit 12 pa) = unat pa div 4096" by (simp add: unat_drop_bit)
  have "(?v, PageTableEntry_new (PhysPageNum (drop_bit 12 pa)) (perm OR PTEFlags_V)) \<in> region_pairs (start, stop, perm)"
    using r(2) n page_count_end [of start stop] ok by (simp add: region_pairs_iff [OF ok] region_pages_def first_page_def region_ok_def)
  then have v: "sv39_view pt m ?v = Some (PageTableEntry_new (PhysPageNum (drop_bit 12 pa)) (perm OR PTEFlags_V))"
    using c r(1) unfolding view_graph confined_by_def by blast
  have inv: "sv39_inv base pt m" using c sv39x4_invD by (auto simp: confined_by_def)
  have small: "unat (drop_bit 12 pa) < 2 ^ 27" using sv39.view_ok [OF v] by (simp add: vpn_ok_def)
  then have p: "ppn_ok (PhysPageNum (drop_bit 12 pa))" by (simp add: ppn_ok_def)
  have f: "VirtPageNum_from (drop_bit 12 pa) = ?v" using VirtPageNum_from_id [OF sv39.view_ok [OF v]] by simp
  have u: "unat (push_bit 12 (drop_bit 12 pa)) + unat (pa AND 0xfff) = unat pa"
    using small n by (simp add: unat_and_4095 unat_push_bit)
  then have "push_bit 12 (drop_bit 12 pa) + (pa AND 0xfff) = pa"
    using unat_add_no_wrap [of "push_bit 12 (drop_bit 12 pa)" "pa AND 0xfff"] by (simp add: usize_eq_iff_unat)
  with u show ?thesis
    using sv39.translate_mapped [OF inv v] p by (simp add: sv39_translate_va_def f pte_ppn_new checked_add_def Let_def)
qed

end
