(* ===== verification/Boot_Correct.thy ===== *)
theory Boot_Correct
  imports Boot Isolation
begin

text \<open>
  The boot sequence of \<open>Boot\<close> leads to a running guest that is confined to its
  regions: an invariant of the states between the guest's page table and the first
  entry, one lemma for every step of \<open>hentry\<close>, and the conditions under which the
  sequence returns.
\<close>

section \<open>The state while the hypervisor boots\<close>

text \<open>
  Operations that touch neither memory nor the allocator, and what does not
  notice them.
\<close>

definition same_world :: "'x world_scheme \<Rightarrow> 'x world_scheme \<Rightarrow> bool" where
  "same_world s s' \<longleftrightarrow> mem s' = mem s \<and> FRAME_ALLOCATOR s' = FRAME_ALLOCATOR s"

lemma same_world_view: "same_world s s' \<Longrightarrow> sv39_view pt s' = sv39_view pt s"
  by (rule ext) (simp add: same_world_def sv39_view_def)

lemma same_world_facts:
  assumes "same_world s s'"
  shows "alloc_ok base s' = alloc_ok base s" "live base s' = live base s" "sv39_inv base pt s' = sv39_inv base pt s"
    "sv39x4_inv base pt s' = sv39x4_inv base pt s" "sv39_view pt s' = sv39_view pt s" "fresh c e s' = fresh c e s"
    "frames_end s' = frames_end s"
    "ms_ok base (sv39_inv base) sv39_tables ms s' = ms_ok base (sv39_inv base) sv39_tables ms s"
  using assms same_world_view [OF assms]
  by (simp_all add: same_world_def alloc_ok_def live_def sv39_inv_def sv39x4_inv_def unused_def fresh_def ms_ok_def
      frames_end_def)

text \<open>
  From the guest's page table on: \<open>HOST_VMM\<close> is there and unlocked and has the
  hypervisor's memory set, in which the page of the trap context is a frame of
  its own, and the guest's table has what it was built with and shares no frame
  with the hypervisor's memory set. The allocator's frames end at \<open>MEMORY_END\<close>.
\<close>

definition host_side :: "nat \<Rightarrow> PageTableSv39 \<Rightarrow> Vmm \<Rightarrow> machine \<Rightarrow> bool" where
  "host_side base pt v m \<longleftrightarrow> plic_ok (host_plic v) \<and> guests v = replicate (unat MAX_GUESTS) None \<and>
     ms_ok base (sv39_inv base) sv39_tables (hpm v) m \<and>
     sv39_tables pt \<inter> (sv39_tables (page_table (hpm v)) \<union> ms_frames (hpm v)) = {} \<and>
     (\<exists>f \<in> ms_frames (hpm v). trap_context_pair f \<in> Map.graph (sv39_view (page_table (hpm v)) m))"

definition booting :: "nat \<Rightarrow> usize \<Rightarrow> MachineMeta \<Rightarrow> PageTableSv39 \<Rightarrow> machine \<Rightarrow> bool" where
  "booting base st gmeta pt m \<longleftrightarrow> hart_ok (hart m) \<and> timer_ok (hart m) \<and> frames_end m = Some 0x88000 \<and>
     csrs (hart m) Hedeleg = hedeleg_value \<and> csrs (hart m) Hideleg = hideleg_value \<and> sv39x4_inv base pt m \<and>
     Map.graph (sv39_view pt m) = insert (trampoline_pair st) (\<Union> (region_pairs ` set (guest_regions gmeta))) \<and>
     (\<exists>v. HOST_VMM m = Some \<lparr>mutex_inner = v, mutex_locked = False\<rparr> \<and> host_side base pt v m)"

text \<open>What the hypervisor's own table translates.\<close>

definition host_maps :: "machine \<Rightarrow> (VirtPageNum \<times> PageTableEntry) set" where
  "host_maps m = Map.graph (sv39_view (page_table (hpm (the_vmm m))) m)"

lemma host_side_same: "same_world m m' \<Longrightarrow> host_side base pt v m' = host_side base pt v m"
  by (simp add: host_side_def same_world_facts)

lemma booting_same:
  assumes "booting base st gmeta pt m" "same_world m m'" "HOST_VMM m' = HOST_VMM m" "hart_ok (hart m')" "timer_ok (hart m')"
    "csrs (hart m') Hedeleg = csrs (hart m) Hedeleg" "csrs (hart m') Hideleg = csrs (hart m) Hideleg"
  shows "booting base st gmeta pt m'"
  using assms unfolding booting_def by (simp add: same_world_facts host_side_same)

text \<open>The hypervisor's memory set grows: the guest's table does not notice.\<close>

lemma booting_extends:
  assumes b: "booting base st gmeta pt m" and v: "HOST_VMM m = Some \<lparr>mutex_inner = v, mutex_locked = False\<rparr>"
    and w: "same_world m m1"
    and x: "ms_extends base (sv39_inv base) sv39_view sv39_tables E' (hpm v) m1 hs m2"
    and h: "hart m2 = hart m"
  shows "booting base st gmeta pt (vmm_unlock (v\<lparr>hpm := hs\<rparr>) m2)"
proof -
  let ?m = "vmm_unlock (v\<lparr>hpm := hs\<rparr>) m2"
  let ?T = "sv39_tables (page_table (hpm v)) \<union> ms_frames (hpm v)" and ?T' = "sv39_tables (page_table hs) \<union> ms_frames hs"
  have w2: "same_world m2 ?m" by (simp add: same_world_def vmm_unlock_def)
  have hv: "host_side base pt v m" using b v by (auto simp: booting_def)
  then obtain f where f: "f \<in> ms_frames (hpm v)" "trap_context_pair f \<in> Map.graph (sv39_view (page_table (hpm v)) m)"
    by (auto simp: host_side_def)
  have g: "grown base ?T ?T' m1 m2" and gr: "Map.graph (sv39_view (page_table (hpm v)) m1) \<subseteq> Map.graph (sv39_view (page_table hs) m2)"
    using x by (auto simp: ms_extends_def)
  have i: "sv39x4_inv base pt m1" using b w by (simp add: booting_def same_world_facts)
  have dis: "sv39_tables pt \<inter> ?T = {}" using hv by (simp add: host_side_def)
  note o = sv39x4.inv_grown_other [OF i g dis]
  have live: "ms_frames (hpm v) \<subseteq> live base m1" using hv w by (simp add: host_side_def ms_ok_def same_world_facts)
  have ok2: "ms_ok base (sv39_inv base) sv39_tables hs m2" by (rule ms_extends_ok [OF x])
  have "f \<in> ms_frames hs" "trap_context_pair f \<in> Map.graph (sv39_view (page_table hs) m2)"
    using f x gr w by (auto simp: ms_extends_def same_world_facts)
  then have "host_side base pt (v\<lparr>hpm := hs\<rparr>) m2" using hv ok2 o unfolding host_side_def by auto
  then have "host_side base pt (v\<lparr>hpm := hs\<rparr>) ?m" using host_side_same [OF w2] by blast
  moreover have "sv39x4_inv base pt ?m" "sv39_view pt ?m = sv39_view pt m"
    using o w w2 by (simp_all add: same_world_facts)
  moreover have "frames_end ?m = frames_end m" using grownD(8) [OF g] w w2 by (simp add: same_world_facts)
  ultimately show ?thesis using b h by (simp add: booting_def vmm_unlock_def)
qed

section \<open>The steps of \<open>hentry\<close>\<close>

lemma more_machine:
  "world.more m' = world.more m \<Longrightarrow> hart m' = hart m \<and> events m' = events m \<and> trap_ctx m' = trap_ctx m \<and> HOST_VMM m' = HOST_VMM m"
  for m m' :: machine
  by (cases m; cases m') simp

lemma booting_lock:
  assumes "booting base st gmeta pt m" "vmm_lock m = Inr (v, m1)"
  shows "HOST_VMM m = Some \<lparr>mutex_inner = v, mutex_locked = False\<rparr>" "m1 = m\<lparr>HOST_VMM := Some \<lparr>mutex_inner = v, mutex_locked = True\<rparr>\<rparr>"
    "same_world m m1" "ms_ok base (sv39_inv base) sv39_tables (hpm v) m1" "host_side base pt v m"
proof -
  show v: "HOST_VMM m = Some \<lparr>mutex_inner = v, mutex_locked = False\<rparr>"
    "m1 = m\<lparr>HOST_VMM := Some \<lparr>mutex_inner = v, mutex_locked = True\<rparr>\<rparr>"
    using assms by (auto simp: booting_def vmm_lock_def)
  then show w: "same_world m m1" by (simp add: same_world_def)
  show h: "host_side base pt v m" using assms(1) v(1) by (simp add: booting_def)
  then show "ms_ok base (sv39_inv base) sv39_tables (hpm v) m1" using w by (simp add: host_side_def same_world_facts)
qed

lemma booting_locked: "booting base st gmeta pt m \<Longrightarrow> \<exists>v m1. vmm_lock m = Inr (v, m1)"
  by (auto simp: booting_def vmm_lock_def)

lemma ms_extends_more: "ms_extends base ok view tables E ms s ms' s' \<Longrightarrow> world.more s' = world.more s"
  unfolding ms_extends_def by (blast dest: grownD(7))

definition guest_window :: region where
  "guest_window = (GUEST_START_PA, GUEST_START_PA + GUEST_DEFAULT_SIZE, perm_rw)"

lemma map_guest_region: "map_guest T hs GUEST_START_PA GUEST_DEFAULT_SIZE s = push_region T guest_window (hs, s)"
  by (simp add: map_guest_def checked_add_def push_region_def guest_window_def perm_rw_def)

lemma guest_window_ok: "region_ok guest_window"
  by (simp add: guest_window_def region_ok_def)

lemma booting_map_guest:
  assumes b: "booting base st gmeta pt m" and l: "vmm_lock m = Inr (v, m1)"
    and r: "map_guest Sv39 (hpm v) GUEST_START_PA GUEST_DEFAULT_SIZE m1 = Inr (hs, m2)"
  shows "booting base st gmeta pt (vmm_unlock (v\<lparr>hpm := hs\<rparr>) m2)"
proof -
  note k = booting_lock [OF b l]
  note x = sv39_area.push_region_extends(1) [OF guest_window_ok k(4) r [unfolded map_guest_region]]
  have "hart m2 = hart m" using more_machine [OF ms_extends_more [OF x]] k(2) by simp
  then show ?thesis by (rule booting_extends [OF b k(1,3) x])
qed

lemma booting_enable_paging:
  assumes b: "booting base st gmeta pt m" and r: "enable_paging m = Inr m'"
  shows "booting base st gmeta pt m'"
proof -
  obtain v m1 where l: "vmm_lock m = Inr (v, m1)" "m' = vmm_unlock v (activate (hpm v) m1)"
    using r by (auto simp: enable_paging_def)
  note k = booting_lock [OF b l(1)]
  show ?thesis
    by (rule booting_same [OF b])
       (use b k l(2) in \<open>simp_all add: booting_def same_world_def vmm_unlock_def activate_def on_hart_def timer_ok_def\<close>)
qed

lemma booting_trap_init:
  assumes b: "booting base st gmeta pt m" and r: "trap_init S m = Inr m'"
  shows "booting base st gmeta pt m'"
  by (rule booting_same [OF b])
     (use b r in \<open>auto simp: booting_def same_world_def trap_init_def set_kernel_trap_entry_def on_hart_def timer_ok_def\<close>)

lemma booting_remap_test:
  assumes b: "booting base st gmeta pt m" and r: "remap_test syms m = Inr m'"
  shows "booting base st gmeta pt m'"
proof -
  obtain v m1 where l: "vmm_lock m = Inr (v, m1)" "m' = vmm_unlock v m1"
    using r by (auto simp: remap_test_def Let_def)
  note k = booting_lock [OF b l(1)]
  show ?thesis
    by (rule booting_same [OF b]) (use b k l(2) in \<open>simp_all add: booting_def same_world_def vmm_unlock_def\<close>)
qed

lemma kernel_stack_area:
  "hstack_position 0 = Inr (TRAP_CONTEXT - KERNEL_STACK_SIZE, TRAP_CONTEXT)"
  "MapArea_new (VirtAddr_from (TRAP_CONTEXT - KERNEL_STACK_SIZE)) (VirtAddr_from TRAP_CONTEXT) None None Framed perm =
   Inr (framed_area 0x7fffffa 4 perm)"
  by (simp_all add: hstack_position_def checked_mul_def checked_sub_def MapArea_new_def VirtAddr_from_def VirtAddr_ceil_def
      VirtAddr_floor_def checked_add_def SimpleRange_new_def framed_area_def vp_def less_eq_VirtPageNum_def Let_def)

lemma booting_Guest_new:
  assumes b: "booting base st gmeta pt m" and r: "Guest_new E th 0 gs gm m = Inr (g, m')"
  shows "booting base st gmeta pt m'" "g = \<lparr>guest_machine = gm, gpm = gs, guest_id = 0, vcpu = VCpu_new 0\<rparr>"
    "trap_ctx m' = initialize_context E (hart m) GUEST_START_VA 0 (token (page_table gs)) TRAP_CONTEXT th" "hart m' = hart m"
proof -
  obtain v m1 hs m2 where l: "vmm_lock m = Inr (v, m1)"
    "push Sv39 (hpm v) (framed_area 0x7fffffa 4 perm_rw) None m1 = Inr (hs, m2)"
    "m' = (vmm_unlock (v\<lparr>hpm := hs\<rparr>) m2)\<lparr>trap_ctx := initialize_context E (hart m2) GUEST_START_VA 0
       (token (page_table gs)) TRAP_CONTEXT th\<rparr>"
    "g = \<lparr>guest_machine = gm, gpm = gs, guest_id = 0, vcpu = VCpu_new 0\<rparr>"
    using r by (auto simp: Guest_new_def hstack_alloc_def get_top_def insert_framed_area_def kernel_stack_area perm_rw_def
        ms_token_def vmm_unlock_def Let_def simp del: TRAP_CONTEXT_def KERNEL_STACK_SIZE_def)
  note k = booting_lock [OF b l(1)]
  have bound: "0x7fffffa + 4 \<le> (2::nat) ^ 27" by simp
  obtain a where x: "ms_extends base (sv39_inv base) sv39_view sv39_tables (framed_pairs a) (hpm v) m1 hs m2"
    using sv39_area.push_framed [OF bound k(4) l(2)] by blast
  have h: "hart m2 = hart m" using more_machine [OF ms_extends_more [OF x]] k(2) by simp
  note b1 = booting_extends [OF b k(1,3) x h]
  show "booting base st gmeta pt m'"
    by (rule booting_same [OF b1]) (use b1 l(3) in \<open>simp_all add: booting_def same_world_def vmm_unlock_def\<close>)
  show "g = \<lparr>guest_machine = gm, gpm = gs, guest_id = 0, vcpu = VCpu_new 0\<rparr>" by (rule l(4))
  show "trap_ctx m' = initialize_context E (hart m) GUEST_START_VA 0 (token (page_table gs)) TRAP_CONTEXT th" "hart m' = hart m"
    using l(3) h by (simp_all add: vmm_unlock_def)
qed

lemma booting_starts:
  assumes ok: "alloc_ok base m" and f: "fresh c 0x88000 m" and n: "HOST_VMM m = None" "hart_ok (hart m)"
    and h: "host_ok syms hmeta" and g: "guest_ok gmeta"
    and rh: "new_host_vmm Sv39 syms hmeta m = Inr (hs, m1)"
    and rg: "new_guest_without_load Sv39 st gmeta (init_vmm hs hmeta m1) = Inr (gs, m2)"
  shows "booting base st gmeta (page_table gs) m2"
    "\<exists>f. host_maps m2 = {trampoline_pair (sym_strampoline syms), trap_context_pair f} \<union>
      \<Union> (region_pairs ` set (host_regions syms hmeta))"
proof -
  let ?m = "init_vmm hs hmeta m1" and ?v = "HostVmm_initial hs hmeta"
  obtain f where hf: "ms_frames hs = {f}" "ms_ok base (sv39_inv base) sv39_tables hs m1"
    "grown base {} (insert f (sv39_tables (page_table hs))) m m1"
    "Map.graph (sv39_view (page_table hs) m1) = {trampoline_pair (sym_strampoline syms), trap_context_pair f} \<union>
      \<Union> (region_pairs ` set (host_regions syms hmeta))"
    using host_space [OF ok h rh] by blast
  have m1: "HOST_VMM m1 = None" "hart m1 = hart m" using more_machine [OF grownD(7) [OF hf(3)]] n(1) by simp_all
  have w: "same_world m1 ?m" using m1 by (simp add: init_vmm_def on_hart_def same_world_def)
  have i: "HOST_VMM ?m = Some \<lparr>mutex_inner = ?v, mutex_locked = False\<rparr>" "hart ?m = init_csrs (hart m)"
    using m1 by (simp_all add: init_vmm_def on_hart_def)
  have ok1: "alloc_ok base ?m" using grownD(1) [OF hf(3)] w by (simp add: same_world_facts)
  obtain c1 where fr: "fresh c1 0x88000 ?m" using fresh_grown [OF f hf(3)] w by (auto simp: same_world_facts)
  note x4 = guest_space_sv39x4 [OF ok1 fr g rg]
  note sp = guest_space [OF ok1 g rg]
  have m2: "HOST_VMM m2 = HOST_VMM ?m" "hart m2 = hart ?m" using more_machine [OF grownD(7) [OF sp(3)]] by simp_all
  have hs: "ms_ok base (sv39_inv base) sv39_tables hs ?m" using hf(2) w by (simp add: same_world_facts)
  then have inv: "sv39_inv base (page_table hs) ?m" and fl: "f \<in> live base ?m" using hf(1) by (simp_all add: ms_ok_def)
  note o = sv39.inv_grown_other [OF inv sp(3)]
  have fd: "f \<notin> sv39_tables (page_table gs)" using grownD(6) [OF sp(3) fl] by simp
  have "ms_ok base (sv39_inv base) sv39_tables hs m2" using hs o grownD(4) [OF sp(3)] by (auto simp: ms_ok_def)
  moreover have g2: "Map.graph (sv39_view (page_table hs) m2) = {trampoline_pair (sym_strampoline syms), trap_context_pair f} \<union>
      \<Union> (region_pairs ` set (host_regions syms hmeta))"
    using o hf(4) w by (simp add: same_world_facts)
  ultimately have "host_side base (page_table gs) ?v m2"
    using o fd hf(1) by (auto simp: host_side_def HostVmm_initial_def plic_ok_def PlicState_new_def)
  moreover have "hart_ok (init_csrs (hart m))" "timer_ok (init_csrs (hart m))"
    "csrs (init_csrs (hart m)) Hedeleg = hedeleg_value" "csrs (init_csrs (hart m)) Hideleg = hideleg_value"
    using n(2) by (simp_all add: init_csrs_def timer_ok_def pending_defs bit_simps Let_def)
  moreover have "frames_end m2 = Some 0x88000" using grownD(8) [OF sp(3)] fr by (simp add: fresh_def frames_end_def)
  ultimately show "booting base st gmeta (page_table gs) m2" using x4 sp(1) m2 i by (simp add: booting_def)
  have "page_table (hpm (the_vmm m2)) = page_table hs" using m2(1) i(1) by (simp add: the_vmm_def HostVmm_initial_def)
  then show "\<exists>f. host_maps m2 = {trampoline_pair (sym_strampoline syms), trap_context_pair f} \<union>
      \<Union> (region_pairs ` set (host_regions syms hmeta))"
    using g2 by (auto simp: host_maps_def)
qed

text \<open>The frames that the allocator manages lie outside the guest's regions.\<close>

definition frames_apart :: "nat \<Rightarrow> nat \<Rightarrow> MachineMeta \<Rightarrow> bool" where
  "frames_apart base stop gmeta \<longleftrightarrow> list_all (\<lambda>(start, e, perm). first_page start + page_count start e \<le> base \<or>
     stop \<le> first_page start) (guest_regions gmeta)"

lemma frames_apart_page:
  assumes "frames_apart base (unat e) gmeta" "alloc_ok base s" "frames_end s = Some e" "p \<in> live base s"
  shows "\<not> guest_page gmeta (unat (ppn_0 p))"
proof
  assume "guest_page gmeta (unat (ppn_0 p))"
  then obtain start stop perm where r: "(start, stop, perm) \<in> set (guest_regions gmeta)"
    "unat (ppn_0 p) \<in> region_pages (start, stop, perm)"
    unfolding guest_page_def by (metis prod_cases3)
  have "base \<le> unat (ppn_0 p)" "unat (ppn_0 p) < unat e"
    using live_below_end [OF assms(2-4)] by (simp_all add: word_less_nat_alt)
  then show False using assms(1) r by (fastforce simp: frames_apart_def list_all_iff region_pages_def)
qed

lemma boot_ends:
  assumes b: "booting base st gmeta pt m" and q: "add_guest_queue g m = Inr m1" "guest_id g = 0"
    and r: "hart_entry_1 E m1 = Inr m'" and set: "setters_ok E"
    and cx: "trap_ctx m = initialize_context E h GUEST_START_VA 0 (token pt) TRAP_CONTEXT (sym_trap_handler S)"
    and ap: "frames_apart base 0x88000 gmeta"
  shows "guest_running S m'" "confined_by base st gmeta pt m'" "same_world m m'"
    "pc (hart m') = GUEST_START_VA \<and> supervisor (hart m') \<and> get_gpr 11 (hart m') = GUEST_DTB_ADDR \<and>
     csrs (hart m') Hedeleg = hedeleg_value \<and> csrs (hart m') Hideleg = hideleg_value"
    "\<exists>v f. the_vmm m' = v \<and> trap_context_pair f \<in> Map.graph (sv39_view (page_table (hpm v)) m') \<and>
      \<not> guest_page gmeta (unat (ppn_0 f))"
proof -
  have e: "frames_end m = Some 0x88000" using b by (simp add: booting_def)
  have ap': "frames_apart base (unat (0x88000::usize)) gmeta" using ap by simp
  obtain v m0 where l: "vmm_lock m = Inr (v, m0)" using booting_locked [OF b] by blast
  note k = booting_lock [OF b l]
  let ?v = "v\<lparr>guests := (guests v)[0 := Some g]\<rparr>"
  have gs: "guests v = replicate 4 None" using k(5) by (simp add: host_side_def)
  have m1: "m1 = vmm_unlock ?v m0"
    using q l gs by (simp add: add_guest_queue_def drop_guest_def assertR_def)
  obtain m2 where m2: "install_hgatp E (set_user_trap_entry m1) = Inr m2" "hart_entry_2 m2 = Inr m'"
    using r by (auto simp: hart_entry_1_def)
  note i = install_hgatp_returned [OF m2(1)]
  have t2: "trap_ctx m2 = trap_ctx m" "HOST_VMM m2 = HOST_VMM m1" "mem m2 = mem m" "FRAME_ALLOCATOR m2 = FRAME_ALLOCATOR m"
    using i(2) m1 k(2) by (cases m2, simp add: set_user_trap_entry_def on_hart_def vmm_unlock_def)+
  let ?c = "trap_ctx m"
  have ok: "hart_ok (hart m2)" "ctx_ok ?c"
    using i(3) b m1 k(2) cx
    by (simp_all add: hart_ok_def booting_def set_user_trap_entry_def on_hart_def vmm_unlock_def initialize_context_ok)
  obtain h' where h': "m' = m2\<lparr>hart := h', trap_ctx := ?c\<rparr>" "resumed (hart m2) TRAP_CONTEXT ?c h'" "get_gpr 11 h' = GUEST_DTB_ADDR"
    using exec_hart_entry_2 [OF ok] m2(2) t2(1) ok(2)
    by (auto simp: hart_entry_2_def run_asm_def words_ctx_words simp del: TRAP_CONTEXT_def)
  have c: "ctx_sepc ?c = GUEST_START_VA" "bit (ctx_hstatus ?c) 7" "bit (ctx_sstatus ?c) 8" "ctx_hgatp ?c = token pt"
    "ctx_trap_handler ?c = sym_trap_handler S"
    using cx set by (simp_all add: initialize_context_def set_sp_def setters_ok_def Let_def)
  have cs: "csrs h' Hgatp = token pt" "csrs h' Stvec = TRAMPOLINE" "csrs h' Hvip = csrs (hart m) Hvip"
    "csrs h' Sie = csrs (hart m) Sie" "csrs h' Hedeleg = csrs (hart m) Hedeleg" "csrs h' Hideleg = csrs (hart m) Hideleg"
    using h'(2) i(1,4) c(4) m1 k(2)
    by (simp_all add: resumed_def set_user_trap_entry_def on_hart_def vmm_unlock_def)
  show sw: "same_world m m'" using h'(1) t2 by (simp add: same_world_def)
  have hv: "HOST_VMM m' = Some \<lparr>mutex_inner = ?v, mutex_locked = False\<rparr>" using h'(1) t2(2) m1 by (simp add: vmm_unlock_def)
  have t: "timer_ok (hart m)" using b by (simp add: booting_def)
  show "guest_running S m'"
    using h' c cs ok t2(1) hv k(5) t
    by (simp add: guest_running_def resumed_def timer_ok_def host_side_def del: TRAP_CONTEXT_def TRAMPOLINE_def)
  show "pc (hart m') = GUEST_START_VA \<and> supervisor (hart m') \<and> get_gpr 11 (hart m') = GUEST_DTB_ADDR \<and>
     csrs (hart m') Hedeleg = hedeleg_value \<and> csrs (hart m') Hideleg = hideleg_value"
    using h' c cs b by (simp add: resumed_def booting_def)
  have x4: "sv39x4_inv base pt m" using b by (simp add: booting_def)
  have al: "alloc_ok base m" "sv39_tables pt \<subseteq> live base m" using sv39.inv_tables [OF sv39x4_invD [OF x4]] by simp_all
  have "csrs (hart m') Hgatp = token pt" using h'(1) cs(1) by simp
  then show "confined_by base st gmeta pt m'"
    using b frames_apart_page [OF ap' al(1) e] al(2)
    unfolding confined_by_def booting_def same_world_facts [OF sw] by blast
  obtain f where "f \<in> ms_frames (hpm v)" "trap_context_pair f \<in> Map.graph (sv39_view (page_table (hpm v)) m)"
    using k(5) by (auto simp: host_side_def)
  moreover have "ms_frames (hpm v) \<subseteq> live base m" using k(5) by (simp add: host_side_def ms_ok_def)
  ultimately show "\<exists>v f. the_vmm m' = v \<and> trap_context_pair f \<in> Map.graph (sv39_view (page_table (hpm v)) m') \<and>
      \<not> guest_page gmeta (unat (ppn_0 f))"
    using frames_apart_page [OF ap' al(1) e] hv by (auto simp: the_vmm_def same_world_facts [OF sw])
qed

section \<open>From the start\<close>

lemma exec_hart_ok: "exec b is (h, w) = Inr (h', w') \<Longrightarrow> hart_ok h \<Longrightarrow> hart_ok h'"
proof (induction "is" arbitrary: h w)
  case (Cons i "is")
  obtain h1 w1 where s: "exec1 b i (h, w) = Inr (h1, w1)" "exec b is (h1, w1) = Inr (h', w')"
    using Cons.prems(1) by auto
  have "hart_ok h1" using s(1) Cons.prems(2) by (cases i) auto
  then show ?case using Cons.IH [OF s(2)] by blast
qed simp

lemma detect_hart_ok:
  assumes "detect_h_extension E trap_addr hh tval rd m (h, w) = Inr (b, h', w')" "hart_ok h"
  shows "hart_ok h'"
proof -
  have i: "hart_ok h1" if "init_detect_trap trap_addr 0 h = Inr (k, h1)" for k h1
    using that assms(2) by (auto simp: init_detect_trap_def Let_def split: if_splits)
  have r: "hart_ok h3" if "restore_detect_trap s v t h2 = (a, h3)" "hart_ok h2" for s v t h2 a h3
    using that by (auto simp: restore_detect_trap_def Let_def split: if_splits)
  have c: "hart_ok h2" if "csrr_hgatp E hh tval rd m (h1, w) = Inr (h2, w2)" "hart_ok h1" for h1 h2 w2
    using that by (auto simp: csrr_hgatp_def on_detect_trap_def Let_def split: if_splits dest!: exec_hart_ok)
  show ?thesis
    using assms(1) by (auto simp: detect_h_extension_def with_detect_trap_def split: prod.splits dest!: i r c)
qed

lemma probe_machine_returned:
  assumes "probe_machine E img p w m = Inr m'" "hart_ok (hart m)"
  shows "hart_ok (hart m')" "same_world m m'" "HOST_VMM m' = HOST_VMM m"
proof -
  obtain b h w' where r: "detect_h_extension E (img_on_detect_trap img) (has_h p) (illegal_stval p) (probe_rd p)
      (mem m) (hart m, w) = Inr (b, h, w')" "m' = (log_event (RtCall Rt_probe_hsm) m)\<lparr>hart := h\<rparr>"
    using assms(1) by (auto simp: probe_machine_def do_rt_def log_event_def Let_def split: if_splits)
  show "hart_ok (hart m')" using detect_hart_ok [OF r(1) assms(2)] r(2) by simp
  show "same_world m m'" "HOST_VMM m' = HOST_VMM m" using r(2) by (simp_all add: same_world_def log_event_def)
qed

text \<open>The first frame that the allocator has after \<open>heap_init\<close>.\<close>

definition first_frame :: "symbols \<Rightarrow> nat" where
  "first_frame syms = (unat (sym_ekernel syms) + 4095) div 4096"

lemma heap_init_fresh:
  assumes "FRAME_ALLOCATOR s = None" "region_ok (sym_ekernel syms, MEMORY_END, perm)" "heap_init (sym_ekernel syms) s = Inr s'"
  shows "fresh (word_of_nat (first_frame syms)) 0x88000 s'" "alloc_ok (first_frame syms) s'" "mem s' = mem s"
    "world.more s' = world.more s" "unat (word_of_nat (first_frame syms) :: usize) = first_frame syms" "first_frame syms \<le> 0x88000"
proof -
  let ?k = "sym_ekernel syms"
  have k: "unat ?k < 0x88000000" using assms(2) by (simp add: region_ok_def word_less_nat_alt)
  have "(unat ?k + 4095) div 4096 \<le> (0x88000000 + 4095) div 4096" using k by (intro div_le_mono) simp
  then show le: "first_frame syms \<le> 0x88000" by (simp add: first_frame_def)
  then show n: "unat (word_of_nat (first_frame syms) :: usize) = first_frame syms" by (simp add: unat_word_of_nat_usize)
  have f: "PhysAddr_from ?k = PhysAddr ?k" "PhysAddr_floor (PhysAddr_from MEMORY_END) = PhysPageNum 0x88000"
    using k by (simp add: from_small) (simp add: PhysAddr_floor_def PhysAddr_from_def)
  obtain l where l: "PhysAddr_ceil (PhysAddr ?k) = Inr l"
    "s' = s\<lparr>FRAME_ALLOCATOR := Some \<lparr>fa_current = ppn_0 l, fa_end = 0x88000, fa_recycled = []\<rparr>\<rparr>"
    using assms(1,3)
    by (auto simp: heap_init_def init_frame_allocator_def f StackFrameAllocator_init_def StackFrameAllocator_new_def
        simp del: MEMORY_END_def)
  have "?k \<noteq> 0" using l(1) by (auto simp: PhysAddr_ceil_def checked_sub_def)
  then have "1 \<le> unat ?k" by (simp add: Suc_le_eq unat_gt_0)
  then have "l = PhysPageNum (word_of_nat (first_frame syms))"
    using l(1) k PhysAddr_ceil_value [of ?k] by (simp add: first_frame_def)
  then show fr: "fresh (word_of_nat (first_frame syms)) 0x88000 s'" using l(2) by (simp add: fresh_def)
  show "alloc_ok (first_frame syms) s'" using fresh_alloc_ok [OF fr] n le by simp
  show "mem s' = mem s" "world.more s' = world.more s" using l(2) by simp_all
qed

text \<open>What the boot sequence relies on: the two device trees and how they fit to the image.\<close>

definition boot_ok ::
  "env \<Rightarrow> ('fdt, 'node) fdt_crate \<Rightarrow> image \<Rightarrow> usize \<Rightarrow> MachineMeta \<Rightarrow> MachineMeta \<Rightarrow> bool" where
  "boot_ok E api img dtb hmeta gmeta \<longleftrightarrow> setters_ok E \<and> parse api dtb = Inr hmeta \<and>
     parse api (img_guest_dtb img) = Inr gmeta \<and> host_ok (img_symbols img) hmeta \<and> guest_ok gmeta \<and>
     frames_apart (first_frame (img_symbols img)) 0x88000 gmeta"

definition power_on :: "machine \<Rightarrow> bool" where
  "power_on m \<longleftrightarrow> hart_ok (hart m) \<and> FRAME_ALLOCATOR m = None \<and> HOST_VMM m = None"

lemma hentry_returned:
  assumes ok: "boot_ok E api img dtb hmeta gmeta" and on: "power_on m0" and r: "hentry E api img p w 0 dtb m0 = Inr m"
  shows "\<exists>pt. guest_running (img_traps img) m \<and>
    confined_by (first_frame (img_symbols img)) (sym_strampoline (img_symbols img)) gmeta pt m \<and>
    (pc (hart m) = GUEST_START_VA \<and> supervisor (hart m) \<and> get_gpr 11 (hart m) = GUEST_DTB_ADDR \<and>
     csrs (hart m) Hedeleg = hedeleg_value \<and> csrs (hart m) Hideleg = hideleg_value) \<and>
    (\<exists>f. trap_context_pair f \<in> Map.graph (sv39_view (page_table (hpm (the_vmm m))) m) \<and>
      \<not> guest_page gmeta (unat (ppn_0 f)))"
proof -
  let ?syms = "img_symbols img" and ?S = "img_traps img"
  have b: "setters_ok E" "parse api dtb = Inr hmeta" "parse api (img_guest_dtb img) = Inr gmeta" "host_ok ?syms hmeta"
    "guest_ok gmeta" "frames_apart (first_frame ?syms) 0x88000 gmeta"
    using ok by (simp_all add: boot_ok_def)
  obtain m1 m2 m3 hs m4 gs m5 v m6 hs' m7 m8 m9 m10 g m11 m12 where s:
    "clear_bss (img_sbss img) (sym_ebss ?syms) m0 = Inr m1" "probe_machine E img p w m1 = Inr m2"
    "heap_init (sym_ekernel ?syms) m2 = Inr m3" "new_host_vmm Sv39 ?syms hmeta m3 = Inr (hs, m4)"
    "new_guest_without_load Sv39 (sym_strampoline ?syms) gmeta (init_vmm hs hmeta m4) = Inr (gs, m5)"
    "vmm_lock m5 = Inr (v, m6)" "map_guest Sv39 (hpm v) GUEST_START_PA GUEST_DEFAULT_SIZE m6 = Inr (hs', m7)"
    "enable_paging (vmm_unlock (v\<lparr>hpm := hs'\<rparr>) m7) = Inr m8" "trap_init ?S m8 = Inr m9" "remap_test ?syms m9 = Inr m10"
    "Guest_new E (sym_trap_handler ?S) 0 gs gmeta m10 = Inr (g, m11)" "add_guest_queue g m11 = Inr m12"
    "hart_entry_1 E m12 = Inr m"
    using r b(2,3) by (auto simp: hentry_def Let_def simp del: GUEST_START_PA_def GUEST_DEFAULT_SIZE_def)
  have o1: "hart_ok (hart m1)" "FRAME_ALLOCATOR m1 = None" "HOST_VMM m1 = None"
    using s(1) on by (auto simp: clear_bss_def power_on_def)
  note p2 = probe_machine_returned [OF s(2) o1(1)]
  have o2: "FRAME_ALLOCATOR m2 = None" "HOST_VMM m2 = None" using p2 o1 by (simp_all add: same_world_def)
  have ek: "region_ok (sym_ekernel ?syms, MEMORY_END, perm_rw)"
    using b(4) by (simp add: host_ok_def section_regions_def del: MEMORY_END_def)
  note h3 = heap_init_fresh [OF o2(1) ek s(3)]
  have o3: "HOST_VMM m3 = None" "hart_ok (hart m3)" using more_machine [OF h3(4)] o2(2) p2(1) by simp_all
  note b5 = booting_starts(1) [OF h3(2,1) o3 b(4,5) s(4,5)]
  note b10 = booting_remap_test [OF booting_trap_init [OF booting_enable_paging [OF booting_map_guest [OF b5 s(6,7)] s(8)] s(9)] s(10)]
  note g11 = booting_Guest_new [OF b10 s(11)]
  have gid: "guest_id g = 0" using g11(2) by simp
  note e = boot_ends [OF g11(1) s(12) gid s(13) b(1) g11(3) b(6)]
  show ?thesis using e(1,2,4,5) by blast
qed

end
