(* ===== verification/Vmexit_Correct.thy ===== *)
theory Vmexit_Correct
  imports Guest_Run
begin

text \<open>
  What an exit does for the guest, cause by cause: the registers and the program
  counter with which it resumes, what the outside sees, and which exits never come
  back.
\<close>

section \<open>An exit that is handled\<close>

text \<open>The labels of \<^verbatim>\<open>trap.S\<close> lie in one page, \<open>__alltraps\<close> first.\<close>

definition symbols_ok :: "trap_symbols \<Rightarrow> bool" where
  "symbols_ok S \<longleftrightarrow> sym_alltraps S \<le> sym_alltraps_k S \<and> unat (sym_alltraps_k S - sym_alltraps S) < 4096 \<and>
     sym_alltraps S \<le> sym_restore S \<and> unat (sym_restore S - sym_alltraps S) < 4096"

lemma trampoline_va_ok:
  assumes "a \<le> l" "unat (l - a) < 4096"
  shows "trampoline_va l a = Inr (l - a + TRAMPOLINE)"
  using assms by (simp add: trampoline_va_def checked_sub_def checked_add_def)

text \<open>
  \<open>at_handler S h m m1\<close>: the guest of \<open>m\<close> has trapped, with \<open>h\<close> the hart right after
  the trap, and \<open>handle_trap\<close> starts in \<open>m1\<close>.
\<close>

definition at_handler :: "hart \<Rightarrow> machine \<Rightarrow> machine \<Rightarrow> bool" where
  "at_handler h m m1 \<longleftrightarrow> mem m1 = mem m \<and> events m1 = events m \<and> trap_ctx m1 = saved_ctx h (trap_ctx m) \<and>
     HOST_VMM m1 = Some \<lparr>mutex_inner = the_vmm m, mutex_locked = True\<rparr> \<and>
     get_gpr 4 (hart m1) = get_gpr 4 (hart m) \<and>
     (\<forall>c. c \<noteq> Sscratch \<longrightarrow> c \<noteq> Stvec \<longrightarrow> csrs (hart m1) c = csrs h c)"

text \<open>The guest resumes with what the handler left in the context.\<close>

definition resumed_with :: "Vmm \<Rightarrow> machine \<Rightarrow> machine \<Rightarrow> bool" where
  "resumed_with v m3 m' \<longleftrightarrow> the_vmm m' = v \<and> events m' = events m3 \<and> mem m' = mem m3 \<and> trap_ctx m' = trap_ctx m3 \<and>
     pc (hart m') = ctx_sepc (trap_ctx m3) \<and> supervisor (hart m') = bit (ctx_sstatus (trap_ctx m3)) 8 \<and>
     (\<forall>r < 32. r \<noteq> 0 \<longrightarrow> r \<noteq> 4 \<longrightarrow> get_gpr r (hart m') = ctx_x (trap_ctx m3) ! r) \<and>
     get_gpr 4 (hart m') = get_gpr 4 (hart m3) \<and>
     (\<forall>c. c \<notin> {Sscratch, Stvec, Sstatus, Sepc, Hstatus, Hgatp} \<longrightarrow> csrs (hart m') c = csrs (hart m3) c)"

lemma locked_at_handler:
  assumes "in_handler (the_vmm m) m m1" "trap_ctx m1 = saved_ctx h (trap_ctx m)" "events m1 = events m"
    "\<forall>c. c \<noteq> Sscratch \<longrightarrow> csrs (hart m1) c = csrs h c" "get_gpr 4 (hart m1) = get_gpr 4 (hart m)"
  shows "at_handler h m (locked_state S m1)"
proof -
  have "the_vmm m1 = the_vmm m" using assms(1) by (simp add: in_handler_def the_vmm_def)
  then show ?thesis using assms by (simp add: at_handler_def locked_state_def in_handler_def)
qed

lemma trap_handler_ok:
  assumes "symbols_ok S" "HOST_VMM m = Some \<lparr>mutex_inner = the_vmm m, mutex_locked = False\<rparr>"
  shows "trap_handler E S m = bindR (handle_trap E (the_vmm m) (locked_state S m)) (\<lambda>(err, v, m3).
    case err of Some e \<Rightarrow> Inl ExplicitPanic | None \<Rightarrow> switch_to_guest E S (vmm_unlock v m3))"
proof -
  have "set_kernel_trap_entry S m = Inr (on_hart (\<lambda>h. write_csr Sscratch (sym_trap_from_kernel S)
      (write_csr Stvec (sym_alltraps_k S - sym_alltraps S + TRAMPOLINE) h)) m)"
    using assms(1) by (simp add: set_kernel_trap_entry_def symbols_ok_def trampoline_va_ok)
  then show ?thesis
    using assms(2)
    by (simp add: trap_handler_def vmm_lock_def on_hart_def locked_state_def handle_internal_vmm_error_def Let_def
        cong: option.case_cong)
qed

lemma switch_to_guest_ok:
  assumes "symbols_ok S" "csrs (hart m) Hgatp = ctx_hgatp (trap_ctx m)"
  shows "switch_to_guest E S m = Inr (on_hart (\<lambda>h. (set_gpr 10 TRAP_CONTEXT h)
    \<lparr>pc := sym_restore S - sym_alltraps S + TRAMPOLINE\<rparr>) (set_user_trap_entry m))"
  using assms
  by (simp add: switch_to_guest_def symbols_ok_def trampoline_va_ok install_hgatp_def set_user_trap_entry_def
      on_hart_def del: TRAP_CONTEXT_def TRAMPOLINE_def)

text \<open>An exit is: save, handle, restore.\<close>

lemma vm_exit_enters:
  assumes r: "guest_running S m" and S: "symbols_ok S" and h: "h = hw_trap cause tval gpa inst (hart m)"
  shows "\<exists>m1. in_handler (the_vmm m) m m1 \<and> at_handler h m (locked_state S m1) \<and>
    vm_exit E S (on_hart (hw_trap cause tval gpa inst) m) =
      bindR (handle_trap E (the_vmm m) (locked_state S m1)) (\<lambda>(err, v, m3).
      case err of Some e \<Rightarrow> Inl ExplicitPanic
      | None \<Rightarrow> bindR (switch_to_guest E S (vmm_unlock v m3)) (run_asm restore_code))"
proof -
  obtain m0 m1 where m1: "run_asm alltraps_code (on_hart (hw_trap cause tval gpa inst) m) = Inr m0"
    "in_handler (the_vmm m) m m1" "trap_ctx m1 = saved_ctx h (trap_ctx m)" "events m1 = events m"
    "\<forall>c. c \<noteq> Sscratch \<longrightarrow> csrs (hart m1) c = csrs h c" "get_gpr 4 (hart m1) = get_gpr 4 (hart m)" "m1 = clobbered E m0"
    using enter_handler [OF r, of cause tval gpa inst] unfolding h by blast
  have vm: "HOST_VMM m1 = Some \<lparr>mutex_inner = the_vmm m1, mutex_locked = False\<rparr>" "the_vmm m1 = the_vmm m"
    using m1(2) by (simp_all add: in_handler_def the_vmm_def)
  have "vm_exit E S (on_hart (hw_trap cause tval gpa inst) m) =
      bindR (handle_trap E (the_vmm m) (locked_state S m1)) (\<lambda>(err, v, m3).
      case err of Some e \<Rightarrow> Inl ExplicitPanic
      | None \<Rightarrow> bindR (switch_to_guest E S (vmm_unlock v m3)) (run_asm restore_code))"
    using trap_handler_ok [OF S vm(1)] vm(2) m1(1,7)
    by (auto simp: vm_exit_def bindR_def split: sum.split option.split)
  then show ?thesis using m1(2) locked_at_handler [OF m1(2-6)] by blast
qed

lemma vm_exit_handled:
  assumes r: "guest_running S m" and S: "symbols_ok S" and h: "h = hw_trap cause tval gpa inst (hart m)"
    and handled: "\<And>m1. at_handler h m m1 \<Longrightarrow>
      \<exists>v' m3. handle_trap E (the_vmm m) m1 = Inr (None, v', m3) \<and> Q v' m3"
  shows "\<exists>m' v' m3. vm_exit E S (on_hart (hw_trap cause tval gpa inst) m) = Inr m' \<and> Q v' m3 \<and>
    resumed_with v' m3 m' \<and> guest_running S m'"
proof -
  obtain m1 where m1: "in_handler (the_vmm m) m m1" "at_handler h m (locked_state S m1)"
    "vm_exit E S (on_hart (hw_trap cause tval gpa inst) m) =
      bindR (handle_trap E (the_vmm m) (locked_state S m1)) (\<lambda>(err, v, m3).
      case err of Some e \<Rightarrow> Inl ExplicitPanic
      | None \<Rightarrow> bindR (switch_to_guest E S (vmm_unlock v m3)) (run_asm restore_code))"
    using vm_exit_enters [OF r S h] by blast
  obtain v' m3 where t: "handle_trap E (the_vmm m) (locked_state S m1) = Inr (None, v', m3)" "Q v' m3"
    using handled [OF m1(2)] by blast
  note st = handle_trap_step [OF t(1)]
  note i = in_handler_trans [OF m1(1) conjunct1 [OF st] conjunct2 [OF st]]
  let ?m4 = "vmm_unlock v' m3"
  have hg: "csrs (hart ?m4) Hgatp = ctx_hgatp (trap_ctx ?m4)" "hart_ok (hart ?m4)" "ctx_ok (trap_ctx ?m4)"
    using i r by (simp_all add: in_handler_def kept_csrs_def guest_running_def)
  obtain m5 where m5: "switch_to_guest E S ?m4 = Inr m5" using switch_to_guest_ok [OF S hg(1)] by blast
  note s = switch_to_guest_returned [OF m5 hg(2)]
  have k: "trap_ctx m5 = trap_ctx m3" "mem m5 = mem m3" "events m5 = events m3"
    "HOST_VMM m5 = Some \<lparr>mutex_inner = v', mutex_locked = False\<rparr>"
    by (subst s(1), simp add: vmm_unlock_def)+
  have c5: "ctx_ok (trap_ctx m5)" using hg(3) k(1) by (simp add: vmm_unlock_def)
  obtain h' where h': "run_asm restore_code m5 = Inr (m5\<lparr>hart := h'\<rparr>)" "resumed (hart m5) TRAP_CONTEXT (trap_ctx m5) h'"
    "\<forall>q < 32. get_gpr q h' = restored_gpr (hart m5) (trap_ctx m5) q"
    using run_restore [OF s(2) c5 s(3)] by blast
  let ?m' = "m5\<lparr>hart := h'\<rparr>"
  have ex: "vm_exit E S (on_hart (hw_trap cause tval gpa inst) m) = Inr ?m'"
    using m1(3) t(1) m5 h'(1) by simp
  have "csrs h' c = csrs (hart m3) c" if "c \<notin> {Sscratch, Stvec, Sstatus, Sepc, Hstatus, Hgatp}" for c
    using h'(2) s(7) [of c] that by (simp add: resumed_def vmm_unlock_def)
  then have "resumed_with v' m3 ?m'"
    using h' k s(4) by (simp add: resumed_with_def resumed_def restored_gpr_def the_vmm_def vmm_unlock_def)
  with ex t(2) vm_exit_returned [OF r ex] show ?thesis by blast
qed

text \<open>An exit whose handler aborts or reports an error stops the machine.\<close>

lemma vm_exit_aborts:
  assumes "guest_running S m" "symbols_ok S" "h = hw_trap cause tval gpa inst (hart m)"
    and "\<And>m1. at_handler h m m1 \<Longrightarrow> handle_trap E (the_vmm m) m1 = Inl a"
  shows "vm_exit E S (on_hart (hw_trap cause tval gpa inst) m) = Inl a"
  using vm_exit_enters [OF assms(1-3), of E] assms(4) by force

lemma vm_exit_errors:
  assumes "guest_running S m" "symbols_ok S" "h = hw_trap cause tval gpa inst (hart m)"
    and "\<And>m1. at_handler h m m1 \<Longrightarrow> \<exists>e v' m3. handle_trap E (the_vmm m) m1 = Inr (Some e, v', m3)"
  shows "vm_exit E S (on_hart (hw_trap cause tval gpa inst) m) = Inl ExplicitPanic"
  using vm_exit_enters [OF assms(1-3), of E] assms(4) by force

section \<open>What the handler finds\<close>

lemma at_handlerD:
  assumes a: "at_handler h m m1" and h: "h = hw_trap cause tval gpa inst (hart m)" and r: "guest_running S m"
  shows "length (ctx_x (trap_ctx m1)) = 32" "ctx_sepc (trap_ctx m1) = pc (hart m)"
    "\<And>q. q < 32 \<Longrightarrow> ctx_x (trap_ctx m1) ! q = (if q = 0 \<or> q = 4 then ctx_x (trap_ctx m) ! q else get_gpr q (hart m))"
    "csrs (hart m1) Scause = cause" "csrs (hart m1) Htval = gpa" "csrs (hart m1) Htinst = inst"
    "\<And>c. c \<in> {Hvip, Sie, Vsatp, Vstvec, Vsepc, Vscause} \<Longrightarrow> csrs (hart m1) c = csrs (hart m) c"
    "mem m1 = mem m" "events m1 = events m" "bit (ctx_sstatus (trap_ctx m1)) 8 = supervisor (hart m)"
    "HOST_VMM m1 = Some \<lparr>mutex_inner = the_vmm m, mutex_locked = True\<rparr>" "get_gpr 4 (hart m1) = get_gpr 4 (hart m)"
  using a unfolding at_handler_def h
  by (auto simp: saved_ctx_def saved_regs_def hw_trap_def get_gpr_def)

text \<open>
  The guest's registers but those of \<open>X\<close> are as they were: those that \<open>trap.S\<close> saves
  and restores, and \<open>tp\<close>, which it leaves alone.
\<close>

definition same_regs :: "nat set \<Rightarrow> machine \<Rightarrow> machine \<Rightarrow> bool" where
  "same_regs X m m' \<longleftrightarrow> (\<forall>q < 32. q \<notin> X \<longrightarrow> get_gpr q (hart m') = get_gpr q (hart m))"

lemma same_regs_resumed:
  assumes "resumed_with v m3 m'"
    and "\<And>q. q < 32 \<Longrightarrow> q \<notin> X \<Longrightarrow> q \<noteq> 0 \<Longrightarrow> q \<noteq> 4 \<Longrightarrow> ctx_x (trap_ctx m3) ! q = get_gpr q (hart m)"
    and "get_gpr 4 (hart m3) = get_gpr 4 (hart m)"
  shows "same_regs X m m'"
  unfolding same_regs_def
proof (intro allI impI)
  fix q :: nat
  assume "q < 32" "q \<notin> X"
  then show "get_gpr q (hart m') = get_gpr q (hart m)"
    using assms by (cases "q = 0"; cases "q = 4") (auto simp: resumed_with_def)
qed

section \<open>A board for the witnesses\<close>

text \<open>
  An environment with the architecture's cause numbers, a decoder of \<open>lw\<close> and
  \<open>sw\<close>, a firmware that answers \<open>(0, 1)\<close> and an interrupt controller that reports
  interrupt 10; a hypervisor with one guest; and the guest running at \<open>0x90200000\<close>.
\<close>

definition demo_env :: env where
  "demo_env = \<lparr>mmio_read32 = (\<lambda>_ _. 10), sbi_ecall = (\<lambda>_ _ _ _. (0, 1)), sbi_rt = (\<lambda>_ _. 0),
     scause_cause = (\<lambda>c. if c = 0x8000000000000005 then Interrupt SupervisorTimer
       else if c = 0x8000000000000009 then Interrupt SupervisorExternal
       else if c = 2 then Exception IllegalInstruction
       else if c = 10 then Exception VirtualSupervisorEnvCall
       else if c = 20 then Exception InstructionGuestPageFault
       else if c = 21 then Exception LoadGuestPageFault
       else if c = 22 then Exception VirtualInstruction
       else if c = 23 then Exception StoreGuestPageFault else Exception OtherException),
     set_spp_supervisor = put_bit 8 True, set_spv = put_bit 7 True,
     instruction_length = (\<lambda>i. if i AND 3 = 3 then 4 else 2),
     decode = (\<lambda>i. if i AND 0x707f = 0x2003 then Some (Lw (drop_bit 7 i AND 31))
       else if i AND 0x707f = 0x2023 then Some (Sw (drop_bit 20 i AND 31)) else None),
     hgatp_legal = (\<lambda>v. v), leftover = (\<lambda>_ r. 0xdead0000 + word_of_nat r)\<rparr>"

definition demo_symbols :: trap_symbols where
  "demo_symbols = \<lparr>sym_alltraps = 0x80205000, sym_alltraps_k = 0x80205200, sym_restore = 0x80205100,
     sym_trap_handler = 0x80210000, sym_trap_from_kernel = 0x80211000\<rparr>"

definition demo_vmm :: Vmm where
  "demo_vmm = \<lparr>host_machine = MachineMeta_default, hpm = \<lparr>page_table = \<lparr>root_ppn = PhysPageNum 0x80400, pt_frames = []\<rparr>, areas = []\<rparr>,
     guests = replicate 4 None, vm_guest_id = 0, host_plic = Some (PlicState_new 0xc000000),
     irq_pending = False, timer_irq = 0, external_irq = 0, guest_page_falut = 0\<rparr>"

definition demo_machine :: "usize list \<Rightarrow> machine" where
  "demo_machine x = \<lparr>mem = (\<lambda>_. 0), FRAME_ALLOCATOR = None,
     hart = \<lparr>gprs = x, csrs = (\<lambda>_. 0)(Sscratch := TRAP_CONTEXT, Stvec := TRAMPOLINE, Sie := 0x222, Hgatp := 0x8000000000080600),
       pc = 0x90200000, virt = True, supervisor = True\<rparr>,
     events = [], trap_ctx = \<lparr>ctx_x = replicate 32 0, ctx_sstatus = 0, ctx_sepc = 0, ctx_hgatp = 0x8000000000080600,
       ctx_kernel_sp = 0, ctx_trap_handler = 0x80210000, ctx_hstatus = 0\<rparr>,
     HOST_VMM = Some \<lparr>mutex_inner = demo_vmm, mutex_locked = False\<rparr>\<rparr>"

lemma demo_running: "length x = 32 \<Longrightarrow> guest_running demo_symbols (demo_machine x)"
  by (simp add: guest_running_def demo_machine_def hart_ok_def ctx_ok_def demo_symbols_def timer_ok_def plic_ok_def
      demo_vmm_def PlicState_new_def bit_iff_odd)

lemma demo_symbols_ok: "symbols_ok demo_symbols"
  by (simp add: symbols_ok_def demo_symbols_def)

lemma demo_the_vmm [simp]: "the_vmm (demo_machine x) = demo_vmm"
  by (simp add: the_vmm_def demo_machine_def)

section \<open>Timer\<close>

lemma timer_handled:
  assumes "at_handler h m m1" "scause_cause E (csrs (hart m1) Scause) = Interrupt SupervisorTimer"
    "unat (timer_irq v) + 1 < 2 ^ 64"
  shows "handle_trap E v m1 = Inr (None, v\<lparr>timer_irq := timer_irq v + 1\<rparr>,
    on_hart (\<lambda>h. clear_csr Sie STIP (set_csr Hvip VSTIP h)) m1)"
  using assms(2,3) by (simp add: handle_trap_def checked_add_def Let_def)

text \<open>
  C8. A timer interrupt of the machine becomes a timer interrupt of the guest: the exit
  returns to the guest where it was, in the same mode and with the same registers,
  the guest's timer interrupt is pending, the machine's is disabled until the guest
  sets the timer again, and nothing outside is touched. The hypervisor's count of
  timer interrupts must be below its maximum, where its addition panics.
\<close>

theorem timer_interrupt_delivered:
  assumes r: "guest_running S m" and S: "symbols_ok S" and c: "scause_cause E cause = Interrupt SupervisorTimer"
    and n: "unat (timer_irq (the_vmm m)) + 1 < 2 ^ 64"
  shows "\<exists>m'. vm_exit E S (on_hart (hw_trap cause tval gpa inst) m) = Inr m' \<and> guest_running S m' \<and>
    bit (csrs (hart m') Hvip) 6 \<and> \<not> bit (csrs (hart m') Sie) 5 \<and>
    pc (hart m') = pc (hart m) \<and> supervisor (hart m') = supervisor (hart m) \<and> same_regs {} m m' \<and>
    events m' = events m \<and> the_vmm m' = (the_vmm m)\<lparr>timer_irq := timer_irq (the_vmm m) + 1\<rparr>"
proof -
  let ?h = "hw_trap cause tval gpa inst (hart m)"
  let ?Q = "\<lambda>v' m3. v' = (the_vmm m)\<lparr>timer_irq := timer_irq (the_vmm m) + 1\<rparr> \<and>
    (\<exists>m1. at_handler ?h m m1 \<and> m3 = on_hart (\<lambda>h. clear_csr Sie STIP (set_csr Hvip VSTIP h)) m1)"
  have "\<exists>v' m3. handle_trap E (the_vmm m) m1 = Inr (None, v', m3) \<and> ?Q v' m3" if a: "at_handler ?h m m1" for m1
    using timer_handled [OF a _ n] at_handlerD(4) [OF a refl r] c a by auto
  then obtain m' m1 m3 where x: "vm_exit E S (on_hart (hw_trap cause tval gpa inst) m) = Inr m'" "guest_running S m'"
    "at_handler ?h m m1" "m3 = on_hart (\<lambda>h. clear_csr Sie STIP (set_csr Hvip VSTIP h)) m1"
    "resumed_with ((the_vmm m)\<lparr>timer_irq := timer_irq (the_vmm m) + 1\<rparr>) m3 m'"
    using vm_exit_handled [OF r S refl, of cause tval gpa inst E ?Q] by blast
  note d = at_handlerD [OF x(3) refl r]
  have t: "trap_ctx m3 = trap_ctx m1" "events m3 = events m1" using x(4) by (simp_all add: on_hart_def)
  have "same_regs {} m m'" using d(3,12) t(1) x(4) by (intro same_regs_resumed [OF x(5)]) (simp_all add: on_hart_def)
  then show ?thesis
    using x(1,2,5) d(2,9,10) t by (intro exI [of _ m']) (simp add: resumed_with_def x(4) on_hart_def pending_defs bit_simps)
qed

theorem timer_interrupt_delivered_witness:
  "\<exists>m'. vm_exit demo_env demo_symbols (on_hart (hw_trap 0x8000000000000005 0 0 0) (demo_machine (replicate 32 7))) = Inr m' \<and>
     bit (csrs (hart m') Hvip) 6 \<and> \<not> bit (csrs (hart m') Sie) 5 \<and> pc (hart m') = 0x90200000"
proof -
  have "pc (hart (demo_machine (replicate 32 7))) = 0x90200000" by (simp add: demo_machine_def)
  then show ?thesis
    using timer_interrupt_delivered [OF demo_running demo_symbols_ok, of "replicate 32 7" demo_env "0x8000000000000005" 0 0 0]
    by (auto simp: demo_env_def demo_vmm_def)
qed

end
