(* ===== verification/Boot_Live.thy ===== *)
theory Boot_Live
  imports Boot_Correct Vmexit_Correct
begin

text \<open>
  The boot sequence returns: every step of \<open>hentry\<close> has the frames it needs, finds
  the pages it maps unmapped and passes its assertions, on an image and device
  trees that fit together and a hart with the hypervisor extension.
\<close>

section \<open>Conditions\<close>

text \<open>
  A region below the pages that the hypervisor keeps for itself at the top of
  the address space: one stack, the trap context and the trampoline.
\<close>

definition below_stack :: "region \<Rightarrow> bool" where
  "below_stack = (\<lambda>(a, b, _). first_page a + page_count a b \<le> 0x7fffffa)"

text \<open>
  The frames for the hypervisor's tables and trap context, the guest's tables with
  the frames lost to the alignment of the root, the guest's memory in the
  hypervisor's table, and the stack.
\<close>

definition boot_cost :: "image \<Rightarrow> MachineMeta \<Rightarrow> MachineMeta \<Rightarrow> nat" where
  "boot_cost img hmeta gmeta = (6 + (\<Sum>r\<leftarrow>host_regions (img_symbols img) hmeta. region_cost r)) +
     (9 + (\<Sum>r\<leftarrow>guest_regions gmeta. region_cost r)) + region_cost guest_window + 12"

definition boot_fits :: "image \<Rightarrow> MachineMeta \<Rightarrow> MachineMeta \<Rightarrow> bool" where
  "boot_fits img hmeta gmeta \<longleftrightarrow>
     (let syms = img_symbols img in
      img_sbss img \<le> sym_ebss syms \<and> 0 < sym_ekernel syms \<and> unat (sym_strampoline syms) mod 4096 = 0 \<and>
      img_on_detect_trap img AND 1 = 0 \<and> symbols_ok (img_traps img) \<and>
      disjoint_regions (guest_window # host_regions syms hmeta) \<and> list_all below_stack (guest_window # host_regions syms hmeta) \<and>
      disjoint_regions (guest_regions gmeta) \<and> list_all below_trampoline (guest_regions gmeta) \<and>
      first_frame syms + boot_cost img hmeta gmeta \<le> 0x88000)"

text \<open>
  The hart has the extension, the compiler did not choose the thread pointer for the
  probe, the firmware can start harts, and \<open>hgatp\<close> accepts mode Sv39x4 with an
  aligned root.
\<close>

definition hart_supports :: "env \<Rightarrow> probed \<Rightarrow> bool" where
  "hart_supports E p \<longleftrightarrow> has_h p \<and> probe_rd p < 32 \<and> probe_rd p \<noteq> 4 \<and> (\<forall>es. sbi_rt E es Rt_probe_hsm \<noteq> 0) \<and>
     (\<forall>r. unat r < 2 ^ 44 \<and> r AND 3 = 0 \<longrightarrow> hgatp_legal E (push_bit 60 8 OR r) = push_bit 60 8 OR r)"

section \<open>Steps\<close>

lemma free_frames_same: "same_world s s' \<Longrightarrow> free_frames s' = free_frames s"
  by (simp add: same_world_def free_frames_def)

lemma the_vmm_unlock [simp]: "the_vmm (vmm_unlock v m) = v"
  by (simp add: the_vmm_def vmm_unlock_def)

lemma unlock_world: "same_world m (vmm_unlock v m)"
  by (simp add: same_world_def vmm_unlock_def)

lemma not_mapped: "(\<And>x. (v, x) \<notin> Map.graph f) \<Longrightarrow> f v = None"
  by (cases "f v") (auto simp: Map.graph_def)

lemma map_guest_progress:
  assumes b: "booting base st gmeta pt m" and room: "region_cost guest_window \<le> free_frames m"
    and free: "\<And>v x. (v, x) \<in> host_maps m \<Longrightarrow> unat (vpn_0 v) \<notin> region_pages guest_window"
  shows "\<exists>v m1 hs m2. vmm_lock m = Inr (v, m1) \<and>
    map_guest Sv39 (hpm v) GUEST_START_PA GUEST_DEFAULT_SIZE m1 = Inr (hs, m2) \<and>
    free_frames m \<le> free_frames (vmm_unlock (v\<lparr>hpm := hs\<rparr>) m2) + region_cost guest_window \<and>
    host_maps (vmm_unlock (v\<lparr>hpm := hs\<rparr>) m2) = host_maps m \<union> region_pairs guest_window"
proof -
  obtain v m1 where l: "vmm_lock m = Inr (v, m1)" using booting_locked [OF b] by blast
  note k = booting_lock [OF b l]
  have hm: "host_maps m = Map.graph (sv39_view (page_table (hpm v)) m1)"
    using k(1) same_world_facts(5) [OF k(3)] by (simp add: host_maps_def the_vmm_def)
  have i: "sv39_inv base (page_table (hpm v)) m1" using k(4) by (simp add: ms_ok_def)
  have un: "sv39_view (page_table (hpm v)) m1 w = None" if "unat (vpn_0 w) \<in> region_pages guest_window" for w
    using free that hm by (intro not_mapped) auto
  have room1: "region_cost guest_window \<le> free_frames m1" using room free_frames_same [OF k(3)] by simp
  obtain hs m2 where r: "push_region Sv39 guest_window (hpm v, m1) = Inr (hs, m2)"
    "free_frames m1 \<le> free_frames m2 + region_cost guest_window"
    using sv39_area.push_region_progress [OF guest_window_ok i room1 un] by blast
  note x = sv39_area.push_region_extends(1) [OF guest_window_ok k(4) r(1)]
  note w = unlock_world [of m2 "v\<lparr>hpm := hs\<rparr>"]
  have "host_maps (vmm_unlock (v\<lparr>hpm := hs\<rparr>) m2) = host_maps m \<union> region_pairs guest_window"
    using x hm same_world_facts(5) [OF w] by (simp add: host_maps_def ms_extends_def)
  then show ?thesis
    using l r free_frames_same [OF w] free_frames_same [OF k(3)]
    by (intro exI [of _ v] exI [of _ m1] exI [of _ hs] exI [of _ m2]) (simp add: map_guest_region del: GUEST_START_PA_def GUEST_DEFAULT_SIZE_def)
qed

lemma enable_paging_progress:
  assumes "booting base st gmeta pt m"
  shows "\<exists>m'. enable_paging m = Inr m' \<and> same_world m m' \<and> host_maps m' = host_maps m"
proof -
  obtain v m1 where l: "vmm_lock m = Inr (v, m1)" using booting_locked [OF assms] by blast
  note k = booting_lock [OF assms l]
  let ?m = "vmm_unlock v (activate (hpm v) m1)"
  have w: "same_world m ?m" using k(2) by (simp add: same_world_def vmm_unlock_def activate_def on_hart_def)
  then have "host_maps ?m = host_maps m" using k(1) same_world_facts(5) [OF w] by (simp add: host_maps_def the_vmm_def [of m])
  then show ?thesis using l w by (simp add: enable_paging_def)
qed

lemma trap_init_progress:
  assumes "symbols_ok S"
  shows "\<exists>m'. trap_init S m = Inr m' \<and> same_world m m' \<and> host_maps m' = host_maps m"
proof -
  obtain va where "trampoline_va (sym_alltraps_k S) (sym_alltraps S) = Inr va"
    using assms trampoline_va_ok by (fastforce simp: symbols_ok_def)
  moreover have w: "same_world m (m\<lparr>hart := h\<rparr>)" for h by (simp add: same_world_def)
  ultimately show ?thesis
    using same_world_facts(5) [OF w]
    by (simp add: trap_init_def set_kernel_trap_entry_def on_hart_def host_maps_def the_vmm_def same_world_def)
qed

lemma remap_test_progress:
  assumes b: "booting base st gmeta pt m" and h: "host_ok syms hmeta"
    and sub: "\<Union> (region_pairs ` set (host_regions syms hmeta)) \<subseteq> host_maps m" and tr: "trampoline_pair tramp \<in> host_maps m"
  shows "\<exists>m'. remap_test syms m = Inr m' \<and> same_world m m' \<and> host_maps m' = host_maps m"
proof -
  obtain v m1 where l: "vmm_lock m = Inr (v, m1)" using booting_locked [OF b] by blast
  note k = booting_lock [OF b l]
  let ?pt = "page_table (hpm v)" and ?m = "vmm_unlock v m1"
  have hm: "host_maps m = Map.graph (sv39_view ?pt m1)"
    using k(1) same_world_facts(5) [OF k(3)] by (simp add: host_maps_def the_vmm_def)
  have i: "sv39_inv base ?pt m1" using k(4) by (simp add: ms_ok_def)
  have r: "region_ok (a, e, perm) \<and> region_pairs (a, e, perm) \<subseteq> Map.graph (sv39_view ?pt m1)"
    if "(a, e, perm) \<in> set (section_regions syms)" for a e perm
    using that h sub unfolding hm by (auto simp: host_ok_def host_regions_def list_all_iff)
  have s: "region_ok (sym_stext syms, sym_etext syms, perm_rx) \<and>
      region_pairs (sym_stext syms, sym_etext syms, perm_rx) \<subseteq> Map.graph (sv39_view ?pt m1)"
    "region_ok (sym_srodata syms, sym_erodata syms, MapPermission_R) \<and>
      region_pairs (sym_srodata syms, sym_erodata syms, MapPermission_R) \<subseteq> Map.graph (sv39_view ?pt m1)"
    "region_ok (sym_sdata syms, sym_edata syms, perm_rw) \<and>
      region_pairs (sym_sdata syms, sym_edata syms, perm_rw) \<subseteq> Map.graph (sv39_view ?pt m1)"
    by (rule r, simp add: section_regions_def del: MEMORY_END_def)+
  have flags: "writable (PageTableEntry_new p (perm_rx OR PTEFlags_V)) = Inr False"
    "writable (PageTableEntry_new p (MapPermission_R OR PTEFlags_V)) = Inr False"
    "executable (PageTableEntry_new p (perm_rw OR PTEFlags_V)) = Inr False" for p
    by (simp_all add: perm_rx_def perm_rw_def flag_bits bit_or_iff)
  have "remap_assert writable (sym_stext syms) (sym_etext syms) ?pt m1 = Inr ()"
    "remap_assert writable (sym_srodata syms) (sym_erodata syms) ?pt m1 = Inr ()"
    "remap_assert executable (sym_sdata syms) (sym_edata syms) ?pt m1 = Inr ()"
    using remap_assert_passes [OF i conjunct1 [OF s(1)] conjunct2 [OF s(1)], of writable]
      remap_assert_passes [OF i conjunct1 [OF s(2)] conjunct2 [OF s(2)], of writable]
      remap_assert_passes [OF i conjunct1 [OF s(3)] conjunct2 [OF s(3)], of executable] flags by blast+
  moreover have "trampoline_read ?pt m1 = Inr ()"
  proof -
    let ?e = "PageTableEntry_new (PhysAddr_floor (PhysAddr_from tramp)) (PTEFlags_R OR PTEFlags_X OR PTEFlags_V)"
    have "sv39_view ?pt m1 (VirtPageNum 0x7ffffff) = Some ?e" using tr unfolding hm by (simp add: trampoline_pair_def view_graph)
    from sv39.translate_mapped [OF i this]
    have "sv39_translate ?pt (VirtAddr_floor (VirtAddr_from TRAMPOLINE)) m1 = Inr (Some ?e)"
      by (simp add: VirtAddr_from_def VirtAddr_floor_def)
    moreover have "is_valid ?e = Inr True" "readable ?e = Inr True" by (simp_all add: flag_bits bit_or_iff)
    ultimately show ?thesis by (simp add: trampoline_read_def del: TRAMPOLINE_def)
  qed
  ultimately have "remap_test syms m = Inr ?m" using l by (simp add: remap_test_def Let_def)
  moreover have w: "same_world m ?m" using k(2) by (simp add: same_world_def vmm_unlock_def)
  moreover have "host_maps ?m = host_maps m" using k(1) same_world_facts(5) [OF w] by (simp add: host_maps_def the_vmm_def [of m])
  ultimately show ?thesis by blast
qed

lemma Guest_new_progress:
  assumes b: "booting base st gmeta pt m" and room: "12 \<le> free_frames m"
    and free: "\<And>v x. (v, x) \<in> host_maps m \<Longrightarrow> unat (vpn_0 v) \<notin> {0x7fffffa..<0x7fffffe}"
  shows "\<exists>g m'. Guest_new E th 0 gs gm m = Inr (g, m')"
proof -
  obtain v m1 where l: "vmm_lock m = Inr (v, m1)" using booting_locked [OF b] by blast
  note k = booting_lock [OF b l]
  have hm: "host_maps m = Map.graph (sv39_view (page_table (hpm v)) m1)"
    using k(1) same_world_facts(5) [OF k(3)] by (simp add: host_maps_def the_vmm_def)
  have un: "sv39_view (page_table (hpm v)) m1 (vp n) = None" if "0x7fffffa \<le> n" "n < 0x7fffffa + 4" for n
  proof -
    have "unat (vpn_0 (vp n)) = n" using that by (intro unat_vp) simp
    then show ?thesis using free [of "vp n"] that hm by (intro not_mapped) auto
  qed
  have bound: "0x7fffffa + 4 \<le> (2::nat) ^ 27" by simp
  have room1: "3 * 4 \<le> free_frames m1" using room free_frames_same [OF k(3)] by simp
  obtain hs m2 where "push Sv39 (hpm v) (framed_area 0x7fffffa 4 perm_rw) None m1 = Inr (hs, m2)"
    using sv39_area.push_framed_progress [OF bound k(4) room1 un] by blast
  then show ?thesis
    using l by (auto simp: Guest_new_def hstack_alloc_def get_top_def insert_framed_area_def kernel_stack_area perm_rw_def
        Let_def simp del: TRAP_CONTEXT_def KERNEL_STACK_SIZE_def)
qed

lemma add_guest_queue_progress:
  assumes b: "booting base st gmeta pt m" and g: "guest_id g = 0"
  shows "\<exists>m'. add_guest_queue g m = Inr m' \<and> hart m' = hart m \<and> trap_ctx m' = trap_ctx m"
proof -
  obtain v m1 where l: "vmm_lock m = Inr (v, m1)" using booting_locked [OF b] by blast
  note k = booting_lock [OF b l]
  have "guests v = replicate 4 None" using k(5) by (simp add: host_side_def)
  then show ?thesis using l g k(2) by (simp add: add_guest_queue_def drop_guest_def assertR_def vmm_unlock_def)
qed

lemma hart_entry_progress:
  assumes ok: "hart_ok (hart m)" "ctx_ok (trap_ctx m)" and legal: "hgatp_legal E (ctx_hgatp (trap_ctx m)) = ctx_hgatp (trap_ctx m)"
  shows "\<exists>m'. hart_entry_1 E m = Inr m'"
proof -
  have "\<exists>m2. install_hgatp E (set_user_trap_entry m) = Inr m2"
    using legal by (cases "csrs (hart m) Hgatp = ctx_hgatp (trap_ctx m)")
      (simp_all add: install_hgatp_def set_user_trap_entry_def on_hart_def assertR_def)
  then obtain m2 where i: "install_hgatp E (set_user_trap_entry m) = Inr m2" by blast
  note r = install_hgatp_returned [OF i]
  have "trap_ctx m2 = trap_ctx m" using r(2) by (cases m2) (simp add: set_user_trap_entry_def on_hart_def)
  moreover have "hart_ok (hart m2)" using r(3) ok(1) by (simp add: hart_ok_def set_user_trap_entry_def on_hart_def)
  ultimately show ?thesis
    using i ok(2) exec_hart_entry_2 [of "hart m2" "trap_ctx m2"]
    by (auto simp: hart_entry_1_def hart_entry_2_def run_asm_def simp del: TRAP_CONTEXT_def)
qed

lemma guest_token_legal:
  assumes "sv39x4_inv base pt m" "hart_supports E p"
  shows "hgatp_legal E (token pt) = token pt"
proof -
  note parts = sv39_inv_parts [OF sv39x4_invD [OF assms(1)]]
  have "ppn_ok (root_ppn pt)" using tree_ok_ppn [OF parts(3) tree_ok_in [OF parts(3) path_ok_Nil]] by simp
  then have "unat (ppn_0 (root_ppn pt)) < 2 ^ 44" by (simp add: ppn_ok_def)
  moreover have "ppn_0 (root_ppn pt) AND 3 = 0" using assms(1) by (simp add: sv39x4_inv_def)
  ultimately show ?thesis using assms(2) by (simp add: hart_supports_def token_def del: push_bit_numeral)
qed

lemma probe_machine_progress:
  assumes "hart_supports E p" "img_on_detect_trap img AND 1 = 0" "hart_ok (hart m)"
  shows "\<exists>m'. probe_machine E img p w m = Inr m'"
  using assms
  by (auto simp: hart_supports_def probe_machine_def do_rt_def detect_h_extension_def with_detect_trap_def
      init_detect_trap_def csrr_hgatp_def restore_detect_trap_def Let_def
      get_set_gpr log_event_def)

lemma heap_init_progress:
  assumes "FRAME_ALLOCATOR s = None" "0 < ekernel" "unat ekernel < 0x88000000"
  shows "\<exists>s'. heap_init ekernel s = Inr s'"
proof -
  have "PhysAddr_from ekernel = PhysAddr ekernel" using assms(3) by (simp add: from_small)
  moreover have "1 \<le> unat ekernel" using assms(2) by (simp add: word_less_nat_alt)
  ultimately show ?thesis
    using assms PhysAddr_ceil_value [of ekernel]
    by (simp add: heap_init_def init_frame_allocator_def StackFrameAllocator_init_def StackFrameAllocator_new_def)
qed

section \<open>The whole sequence\<close>

lemma spaces_progress:
  assumes fr: "fresh c 0x88000 m" "alloc_ok base m" "unat c = base" and on: "HOST_VMM m = None" "hart_ok (hart m)"
    and ok: "host_ok (img_symbols img) hmeta" "guest_ok gmeta" and fits: "boot_fits img hmeta gmeta"
    and base: "base = first_frame (img_symbols img)"
  shows "\<exists>hs m1 gs m2. new_host_vmm Sv39 (img_symbols img) hmeta m = Inr (hs, m1) \<and>
    new_guest_without_load Sv39 (sym_strampoline (img_symbols img)) gmeta (init_vmm hs hmeta m1) = Inr (gs, m2) \<and>
    region_cost guest_window + 12 \<le> free_frames m2"
proof -
  let ?syms = "img_symbols img"
  have f: "unat (sym_strampoline ?syms) mod 4096 = 0" "disjoint_regions (host_regions ?syms hmeta)"
    "list_all below_stack (host_regions ?syms hmeta)" "disjoint_regions (guest_regions gmeta)"
    "list_all below_trampoline (guest_regions gmeta)" "base + boot_cost img hmeta gmeta \<le> 0x88000"
    using fits base by (simp_all add: boot_fits_def Let_def)
  have low: "list_all below_trap_context (host_regions ?syms hmeta)"
    using f(3) by (rule list.pred_mono_strong) (auto simp: below_stack_def below_trap_context_def)
  have room: "6 + (\<Sum>r\<leftarrow>host_regions ?syms hmeta. region_cost r) \<le> free_frames m"
    using fresh_free [OF fr(1)] f(6) fr(3) by (simp add: boot_cost_def)
  obtain hs m1 where h: "new_host_vmm Sv39 ?syms hmeta m = Inr (hs, m1)"
    "free_frames m \<le> free_frames m1 + 6 + (\<Sum>r\<leftarrow>host_regions ?syms hmeta. region_cost r)"
    using host_space_total [OF fr(2) ok(1) f(1,2) low room] by blast
  obtain fc where g: "grown base {} (insert fc (sv39_tables (page_table hs))) m m1" using host_space [OF fr(2) ok(1) h(1)] by blast
  have "HOST_VMM m1 = None" using more_machine [OF grownD(7) [OF g]] on(1) by simp
  then have w: "same_world m1 (init_vmm hs hmeta m1)" by (simp add: init_vmm_def on_hart_def same_world_def)
  obtain c1 where c1: "fresh c1 0x88000 (init_vmm hs hmeta m1)" using fresh_grown [OF fr(1) g] w by (auto simp: same_world_facts)
  have free1: "0x88000 - unat c1 = free_frames m1" using fresh_free [OF c1] free_frames_same [OF w] by simp
  have pos: "0 < free_frames m1" using h(2) fresh_free [OF fr(1)] f(6) fr(3) by (simp add: boot_cost_def)
  have room2: "unat c1 + 9 + (\<Sum>r\<leftarrow>guest_regions gmeta. region_cost r) \<le> unat (0x88000::usize)"
    using free1 pos h(2) fresh_free [OF fr(1)] f(6) fr(3) by (simp add: boot_cost_def)
  obtain gs m2 where g2: "new_guest_without_load Sv39 (sym_strampoline ?syms) gmeta (init_vmm hs hmeta m1) = Inr (gs, m2)"
    "unat (0x88000::usize) \<le> unat c1 + 9 + (\<Sum>r\<leftarrow>guest_regions gmeta. region_cost r) + free_frames m2"
    using guest_space_total [OF c1 ok(2) f(1,4,5) room2] by blast
  have "region_cost guest_window + 12 \<le> free_frames m2"
    using g2(2) free1 pos h(2) fresh_free [OF fr(1)] f(6) fr(3) by (simp add: boot_cost_def)
  then show ?thesis using h(1) g2(1) by blast
qed

text \<open>Where the hypervisor's own pages are.\<close>

lemma below_stack_pages: "below_stack r \<Longrightarrow> n \<in> region_pages r \<Longrightarrow> n < 0x7fffffa"
  by (cases r) (auto simp: below_stack_def region_pages_def)

lemma host_maps_pages:
  assumes "host_maps m = {trampoline_pair st, trap_context_pair f} \<union> \<Union> (region_pairs ` set R)"
    and "disjoint_regions (guest_window # R)" "list_all below_stack (guest_window # R)" "(v, x) \<in> host_maps m"
  shows "unat (vpn_0 v) \<notin> region_pages guest_window" "unat (vpn_0 v) \<notin> {0x7fffffa..<0x7fffffe}"
proof -
  have w: "n < 0x7fffffa" if "r \<in> set (guest_window # R)" "n \<in> region_pages r" for r n
    using assms(3) that by (metis below_stack_pages list_all_iff)
  have top: "unat (vpn_0 v) \<in> {0x7ffffff, 0x7fffffe} \<or> (\<exists>r \<in> set R. unat (vpn_0 v) \<in> region_pages r)"
  proof -
    have "(v, x) = trampoline_pair st \<or> (v, x) = trap_context_pair f \<or> (\<exists>r \<in> set R. (v, x) \<in> region_pairs r)"
      using assms(1,4) by blast
    then show ?thesis using region_pairs_pages by (fastforce simp: trampoline_pair_def trap_context_pair_def)
  qed
  moreover have "regions_apart guest_window r" if "r \<in> set R" for r using assms(2) that by (simp add: list_all_iff)
  ultimately show "unat (vpn_0 v) \<notin> region_pages guest_window"
    using w [of guest_window "unat (vpn_0 v)"] regions_apart_pages by fastforce
  show "unat (vpn_0 v) \<notin> {0x7fffffa..<0x7fffffe}" using top w by fastforce
qed

lemma window_pages:
  assumes "below_stack guest_window" "(v, x) \<in> region_pairs guest_window"
  shows "unat (vpn_0 v) \<notin> {0x7fffffa..<0x7fffffe}"
  using below_stack_pages [OF assms(1) region_pairs_pages [OF assms(2)]] by simp

lemma entry_progress:
  assumes b: "booting base st gmeta (page_table gs) m" and E: "hart_supports E p" and S: "symbols_ok S"
    and h: "host_ok syms hmeta" and room: "region_cost guest_window + 12 \<le> free_frames m"
    and maps: "host_maps m = {trampoline_pair st, trap_context_pair f} \<union> \<Union> (region_pairs ` set (host_regions syms hmeta))"
    and fit: "disjoint_regions (guest_window # host_regions syms hmeta)" "list_all below_stack (guest_window # host_regions syms hmeta)"
  shows "\<exists>v m1 hs m2 m3 m4 m5 g m6 m7 m8. vmm_lock m = Inr (v, m1) \<and>
    map_guest Sv39 (hpm v) GUEST_START_PA GUEST_DEFAULT_SIZE m1 = Inr (hs, m2) \<and>
    enable_paging (vmm_unlock (v\<lparr>hpm := hs\<rparr>) m2) = Inr m3 \<and> trap_init S m3 = Inr m4 \<and> remap_test syms m4 = Inr m5 \<and>
    Guest_new E (sym_trap_handler S) 0 gs gmeta m5 = Inr (g, m6) \<and> add_guest_queue g m6 = Inr m7 \<and> hart_entry_1 E m7 = Inr m8"
proof -
  note free = host_maps_pages [OF maps fit]
  have win: "below_stack guest_window" using fit(2) by simp
  have room0: "region_cost guest_window \<le> free_frames m" using room by simp
  obtain v m1 hs m2 where s: "vmm_lock m = Inr (v, m1)"
    "map_guest Sv39 (hpm v) GUEST_START_PA GUEST_DEFAULT_SIZE m1 = Inr (hs, m2)"
    "free_frames m \<le> free_frames (vmm_unlock (v\<lparr>hpm := hs\<rparr>) m2) + region_cost guest_window"
    "host_maps (vmm_unlock (v\<lparr>hpm := hs\<rparr>) m2) = host_maps m \<union> region_pairs guest_window"
    using map_guest_progress [OF b room0] free(1) by blast
  note b2 = booting_map_guest [OF b s(1,2)]
  obtain m3 where p3: "enable_paging (vmm_unlock (v\<lparr>hpm := hs\<rparr>) m2) = Inr m3" "same_world (vmm_unlock (v\<lparr>hpm := hs\<rparr>) m2) m3"
    "host_maps m3 = host_maps (vmm_unlock (v\<lparr>hpm := hs\<rparr>) m2)"
    using enable_paging_progress [OF b2] by blast
  note b3 = booting_enable_paging [OF b2 p3(1)]
  obtain m4 where p4: "trap_init S m3 = Inr m4" "same_world m3 m4" "host_maps m4 = host_maps m3"
    using trap_init_progress [OF S] by blast
  note b4 = booting_trap_init [OF b3 p4(1)]
  have hm: "host_maps m4 = host_maps m \<union> region_pairs guest_window" using p3(3) p4(3) s(4) by simp
  have sub: "\<Union> (region_pairs ` set (host_regions syms hmeta)) \<subseteq> host_maps m4" unfolding hm maps by blast
  obtain m5 where p5: "remap_test syms m4 = Inr m5" "same_world m4 m5" "host_maps m5 = host_maps m4"
    using remap_test_progress [OF b4 h sub, of st] hm maps by blast
  note b5 = booting_remap_test [OF b4 p5(1)]
  have room5: "12 \<le> free_frames m5"
    using free_frames_same [OF p3(2)] free_frames_same [OF p4(2)] free_frames_same [OF p5(2)] s(3) room by simp
  have free5: "unat (vpn_0 w) \<notin> {0x7fffffa..<0x7fffffe}" if "(w, x) \<in> host_maps m5" for w x
    using that free(2) [of w x] window_pages [OF win, of w x] unfolding p5(3) hm by blast
  obtain g m6 where p6: "Guest_new E (sym_trap_handler S) 0 gs gmeta m5 = Inr (g, m6)"
    using Guest_new_progress [OF b5 room5] free5 by blast
  note b6 = booting_Guest_new [OF b5 p6]
  have gid: "guest_id g = 0" using b6(2) by simp
  obtain m7 where p7: "add_guest_queue g m6 = Inr m7" "hart m7 = hart m6" "trap_ctx m7 = trap_ctx m6"
    using add_guest_queue_progress [OF b6(1) gid] by blast
  have c: "ctx_ok (trap_ctx m7)" "ctx_hgatp (trap_ctx m7) = token (page_table gs)"
    using p7(3) b6(3) by (simp_all add: initialize_context_ok) (simp add: initialize_context_def set_sp_def Let_def)
  have i: "sv39x4_inv base (page_table gs) m6" "hart_ok (hart m7)" using b6(1) p7(2) by (simp_all add: booting_def)
  obtain m8 where "hart_entry_1 E m7 = Inr m8"
    using hart_entry_progress [OF i(2) c(1)] guest_token_legal [OF i(1) E] c(2) by auto
  then show ?thesis using s(1,2) p3(1) p4(1) p5(1) p6 p7(1) by blast
qed

lemma hentry_progress:
  assumes ok: "boot_ok E api img dtb hmeta gmeta" and fits: "boot_fits img hmeta gmeta" and E: "hart_supports E p"
    and on: "power_on m0"
  shows "\<exists>m. hentry E api img p w 0 dtb m0 = Inr m"
proof -
  let ?syms = "img_symbols img" and ?S = "img_traps img"
  have b: "parse api dtb = Inr hmeta" "parse api (img_guest_dtb img) = Inr gmeta" "host_ok ?syms hmeta" "guest_ok gmeta"
    using ok by (simp_all add: boot_ok_def)
  have f: "img_sbss img \<le> sym_ebss ?syms" "0 < sym_ekernel ?syms" "img_on_detect_trap img AND 1 = 0" "symbols_ok ?S"
    "disjoint_regions (guest_window # host_regions ?syms hmeta)" "list_all below_stack (guest_window # host_regions ?syms hmeta)"
    using fits unfolding boot_fits_def Let_def by blast+
  obtain m1 where m1: "clear_bss (img_sbss img) (sym_ebss ?syms) m0 = Inr m1" "hart_ok (hart m1)"
    "FRAME_ALLOCATOR m1 = None" "HOST_VMM m1 = None"
    using f(1) on by (auto simp: clear_bss_def power_on_def checked_sub_def)
  obtain m2 where m2: "probe_machine E img p w m1 = Inr m2" using probe_machine_progress [OF E f(3) m1(2)] by blast
  note p2 = probe_machine_returned [OF m2 m1(2)]
  have o2: "FRAME_ALLOCATOR m2 = None" "HOST_VMM m2 = None" using p2 m1 by (simp_all add: same_world_def)
  have ek: "region_ok (sym_ekernel ?syms, MEMORY_END, perm_rw)"
    using b(3) by (simp add: host_ok_def section_regions_def del: MEMORY_END_def)
  have "unat (sym_ekernel ?syms) < 0x88000000" using ek by (simp add: region_ok_def word_less_nat_alt)
  then obtain m3 where m3: "heap_init (sym_ekernel ?syms) m2 = Inr m3" using heap_init_progress [OF o2(1) f(2)] by blast
  note h3 = heap_init_fresh [OF o2(1) ek m3]
  have o3: "HOST_VMM m3 = None" "hart_ok (hart m3)" using more_machine [OF h3(4)] o2(2) p2(1) by simp_all
  obtain hs m4 gs m5 where sp: "new_host_vmm Sv39 ?syms hmeta m3 = Inr (hs, m4)"
    "new_guest_without_load Sv39 (sym_strampoline ?syms) gmeta (init_vmm hs hmeta m4) = Inr (gs, m5)"
    "region_cost guest_window + 12 \<le> free_frames m5"
    using spaces_progress [OF h3(1,2,5) o3 b(3,4) fits refl] by blast
  note b5 = booting_starts [OF h3(2,1) o3 b(3,4) sp(1,2)]
  obtain fc where maps: "host_maps m5 = {trampoline_pair (sym_strampoline ?syms), trap_context_pair fc} \<union>
      \<Union> (region_pairs ` set (host_regions ?syms hmeta))"
    using b5(2) by blast
  from entry_progress [OF b5(1) E f(4) b(3) sp(3) maps f(5,6)] show ?thesis
    using m1(1) m2 m3 b(1,2) sp(1,2) by (auto simp: hentry_def Let_def simp del: GUEST_START_PA_def GUEST_DEFAULT_SIZE_def)
qed

section \<open>Properties\<close>

text \<open>
  The image of \<open>virt_symbols\<close> on the machine of \<open>virt_guest\<close>, whose device tree both
  pointers lead to, and a hart that has just been started, for the witnesses.
\<close>

definition virt_tree :: "(unit, usize \<times> usize) fdt_crate" where
  "virt_tree = \<lparr>from_ptr = (\<lambda>_. Some ()),
     memory_regions = (\<lambda>_. [\<lparr>starting_address = 0x90200000, region_size = Some 0x7e00000\<rparr>]),
     find_all_nodes = (\<lambda>_ path. if path = ''/soc/virtio_mmio'' then [(0x10002000, 0x1000), (0x10001000, 0x1000)]
       else if path = ''/soc/test'' then [(0x100000, 0x1000)]
       else if path = ''/soc/uart'' then [(0x10000000, 0x100)]
       else if path = ''/soc/clint'' then [(0x2000000, 0x10000)]
       else if path = ''/soc/plic'' then [(0xc000000, 0x600000)]
       else [(0x30000000, 0x10000000)]),
     node_reg = (\<lambda>(a, n). Some [\<lparr>starting_address = a, region_size = Some n\<rparr>])\<rparr>"

definition virt_image :: image where
  "virt_image = \<lparr>img_symbols = virt_symbols, img_sbss = 0x80240000, img_traps = demo_symbols,
     img_on_detect_trap = 0x80206000, img_guest_dtb = 0x80221000\<rparr>"

definition virt_env :: env where
  "virt_env = demo_env\<lparr>sbi_rt := \<lambda>_ _. 1\<rparr>"

definition virt_probed :: probed where
  "virt_probed = \<lparr>has_h = True, illegal_stval = 0, probe_rd = 10\<rparr>"

definition virt_machine :: machine where
  "virt_machine = \<lparr>mem = (\<lambda>_. 0), FRAME_ALLOCATOR = None,
     hart = \<lparr>gprs = replicate 32 0, csrs = (\<lambda>_. 0), pc = 0x80200000, virt = False, supervisor = True\<rparr>, events = [],
     trap_ctx = \<lparr>ctx_x = replicate 32 0, ctx_sstatus = 0, ctx_sepc = 0, ctx_hgatp = 0, ctx_kernel_sp = 0,
       ctx_trap_handler = 0, ctx_hstatus = 0\<rparr>, HOST_VMM = None\<rparr>"

lemma virt_parsed: "parse virt_tree dtb = Inr virt_guest"
  by (simp add: virt_tree_def parse_def probe_def node_device_def virtio_found_def virtio_push_def VIRTIO_CAPACITY_def
      MachineMeta_default_def virt_guest_def)

lemma virt_boot_ok: "boot_ok virt_env virt_tree virt_image 0x82200000 virt_guest virt_guest"
  using virt_host_ok virt_guest_ok virt_parsed
  by (simp add: boot_ok_def virt_image_def virt_env_def demo_env_def setters_ok_def frames_apart_def first_frame_def
      virt_symbols_def virt_guest_eval first_page_def page_count_def)

lemma virt_boot_fits: "boot_fits virt_image virt_guest virt_guest"
proof -
  have "region_cost guest_window \<le> 100" by (simp add: guest_window_def region_cost_def table_cost_def first_page_def page_count_def)
  then have "boot_cost virt_image virt_guest virt_guest \<le> 300"
    by (simp add: boot_cost_def virt_image_def virt_host_cost virt_guest_cost)
  moreover have "disjoint_regions (guest_window # host_regions virt_symbols virt_guest)"
    "list_all below_stack (guest_window # host_regions virt_symbols virt_guest)"
    using virt_host_disjoint(1)
    by (simp_all add: guest_window_def virt_host_eval regions_apart_def below_stack_def first_page_def page_count_def)
  ultimately show ?thesis
    using virt_guest_disjoint demo_symbols_ok
    by (simp add: boot_fits_def virt_image_def first_frame_def Let_def) (simp add: virt_symbols_def)
qed

lemma virt_supports: "hart_supports virt_env virt_probed" "power_on virt_machine"
  by (simp_all add: hart_supports_def virt_env_def demo_env_def virt_probed_def power_on_def virt_machine_def hart_ok_def)





text \<open>
  C2. The hypervisor boots: on an image and device trees that fit together and a hart
  with the hypervisor extension, \<open>hentry\<close> does not panic. It ends in the guest:
  in VS-mode at the entry point, with the address of the device tree in \<open>a1\<close>, the
  trap vector on the trampoline, the guest's own table installed in \<open>hgatp\<close>, and the
  exceptions and interrupts delegated that \<open>init_vmm\<close> chooses.
\<close>

theorem boot_reaches_guest:
  assumes "boot_ok E api img dtb hmeta gmeta" "boot_fits img hmeta gmeta" "hart_supports E p" "power_on m0"
  shows "\<exists>m pt. hentry E api img p w 0 dtb m0 = Inr m \<and> virt (hart m) \<and> supervisor (hart m) \<and>
    pc (hart m) = GUEST_START_VA \<and> get_gpr 11 (hart m) = GUEST_DTB_ADDR \<and> csrs (hart m) Stvec = TRAMPOLINE \<and>
    csrs (hart m) Hgatp = token pt \<and> csrs (hart m) Hedeleg = hedeleg_value \<and> csrs (hart m) Hideleg = hideleg_value \<and>
    Map.graph (sv39_view pt m) =
      insert (trampoline_pair (sym_strampoline (img_symbols img))) (\<Union> (region_pairs ` set (guest_regions gmeta)))"
proof -
  obtain m where m: "hentry E api img p w 0 dtb m0 = Inr m" using hentry_progress [OF assms] by blast
  obtain pt where r: "guest_running (img_traps img) m"
    "confined_by (first_frame (img_symbols img)) (sym_strampoline (img_symbols img)) gmeta pt m"
    "pc (hart m) = GUEST_START_VA \<and> supervisor (hart m) \<and> get_gpr 11 (hart m) = GUEST_DTB_ADDR \<and>
     csrs (hart m) Hedeleg = hedeleg_value \<and> csrs (hart m) Hideleg = hideleg_value"
    using hentry_returned [OF assms(1,4) m] by blast
  have "virt (hart m)" "csrs (hart m) Stvec = TRAMPOLINE" using r(1) unfolding guest_running_def by blast+
  with m r(2,3) show ?thesis unfolding confined_by_def by blast
qed

theorem boot_reaches_guest_witness:
  "\<exists>m. hentry virt_env virt_tree virt_image virt_probed [] 0 0x82200000 virt_machine = Inr m \<and> virt (hart m) \<and>
     pc (hart m) = 0x90200000"
  using boot_reaches_guest [OF virt_boot_ok virt_boot_fits virt_supports, where w = "[]"] by auto

text \<open>
  C6. The timer is never lost: after the boot, whenever the guest runs between two of its
  steps, either its timer interrupt is pending or the machine's timer interrupt is
  enabled, and never both.
\<close>

theorem timer_never_lost:
  assumes "boot_ok E api img dtb hmeta gmeta" "power_on m0" "hentry E api img p w 0 dtb m0 = Inr m1"
    and "(guest_step E (img_traps img))\<^sup>*\<^sup>* m1 m"
  shows "bit (csrs (hart m) Hvip) 6 \<longleftrightarrow> \<not> bit (csrs (hart m) Sie) 5"
proof -
  have g: "guest_ok gmeta" using assms(1) by (simp add: boot_ok_def)
  obtain pt where r: "guest_running (img_traps img) m1"
    "confined_by (first_frame (img_symbols img)) (sym_strampoline (img_symbols img)) gmeta pt m1"
    using hentry_returned [OF assms(1-3)] by blast
  from guest_confined [OF assms(4) r g] show ?thesis by (simp add: guest_running_def timer_ok_def)
qed

theorem timer_never_lost_witness:
  "\<exists>m1. hentry virt_env virt_tree virt_image virt_probed [] 0 0x82200000 virt_machine = Inr m1 \<and>
     (bit (csrs (hart m1) Hvip) 6 \<longleftrightarrow> \<not> bit (csrs (hart m1) Sie) 5)"
proof -
  obtain m1 where m1: "hentry virt_env virt_tree virt_image virt_probed [] 0 0x82200000 virt_machine = Inr m1"
    using hentry_progress [OF virt_boot_ok virt_boot_fits virt_supports] by blast
  then show ?thesis using timer_never_lost [OF virt_boot_ok virt_supports(2) m1 rtranclp.rtrancl_refl] by blast
qed

text \<open>
  C23. The short cut is right: for a virtual address that the guest's own tables translate
  into one of its regions, \<open>fast_two_stage_translation\<close>, which leaves out the second
  stage, answers what \<open>two_stage_translation\<close> answers.
\<close>

theorem fast_translation_agrees:
  assumes "confined_by base st meta (page_table gs) m" "guest_ok meta"
    and "fast_two_stage_translation Sv39 gid va vsatp m = Inr (Some pa)" "guest_addr meta pa"
  shows "two_stage_translation Sv39 gid va vsatp gs m = Inr (Some pa)"
  using assms(3) guest_addr_identity [OF assms(1,2,4)]
  by (simp add: fast_two_stage_translation_def two_stage_translation_def ms_translate_va_def)

theorem fast_translation_agrees_witness:
  "\<exists>m pt. hentry virt_env virt_tree virt_image virt_probed [] 0 0x82200000 virt_machine = Inr m \<and> csrs (hart m) Hgatp = token pt \<and>
     two_stage_translation Sv39 0 0x90200004 0 \<lparr>page_table = pt, areas = []\<rparr> m = Inr (Some 0x90200004)"
proof -
  obtain m where m: "hentry virt_env virt_tree virt_image virt_probed [] 0 0x82200000 virt_machine = Inr m"
    using hentry_progress [OF virt_boot_ok virt_boot_fits virt_supports] by blast
  obtain pt where c: "confined_by (first_frame (img_symbols virt_image)) (sym_strampoline (img_symbols virt_image)) virt_guest pt m"
    using hentry_returned [OF virt_boot_ok virt_supports(2) m] by blast
  have g: "guest_addr virt_guest 0x90200004"
    by (simp add: guest_addr_def guest_page_def virt_guest_eval region_pages_def first_page_def page_count_def)
  have f: "fast_two_stage_translation Sv39 0 0x90200004 0 m = Inr (Some 0x90200004)"
    by (simp add: fast_two_stage_translation_def guest_stage_def)
  have c': "confined_by (first_frame (img_symbols virt_image)) (sym_strampoline (img_symbols virt_image)) virt_guest
      (page_table \<lparr>page_table = pt, areas = []\<rparr>) m" using c by simp
  have "csrs (hart m) Hgatp = token pt" using c by (simp add: confined_by_def)
  then show ?thesis using m fast_translation_agrees [OF c' virt_guest_ok f g] by blast
qed

end
