(* ===== verification/Link.thy ===== *)
theory Link
  imports Boot_Live
begin

text \<open>
  \<^verbatim>\<open>src/linker-qemu.ld\<close>: the addresses of the image as a function of the sizes of its
  sections, padding included. The boot sequence relies on them through \<open>symbols\<close>; here
  it is shown that the script gives what the theorems about it assume.
\<close>

section \<open>The script\<close>

record sections =
  text_entry :: nat
  text_trampoline :: nat
  text_rest :: nat
  rodata :: nat
  data :: nat
  bss_stack :: nat
  bss :: nat

definition BASE_ADDRESS :: nat where [simp]: "BASE_ADDRESS = 0x80200000"

definition ALIGN_4K :: "nat \<Rightarrow> nat" where
  "ALIGN_4K n = (n + 4095) div 4096 * 4096"

text \<open>The location counter at the symbols, from the first to the last.\<close>

definition at_strampoline :: "sections \<Rightarrow> nat" where
  "at_strampoline s = ALIGN_4K (BASE_ADDRESS + text_entry s)"

definition at_etext :: "sections \<Rightarrow> nat" where
  "at_etext s = ALIGN_4K (ALIGN_4K (at_strampoline s + text_trampoline s) + text_rest s)"

definition at_erodata :: "sections \<Rightarrow> nat" where
  "at_erodata s = ALIGN_4K (at_etext s + rodata s)"

definition at_edata :: "sections \<Rightarrow> nat" where
  "at_edata s = ALIGN_4K (at_erodata s + data s)"

definition at_sbss :: "sections \<Rightarrow> nat" where
  "at_sbss s = at_edata s + bss_stack s"

definition at_ebss :: "sections \<Rightarrow> nat" where
  "at_ebss s = ALIGN_4K (at_sbss s + bss s)"

definition link_symbols :: "sections \<Rightarrow> symbols" where
  "link_symbols s =
     \<lparr>sym_stext = word_of_nat BASE_ADDRESS, sym_etext = word_of_nat (at_etext s),
      sym_srodata = word_of_nat (at_etext s), sym_erodata = word_of_nat (at_erodata s),
      sym_sdata = word_of_nat (at_erodata s), sym_edata = word_of_nat (at_edata s),
      sym_sbss_with_stack = word_of_nat (at_edata s), sym_ebss = word_of_nat (at_ebss s),
      sym_ekernel = word_of_nat (at_ebss s), sym_strampoline = word_of_nat (at_strampoline s)\<rparr>"

definition DTB_SECTION :: usize where "DTB_SECTION = 0x90000000"
definition INITRD_SECTION :: usize where "INITRD_SECTION = 0x90200000"

text \<open>The guest's device tree and its kernel are linked to where the guest is told to look.\<close>

lemma linked_guest: "DTB_SECTION = GUEST_DTB_ADDR" "INITRD_SECTION = GUEST_START_PA"
  by (simp_all add: DTB_SECTION_def INITRD_SECTION_def)

section \<open>The layout\<close>

text \<open>No section is empty, and the image ends below the end of memory.\<close>

definition image_fits :: "sections \<Rightarrow> bool" where
  "image_fits s \<longleftrightarrow> 0 < text_rest s \<and> 0 < rodata s \<and> 0 < data s \<and> 0 < bss s \<and> at_ebss s < 0x88000000"

lemma ALIGN_4K_bounds: "n \<le> ALIGN_4K n" "ALIGN_4K n mod 4096 = 0"
proof -
  have "(n + 4095) div 4096 * 4096 + (n + 4095) mod 4096 = n + 4095" by (rule div_mult_mod_eq)
  moreover have "(n + 4095) mod 4096 < 4096" by simp
  ultimately show "n \<le> ALIGN_4K n" unfolding ALIGN_4K_def by linarith
qed (simp add: ALIGN_4K_def)

lemmas at_defs = at_strampoline_def at_etext_def at_erodata_def at_edata_def at_sbss_def at_ebss_def

lemma layout_order:
  assumes "image_fits s"
  shows "0x80200000 \<le> at_strampoline s" "at_strampoline s < at_etext s" "at_etext s < at_erodata s" "at_erodata s < at_edata s"
    "at_edata s \<le> at_sbss s" "at_sbss s < at_ebss s" "at_ebss s < 0x88000000"
  using assms ALIGN_4K_bounds(1) [of "BASE_ADDRESS + text_entry s"]
    ALIGN_4K_bounds(1) [of "at_strampoline s + text_trampoline s"]
    ALIGN_4K_bounds(1) [of "ALIGN_4K (at_strampoline s + text_trampoline s) + text_rest s"]
    ALIGN_4K_bounds(1) [of "at_etext s + rodata s"] ALIGN_4K_bounds(1) [of "at_erodata s + data s"]
    ALIGN_4K_bounds(1) [of "at_sbss s + bss s"]
  unfolding image_fits_def by (simp_all add: at_etext_def at_strampoline_def at_erodata_def at_edata_def at_sbss_def at_ebss_def)

lemma layout_aligned:
  "at_strampoline s mod 4096 = 0" "at_etext s mod 4096 = 0" "at_erodata s mod 4096 = 0" "at_edata s mod 4096 = 0" "at_ebss s mod 4096 = 0"
  unfolding at_strampoline_def at_etext_def at_erodata_def at_edata_def at_ebss_def by (rule ALIGN_4K_bounds(2))+

lemma unat_address: "n < 2 ^ 64 \<Longrightarrow> unat (word_of_nat n :: usize) = n"
  by (simp add: unat_of_nat take_bit_nat_eq_self)

lemma link_symbols_unat:
  assumes "image_fits s"
  shows "unat (sym_stext (link_symbols s)) = 0x80200000" "unat (sym_etext (link_symbols s)) = at_etext s"
    "unat (sym_srodata (link_symbols s)) = at_etext s" "unat (sym_erodata (link_symbols s)) = at_erodata s"
    "unat (sym_sdata (link_symbols s)) = at_erodata s" "unat (sym_edata (link_symbols s)) = at_edata s"
    "unat (sym_sbss_with_stack (link_symbols s)) = at_edata s" "unat (sym_ebss (link_symbols s)) = at_ebss s"
    "unat (sym_ekernel (link_symbols s)) = at_ebss s" "unat (sym_strampoline (link_symbols s)) = at_strampoline s"
  using layout_order [OF assms] by (simp_all add: link_symbols_def unat_address)

text \<open>The same in pages.\<close>

lemma layout_pages:
  assumes "image_fits s"
  obtains a b c d e where "at_strampoline s = 4096 * a" "at_ebss s = 4096 * e"
    "0x80200 \<le> a" "a < b" "b < c" "c < d" "d < e" "e < 0x88000"
    "first_page (sym_stext (link_symbols s)) = 0x80200" "first_page (sym_srodata (link_symbols s)) = b"
    "first_page (sym_sdata (link_symbols s)) = c" "first_page (sym_sbss_with_stack (link_symbols s)) = d"
    "first_page (sym_ekernel (link_symbols s)) = e"
    "page_count (sym_stext (link_symbols s)) (sym_etext (link_symbols s)) = b - 0x80200"
    "page_count (sym_srodata (link_symbols s)) (sym_erodata (link_symbols s)) = c - b"
    "page_count (sym_sdata (link_symbols s)) (sym_edata (link_symbols s)) = d - c"
    "page_count (sym_sbss_with_stack (link_symbols s)) (sym_ebss (link_symbols s)) = e - d"
    "page_count (sym_ekernel (link_symbols s)) MEMORY_END = 0x88000 - e"
proof -
  note o = layout_order [OF assms] and u = link_symbols_unat [OF assms] and al = layout_aligned [of s]
  obtain a b c d e where k: "at_strampoline s = 4096 * a" "at_etext s = 4096 * b" "at_erodata s = 4096 * c"
    "at_edata s = 4096 * d" "at_ebss s = 4096 * e"
    using al by (meson mod_0_imp_dvd dvdE)
  have l: "0x80200 \<le> a" "a < b" "b < c" "c < d" "d < e" "e < 0x88000" using o unfolding k by linarith+
  show thesis
    by (rule that [OF k(1,5) l]; unfold first_page_def page_count_def u k) simp_all
qed

lemma linked_host_ok:
  assumes "image_fits s"
    and "list_all (\<lambda>d. dev_fits (dev_size d) d) (opt_list (test_finisher_address m) @ virtio m @ opt_list (plic m))"
  shows "host_ok (link_symbols s) m"
  using layout_order [OF assms(1)] assms(2)
  by (simp add: host_ok_def section_regions_def region_ok_def word_less_nat_alt link_symbols_unat [OF assms(1)])

text \<open>
  C27. The linker script lays the image out the way the boot sequence relies on: for every
  choice of section sizes with no section empty and the image below \<open>MEMORY_END\<close>, the
  sections are regions that can be mapped, no two of them share a page, together with
  the frames they fill the pages from the base address to the end of memory, the
  trampoline starts a page inside the text, and the area that \<open>clear_bss\<close> clears lies
  behind the boot stack.
\<close>

theorem linked_layout:
  assumes "image_fits s"
  shows "list_all region_ok (section_regions (link_symbols s)) \<and> disjoint_regions (section_regions (link_symbols s)) \<and>
    (\<Union> (region_pages ` set (section_regions (link_symbols s)))) = {0x80200..<0x88000} \<and>
    unat (sym_strampoline (link_symbols s)) mod 4096 = 0 \<and>
    unat (sym_strampoline (link_symbols s)) div 4096 \<in> region_pages (sym_stext (link_symbols s), sym_etext (link_symbols s), perm_rx) \<and>
    at_sbss s \<le> unat (sym_ebss (link_symbols s)) \<and> unat (sym_sbss_with_stack (link_symbols s)) + bss_stack s = at_sbss s \<and>
    4096 * first_frame (link_symbols s) = at_ebss s"
proof -
  note o = layout_order [OF assms] and u = link_symbols_unat [OF assms] and al = layout_aligned [of s]
  obtain a b c d e where k: "at_strampoline s = 4096 * a" "at_ebss s = 4096 * e"
    and l: "0x80200 \<le> a" "a < b" "b < c" "c < d" "d < e" "e < 0x88000"
    and p: "first_page (sym_stext (link_symbols s)) = 0x80200" "first_page (sym_srodata (link_symbols s)) = b"
      "first_page (sym_sdata (link_symbols s)) = c" "first_page (sym_sbss_with_stack (link_symbols s)) = d"
      "first_page (sym_ekernel (link_symbols s)) = e"
    and n: "page_count (sym_stext (link_symbols s)) (sym_etext (link_symbols s)) = b - 0x80200"
      "page_count (sym_srodata (link_symbols s)) (sym_erodata (link_symbols s)) = c - b"
      "page_count (sym_sdata (link_symbols s)) (sym_edata (link_symbols s)) = d - c"
      "page_count (sym_sbss_with_stack (link_symbols s)) (sym_ebss (link_symbols s)) = e - d"
      "page_count (sym_ekernel (link_symbols s)) MEMORY_END = 0x88000 - e"
    by (rule layout_pages [OF assms])
  let ?t = "(sym_stext (link_symbols s), sym_etext (link_symbols s), perm_rx)"
    and ?r = "(sym_srodata (link_symbols s), sym_erodata (link_symbols s), MapPermission_R)"
    and ?d = "(sym_sdata (link_symbols s), sym_edata (link_symbols s), perm_rw)"
    and ?b = "(sym_sbss_with_stack (link_symbols s), sym_ebss (link_symbols s), perm_rw)"
    and ?f = "(sym_ekernel (link_symbols s), MEMORY_END, perm_rw)"
  have g: "region_pages ?t = {0x80200..<b}" "region_pages ?r = {b..<c}" "region_pages ?d = {c..<d}" "region_pages ?b = {d..<e}"
    "region_pages ?f = {e..<0x88000}"
    unfolding region_pages_def prod.case p n using l by simp_all
  have "list_all region_ok (section_regions (link_symbols s))"
    using o unfolding section_regions_def by (simp add: region_ok_def word_less_nat_alt u)
  moreover have "disjoint_regions (section_regions (link_symbols s))"
    using l unfolding section_regions_def by (simp add: regions_apart_def p n del: MEMORY_END_def)
  moreover have "\<Union> (region_pages ` set (section_regions (link_symbols s))) = {0x80200..<0x88000}"
    unfolding section_regions_def list.set image_insert image_empty Union_insert g using l by auto
  moreover have "unat (sym_strampoline (link_symbols s)) div 4096 \<in> region_pages ?t"
    unfolding g u k using l by simp
  moreover have "4096 * first_frame (link_symbols s) = at_ebss s"
    unfolding first_frame_def u k by simp
  ultimately show ?thesis using o(6) al(1) unfolding u by (simp add: at_sbss_def)
qed

definition small_image :: sections where
  "small_image = \<lparr>text_entry = 32, text_trampoline = 900, text_rest = 0x1e000, rodata = 0x8000, data = 0x10,
     bss_stack = 0x10000, bss = 0x300100\<rparr>"

lemma small_image_fits: "image_fits small_image"
  by (simp add: image_fits_def at_defs ALIGN_4K_def small_image_def)

theorem linked_layout_witness:
  "sym_strampoline (link_symbols small_image) = 0x80201000 \<and> sym_ekernel (link_symbols small_image) = 0x8053a000 \<and>
   disjoint_regions (section_regions (link_symbols small_image)) \<and> first_frame (link_symbols small_image) = 0x8053a"
proof -
  have v: "at_strampoline small_image = 0x80201000" "at_ebss small_image = 0x8053a000"
    by (simp_all add: at_defs ALIGN_4K_def small_image_def)
  have "disjoint_regions (section_regions (link_symbols small_image))" "4096 * first_frame (link_symbols small_image) = at_ebss small_image"
    using linked_layout [OF small_image_fits] by blast+
  then show ?thesis unfolding v by (simp add: link_symbols_def v)
qed

end
