(* ===== verification/Sbi_Correct.thy ===== *)
theory Sbi_Correct
  imports Vmexit_Correct
begin

text \<open>
  The firmware interface a guest sees, as a specification, and that an exit for an
  environment call implements it on every branch.
\<close>

section \<open>The interface\<close>

text \<open>
  The answer to a call with extension \<open>eid\<close>, function \<open>fid\<close> and first argument
  \<open>a0\<close> after the events \<open>evs\<close>: the two result registers, the event it causes
  outside if any, and whether it arms the timer. No answer means that the
  hypervisor stops.
\<close>

record sbi_answer =
  ans_a0 :: usize
  ans_a1 :: usize
  ans_event :: "event option"
  ans_arms :: bool

definition firmware_answer :: "env \<Rightarrow> event list \<Rightarrow> usize \<Rightarrow> usize \<Rightarrow> sbi_answer" where
  "firmware_answer E evs fid a =
     (let r = sbi_ecall E evs 0x10 fid [a] in
      \<lparr>ans_a0 = fst r, ans_a1 = snd r, ans_event = Some (Ecall 0x10 fid [a]), ans_arms = False\<rparr>)"

definition rt_answer :: "env \<Rightarrow> event list \<Rightarrow> rt_call \<Rightarrow> sbi_answer" where
  "rt_answer E evs c = \<lparr>ans_a0 = 0, ans_a1 = sbi_rt E evs c, ans_event = Some (RtCall c), ans_arms = False\<rparr>"

definition timer_answer :: "usize \<Rightarrow> sbi_answer" where
  "timer_answer t = \<lparr>ans_a0 = 0, ans_a1 = 0, ans_event = Some (RtCall (Rt_set_timer t)), ans_arms = True\<rparr>"

definition base_answer :: "env \<Rightarrow> event list \<Rightarrow> usize \<Rightarrow> usize \<Rightarrow> sbi_answer option" where
  "base_answer E evs fid a0 =
     map_of [(0, firmware_answer E evs 0 0), (1, rt_answer E evs Rt_get_sbi_impl_id),
             (2, rt_answer E evs Rt_get_sbi_impl_version), (3, firmware_answer E evs 3 a0),
             (4, rt_answer E evs Rt_get_mvendorid), (5, rt_answer E evs Rt_get_marchid),
             (6, rt_answer E evs Rt_get_mimpid)] fid"

definition sbi_spec :: "env \<Rightarrow> event list \<Rightarrow> usize \<Rightarrow> usize \<Rightarrow> usize \<Rightarrow> sbi_answer option" where
  "sbi_spec E evs eid fid a0 =
     (if eid = 0x10 then base_answer E evs fid a0
      else if eid = 0x54494D45 then
        Some (if fid = 0 then timer_answer a0 else \<lparr>ans_a0 = - 2, ans_a1 = 0, ans_event = None, ans_arms = False\<rparr>)
      else if eid = 1 then Some \<lparr>ans_a0 = 0, ans_a1 = 0, ans_event = Some (Ecall 1 0 [a0, 0, 0]), ans_arms = False\<rparr>
      else if eid = 2 then
        Some \<lparr>ans_a0 = 0, ans_a1 = fst (sbi_ecall E evs 2 0 [0, 0, 0]), ans_event = Some (Ecall 2 0 [0, 0, 0]), ans_arms = False\<rparr>
      else if eid = 0 then Some (timer_answer a0)
      else None)"

text \<open>The state after an answer.\<close>

definition answered :: "sbi_answer \<Rightarrow> machine \<Rightarrow> machine" where
  "answered a m =
     (let m1 = (case ans_event a of None \<Rightarrow> m | Some e \<Rightarrow> log_event e m)
      in if ans_arms a then on_hart (\<lambda>h. set_csr Sie STIP (clear_csr Hvip VSTIP h)) m1 else m1)"

section \<open>The handlers\<close>

lemma ctx_get_ok: "length (ctx_x (trap_ctx m)) = 32 \<Longrightarrow> r < 32 \<Longrightarrow> ctx_get r m = Inr (ctx_x (trap_ctx m) ! r)"
  by (simp add: ctx_get_def get_index_def)

lemma ctx_set_ok:
  "length (ctx_x (trap_ctx m)) = 32 \<Longrightarrow> r < 32 \<Longrightarrow>
   ctx_set r v m = Inr (m\<lparr>trap_ctx := (trap_ctx m)\<lparr>ctx_x := (ctx_x (trap_ctx m))[r := v]\<rparr>\<rparr>)"
  by (simp add: ctx_set_def set_index_def)

lemmas sbi_handlers = sbi_call_1_def sbi_rt_value_def do_ecall_def do_rt_def sbi_time_handler_def
  sbi_console_putchar_handler_def sbi_console_getchar_handler_def console_putchar_def console_getchar_def
  sbi_call_def sbi_legacy_set_time_def arm_timer_def set_timer_def

lemmas sbi_answers = base_answer_def firmware_answer_def rt_answer_def timer_answer_def answered_def

lemma sbi_base_spec:
  assumes "length (ctx_x (trap_ctx m)) = 32"
  shows "sbi_base_handler E fid m =
    (case base_answer E (events m) fid (ctx_x (trap_ctx m) ! 10) of None \<Rightarrow> Inl ExplicitPanic
     | Some a \<Rightarrow> Inr (\<lparr>sbi_error = ans_a0 a, sbi_value = ans_a1 a\<rparr>, answered a m))"
  using assms by (auto simp: sbi_base_handler_def sbi_handlers sbi_answers ctx_get_ok Let_def split: prod.split)

lemma sbi_dispatch_spec:
  assumes "length (ctx_x (trap_ctx m)) = 32"
  shows "sbi_dispatch E eid fid m =
    (case sbi_spec E (events m) eid fid (ctx_x (trap_ctx m) ! 10) of None \<Rightarrow> Inl ExplicitPanic
     | Some a \<Rightarrow> Inr (\<lparr>sbi_error = ans_a0 a, sbi_value = ans_a1 a\<rparr>, answered a m))"
  using assms sbi_base_spec [OF assms, of E fid]
  by (simp add: sbi_dispatch_def sbi_spec_def sbi_handlers timer_answer_def answered_def ctx_get_ok Let_def split: prod.split)

lemma answered_ctx [simp]: "trap_ctx (answered a m) = trap_ctx m"
  by (simp add: answered_def Let_def on_hart_def log_event_def split: option.split)

text \<open>The results of a call in the guest's registers.\<close>

definition with_answer :: "sbi_answer \<Rightarrow> machine \<Rightarrow> machine" where
  "with_answer a m = (answered a m)\<lparr>trap_ctx := (trap_ctx m)\<lparr>ctx_x := (ctx_x (trap_ctx m))[10 := ans_a0 a, 11 := ans_a1 a]\<rparr>\<rparr>"

lemma sbi_vs_handler_spec:
  assumes "length (ctx_x (trap_ctx m)) = 32"
  shows "sbi_vs_handler E m =
    (case sbi_spec E (events m) (ctx_x (trap_ctx m) ! 17) (ctx_x (trap_ctx m) ! 16) (ctx_x (trap_ctx m) ! 10) of
       None \<Rightarrow> Inl ExplicitPanic | Some a \<Rightarrow> Inr (Inr (), with_answer a m))"
  using assms
  by (simp add: sbi_vs_handler_def ctx_get_ok sbi_dispatch_spec ctx_set_ok with_answer_def split: option.split)

lemma handle_ecall:
  assumes "scause_cause E (csrs (hart m) Scause) = Exception VirtualSupervisorEnvCall"
    "length (ctx_x (trap_ctx m)) = 32" "unat (ctx_sepc (trap_ctx m)) + 4 < 2 ^ 64"
  shows "handle_trap E v m =
    (case sbi_spec E (events m) (ctx_x (trap_ctx m) ! 17) (ctx_x (trap_ctx m) ! 16) (ctx_x (trap_ctx m) ! 10) of
       None \<Rightarrow> Inl ExplicitPanic
     | Some a \<Rightarrow> Inr (None, v, (answered a m)\<lparr>trap_ctx := (trap_ctx m)\<lparr>ctx_x := (ctx_x (trap_ctx m))[10 := ans_a0 a, 11 := ans_a1 a],
         ctx_sepc := ctx_sepc (trap_ctx m) + 4\<rparr>\<rparr>))"
  using assms by (simp add: handle_trap_def sbi_vs_handler_spec with_answer_def add_sepc_def checked_add_def split: option.split)

section \<open>Properties\<close>

text \<open>
  C7. An environment call of the guest is answered as the interface says, on every
  branch: when the interface has an answer for the extension and function in \<open>a7\<close>
  and \<open>a6\<close>, the exit returns behind the \<open>ecall\<close> with the answer in \<open>a0\<close> and \<open>a1\<close>, every
  other register and the mode unchanged, the one event of the answer outside, and
  the timer armed (no timer interrupt pending, the machine's enabled) exactly when
  the call sets it; when the interface has no answer the hypervisor panics. The
  address behind the \<open>ecall\<close> must not wrap around.
\<close>

theorem ecall_implements_interface:
  assumes r: "guest_running S m" and S: "symbols_ok S" and c: "scause_cause E cause = Exception VirtualSupervisorEnvCall"
    and pc4: "unat (pc (hart m)) + 4 < 2 ^ 64"
  shows "case sbi_spec E (events m) (get_gpr 17 (hart m)) (get_gpr 16 (hart m)) (get_gpr 10 (hart m)) of
      None \<Rightarrow> vm_exit E S (on_hart (hw_trap cause tval gpa inst) m) = Inl ExplicitPanic
    | Some a \<Rightarrow> \<exists>m'. vm_exit E S (on_hart (hw_trap cause tval gpa inst) m) = Inr m' \<and> guest_running S m' \<and>
        get_gpr 10 (hart m') = ans_a0 a \<and> get_gpr 11 (hart m') = ans_a1 a \<and> same_regs {10, 11} m m' \<and>
        pc (hart m') = pc (hart m) + 4 \<and> supervisor (hart m') = supervisor (hart m) \<and> the_vmm m' = the_vmm m \<and>
        events m' = (case ans_event a of None \<Rightarrow> [] | Some e \<Rightarrow> [e]) @ events m \<and>
        (if ans_arms a then \<not> bit (csrs (hart m') Hvip) 6 \<and> bit (csrs (hart m') Sie) 5
         else csrs (hart m') Hvip = csrs (hart m) Hvip \<and> csrs (hart m') Sie = csrs (hart m) Sie)"
proof -
  let ?h = "hw_trap cause tval gpa inst (hart m)"
  let ?s = "sbi_spec E (events m) (get_gpr 17 (hart m)) (get_gpr 16 (hart m)) (get_gpr 10 (hart m))"
  let ?fin = "\<lambda>a m1. (answered a m1)\<lparr>trap_ctx := (trap_ctx m1)\<lparr>ctx_x := (ctx_x (trap_ctx m1))[10 := ans_a0 a, 11 := ans_a1 a],
    ctx_sepc := ctx_sepc (trap_ctx m1) + 4\<rparr>\<rparr>"
  have ht: "handle_trap E v m1 = (case ?s of None \<Rightarrow> Inl ExplicitPanic | Some a \<Rightarrow> Inr (None, v, ?fin a m1))"
    if a: "at_handler ?h m m1" for v m1
    using handle_ecall [of E m1 v] at_handlerD [OF a refl r] c pc4 by simp
  show ?thesis
  proof (cases ?s)
    case None
    then show ?thesis using vm_exit_aborts [OF r S refl, of cause tval gpa inst E ExplicitPanic] ht by simp
  next
    case (Some a)
    let ?Q = "\<lambda>v' m3. v' = the_vmm m \<and> (\<exists>m1. at_handler ?h m m1 \<and> m3 = ?fin a m1)"
    obtain m' m1 where x: "vm_exit E S (on_hart (hw_trap cause tval gpa inst) m) = Inr m'" "guest_running S m'"
      "at_handler ?h m m1" "resumed_with (the_vmm m) (?fin a m1) m'"
      using vm_exit_handled [OF r S refl, of cause tval gpa inst E ?Q] ht Some by fastforce
    note d = at_handlerD [OF x(3) refl r]
    have "same_regs {10, 11} m m'"
      using d(3,12) by (intro same_regs_resumed [OF x(4)])
        (simp_all add: answered_def Let_def on_hart_def log_event_def split: option.split)
    moreover have "get_gpr 10 (hart m') = ans_a0 a" "get_gpr 11 (hart m') = ans_a1 a"
      using x(4) d(1) by (simp_all add: resumed_with_def)
    moreover have "events (?fin a m1) = (case ans_event a of None \<Rightarrow> [] | Some e \<Rightarrow> [e]) @ events m"
      using d(9) by (simp add: answered_def Let_def on_hart_def log_event_def split: option.split)
    moreover have "if ans_arms a then \<not> bit (csrs (hart m') Hvip) 6 \<and> bit (csrs (hart m') Sie) 5
         else csrs (hart m') Hvip = csrs (hart m) Hvip \<and> csrs (hart m') Sie = csrs (hart m) Sie"
      using x(4) d(7) by (auto simp: resumed_with_def answered_def Let_def on_hart_def log_event_def pending_defs bit_simps
          split: option.split)
    ultimately show ?thesis
      using x d(2,10) Some by (simp add: resumed_with_def)
  qed
qed

theorem ecall_implements_interface_witness:
  "\<exists>m'. vm_exit demo_env demo_symbols (on_hart (hw_trap 10 0 0 0)
      (demo_machine ((replicate 32 5)[17 := 0x54494D45, 16 := 0, 10 := 1000]))) = Inr m' \<and>
     get_gpr 10 (hart m') = 0 \<and> events m' = [RtCall (Rt_set_timer 1000)] \<and> bit (csrs (hart m') Sie) 5"
proof -
  let ?x = "(replicate 32 5)[17 := 0x54494D45, 16 := 0, 10 := 1000] :: usize list"
  have g: "get_gpr 17 (hart (demo_machine ?x)) = 0x54494D45" "get_gpr 16 (hart (demo_machine ?x)) = 0"
    "get_gpr 10 (hart (demo_machine ?x)) = 1000" "unat (pc (hart (demo_machine ?x))) + 4 < 2 ^ 64"
    "events (demo_machine ?x) = []"
    by (simp_all add: demo_machine_def get_gpr_def)
  have "scause_cause demo_env 10 = Exception VirtualSupervisorEnvCall" by (simp add: demo_env_def)
  from ecall_implements_interface [OF demo_running demo_symbols_ok this g(4), of 0 0 0]
  show ?thesis unfolding g by (auto simp: sbi_spec_def timer_answer_def)
qed

text \<open>
  C38. \<open>console_getchar\<close> is a legacy call, whose contract is to return the character in
  \<open>a0\<close>; the hypervisor returns it in \<open>a1\<close> and zero in \<open>a0\<close>, whatever the console
  delivered.
\<close>

theorem getchar_lands_in_a1:
  assumes r: "guest_running S m" and S: "symbols_ok S" and c: "scause_cause E cause = Exception VirtualSupervisorEnvCall"
    and pc4: "unat (pc (hart m)) + 4 < 2 ^ 64" and a7: "get_gpr 17 (hart m) = SBI_CONSOLE_GETCHAR"
  shows "\<exists>m'. vm_exit E S (on_hart (hw_trap cause tval gpa inst) m) = Inr m' \<and>
    get_gpr 10 (hart m') = 0 \<and> get_gpr 11 (hart m') = fst (sbi_ecall E (events m) SBI_CONSOLE_GETCHAR 0 [0, 0, 0])"
proof -
  let ?h = "hw_trap cause tval gpa inst (hart m)"
  let ?a = "\<lparr>ans_a0 = 0, ans_a1 = fst (sbi_ecall E (events m) 2 0 [0, 0, 0]), ans_event = Some (Ecall 2 0 [0, 0, 0]), ans_arms = False\<rparr>"
  let ?Q = "\<lambda>v' m3. length (ctx_x (trap_ctx m3)) = 32 \<and> ctx_x (trap_ctx m3) ! 10 = 0 \<and> ctx_x (trap_ctx m3) ! 11 = ans_a1 ?a"
  have "\<exists>v' m3. handle_trap E (the_vmm m) m1 = Inr (None, v', m3) \<and> ?Q v' m3" if a: "at_handler ?h m m1" for m1
    using handle_ecall [of E m1 "the_vmm m"] at_handlerD [OF a refl r] c pc4 a7 by (simp add: sbi_spec_def)
  from vm_exit_handled [OF r S refl, of cause tval gpa inst E ?Q, OF this]
  show ?thesis by (auto simp: resumed_with_def)
qed

theorem getchar_lands_in_a1_witness:
  "\<exists>m'. vm_exit (demo_env\<lparr>sbi_ecall := \<lambda>_ _ _ _. (65, 0)\<rparr>) demo_symbols
      (on_hart (hw_trap 10 0 0 0) (demo_machine ((replicate 32 5)[17 := 2]))) = Inr m' \<and>
     get_gpr 10 (hart m') = 0 \<and> get_gpr 11 (hart m') = 65"
proof -
  let ?x = "(replicate 32 5)[17 := 2] :: usize list" and ?E = "demo_env\<lparr>sbi_ecall := \<lambda>_ _ _ _. (65, 0)\<rparr>"
  have "scause_cause ?E 10 = Exception VirtualSupervisorEnvCall" by (simp add: demo_env_def)
  from getchar_lands_in_a1 [OF demo_running demo_symbols_ok this, of ?x 0 0 0]
  show ?thesis by (simp add: demo_machine_def get_gpr_def)
qed

end
