(* ===== verification/Plic_Correct.thy ===== *)
theory Plic_Correct
  imports Sbi_Correct
begin

text \<open>
  External interrupts: an exit for an interrupt of the machine, the guest's read of
  its claim register and its write of the complete register, and the exits that
  cannot be handled.
\<close>

section \<open>The registers of a context\<close>

text \<open>The guest-physical address of the threshold (index 0) and claim (index 1) register of a context.\<close>

definition context_reg :: "usize \<Rightarrow> nat \<Rightarrow> nat \<Rightarrow> usize" where
  "context_reg base k i = base + 0x200000 + word_of_nat (0x1000 * k + 4 * i)"

lemma context_reg_offset:
  assumes "k < 32" "i < 1024"
  shows "context_reg base k i - base - 0x200000 = word_of_nat (0x1000 * k + 4 * i)"
    "unat (word_of_nat (0x1000 * k + 4 * i) :: usize) = 0x1000 * k + 4 * i"
    "unat (context_reg base k i - base) = 0x200000 + 0x1000 * k + 4 * i"
proof -
  show u: "unat (word_of_nat (0x1000 * k + 4 * i) :: usize) = 0x1000 * k + 4 * i"
    using assms by (intro unat_word_of_nat_usize) simp
  show "context_reg base k i - base - 0x200000 = word_of_nat (0x1000 * k + 4 * i)" by (simp add: context_reg_def)
  have "context_reg base k i - base = 0x200000 + word_of_nat (0x1000 * k + 4 * i)" by (simp add: context_reg_def)
  moreover have "unat (0x200000 + word_of_nat (0x1000 * k + 4 * i) :: usize) = 0x200000 + (0x1000 * k + 4 * i)"
    using u assms by (subst unat_add_no_wrap) simp_all
  ultimately show "unat (context_reg base k i - base) = 0x200000 + 0x1000 * k + 4 * i" by simp
qed

text \<open>What the handler computes from the address: the context and the register.\<close>

lemma context_reg_decoded:
  assumes "k < 32" "i < 1024"
  shows "0x200000 \<le> context_reg base k i - base" "context_reg base k i - base < 0x200000 + 0x1000 * MAX_CONTEXTS"
    "unat ((context_reg base k i - base - 0x200000) div 0x1000) = k"
    "drop_bit 2 ((context_reg base k i - base - 0x200000) AND 0xfff) = word_of_nat i"
proof -
  note c = context_reg_offset [OF assms]
  show "0x200000 \<le> context_reg base k i - base" "context_reg base k i - base < 0x200000 + 0x1000 * MAX_CONTEXTS"
    using c(3) assms by (simp_all add: word_le_nat_alt word_less_nat_alt)
  show "unat ((context_reg base k i - base - 0x200000) div 0x1000) = k"
    unfolding c(1) unat_div using c(2) assms by simp
  have "unat (drop_bit 2 (word_of_nat (0x1000 * k + 4 * i) AND 0xfff :: usize)) = ((0x1000 * k + 4 * i) mod 4096) div 4"
    by (simp only: unat_drop_bit unat_and_4095 c(2)) simp
  also have "\<dots> = i" using assms by simp
  finally show "drop_bit 2 ((context_reg base k i - base - 0x200000) AND 0xfff) = word_of_nat i"
    unfolding c(1) using assms unat_word_of_nat_usize [of i] by (simp add: usize_eq_iff_unat)
qed



lemma plic_threshold:
  assumes p: "host_plic v = Some p" "k < 32" "length (ctx_x (trap_ctx m)) = 32" "unat rs2 < 32"
  shows "handle_plic_access v (context_reg (plic_base_addr p) k 0) (Sw rs2) m = Inr (Inr (), v,
    log_event (MmioWrite (context_reg (plic_base_addr p) k 0) (ucast (ctx_x (trap_ctx m) ! unat rs2))) m)"
  using p context_reg_decoded [of k 0 "plic_base_addr p"]
  by (simp add: handle_plic_access_def Let_def ctx_get_ok del: MAX_CONTEXTS_def)

lemma plic_unexpected:
  assumes "host_plic v = Some p" "k < 32" "i = OtherInstruction \<and> j < 2 \<or> j = 0 \<and> (\<exists>rd. i = Lw rd)"
  shows "handle_plic_access v (context_reg (plic_base_addr p) k j) i m = Inr (Inl UnexpectedInst, v, m)"
proof -
  have "j = 0 \<or> j = 1" using assms(3) by auto
  then show ?thesis
    using assms context_reg_decoded [of k j "plic_base_addr p"]
    by (auto simp: handle_plic_access_def Let_def simp del: MAX_CONTEXTS_def)
qed

section \<open>A fault on a register\<close>

text \<open>
  The instruction of the access decodes to \<open>i\<close>: the one that \<open>htinst\<close> holds, or,
  when \<open>htinst\<close> is zero, the one that the guest's page table gives at the guest's
  program counter.
\<close>

definition fault_decodes :: "env \<Rightarrow> machine \<Rightarrow> usize \<Rightarrow> usize \<Rightarrow> Instruction \<Rightarrow> bool" where
  "fault_decodes E m inst len i \<longleftrightarrow> (\<exists>w. decode_inst E w = Inr (len, Some i) \<and>
     (inst \<notin> {0, 0x3020, 0x3000} \<and> w = inst \<or>
      inst = 0 \<and> (\<exists>a. w = read_u64 (mem m) a \<and>
        fast_two_stage_translation Sv39 (vm_guest_id (the_vmm m)) (pc (hart m)) (csrs (hart m) Vsatp) m = Inr (Some a))))"

lemma fast_two_stage_mem:
  assumes "mem m1 = mem m"
  shows "fast_two_stage_translation G g va vsatp m1 = fast_two_stage_translation G g va vsatp m"
  using assms by (simp add: fast_two_stage_translation_def guest_stage_def translate_guest_va_def Let_def)

lemma faulting_inst_decodes:
  assumes f: "fault_decodes E m inst len i" and a: "at_handler (hw_trap cause tval gpa inst (hart m)) m m1"
    and r: "guest_running S m"
  shows "\<exists>w. faulting_inst (the_vmm m) m1 = Inr (Inr w) \<and> decode_inst E w = Inr (len, Some i)"
proof -
  note d = at_handlerD [OF a refl r]
  show ?thesis
    using f d(2,6,8) d(7) [of Vsatp]
    by (auto simp: fault_decodes_def faulting_inst_def Let_def fast_two_stage_mem [OF d(8)])
qed



section \<open>Exits\<close>

lemma irq_handled:
  assumes p: "host_plic v = Some p" "length (claim_complete p) = 32" and g: "unat (vm_guest_id v) < 4"
    and b: "unat (plic_base_addr p) < 2 ^ 63" and n: "unat (external_irq v) + 1 < 2 ^ 64"
    and c: "scause_cause E (csrs (hart m) Scause) = Interrupt SupervisorExternal"
  defines "k \<equiv> 2 * unat (vm_guest_id v) + 1"
  defines "a \<equiv> context_reg (plic_base_addr p) k 1"
  shows "handle_trap E v m = Inr (None, v\<lparr>host_plic := Some (p\<lparr>claim_complete := (claim_complete p)[k := mmio_read32 E (events m) a]\<rparr>),
      irq_pending := True, external_irq := external_irq v + 1\<rparr>,
    on_hart (set_csr Hvip VSEIP) (log_event (MmioRead a) m))"
proof -
  let ?g = "vm_guest_id v" and ?b = "plic_base_addr p"
  have u2: "unat (2 * ?g) = 2 * unat ?g" using g by (subst unat_mul_no_wrap) simp_all
  have u3: "unat (2 * ?g + 1) = k" using g u2 by (subst unat_add_no_wrap) (simp_all add: k_def)
  have u4: "unat (0x1000 * (2 * ?g + 1)) = 0x1000 * k" using g u3 by (subst unat_mul_no_wrap) (simp_all add: k_def)
  have u5: "unat (?b + 0x200004) = unat ?b + 0x200004" using b by (subst unat_add_no_wrap) simp_all
  have kw: "(word_of_nat k :: usize) = 2 * ?g + 1" using u3 word_of_nat_unat [of "2 * ?g + 1"] by simp
  have a: "a = ?b + 0x200004 + 0x1000 * (2 * ?g + 1)"
    by (simp add: a_def context_reg_def kw algebra_simps)
  have "handle_irq E v m = Inr (v\<lparr>host_plic := Some (p\<lparr>claim_complete := (claim_complete p)[k := mmio_read32 E (events m) a]\<rparr>),
      irq_pending := True\<rparr>, on_hart (set_csr Hvip VSEIP) (log_event (MmioRead a) m))"
    using p g b u2 u3 u4 u5 a
    by (simp add: handle_irq_def checked_mul_def checked_add_def set_index_def Let_def k_def)
  then show ?thesis using c n by (simp add: handle_trap_def checked_add_def)
qed

text \<open>
  An exit that the handler carries out with the lock held: what it leaves in the
  context and in the hypervisor's state is what the guest resumes with.
\<close>

lemma handled_exit:
  assumes r: "guest_running S m" and S: "symbols_ok S"
    and handled: "\<And>m1. at_handler (hw_trap cause tval gpa inst (hart m)) m m1 \<Longrightarrow>
      handle_trap E (the_vmm m) m1 = Inr (None, v', F m1)"
  obtains m' m1 where "vm_exit E S (on_hart (hw_trap cause tval gpa inst) m) = Inr m'" "guest_running S m'"
    "at_handler (hw_trap cause tval gpa inst (hart m)) m m1" "resumed_with v' (F m1) m'"
proof -
  let ?h = "hw_trap cause tval gpa inst (hart m)"
  have "\<exists>w m3. handle_trap E (the_vmm m) m1 = Inr (None, w, m3) \<and> w = v' \<and> (\<exists>m1. at_handler ?h m m1 \<and> m3 = F m1)"
    if "at_handler ?h m m1" for m1
    using handled [OF that] that by blast
  from vm_exit_handled [OF r S refl this] that show thesis by blast
qed

text \<open>The two accesses, as far as the exit sees them: what the handler does to the state at its start.\<close>

definition claimed :: "u32 \<Rightarrow> u32 \<Rightarrow> usize \<Rightarrow> machine \<Rightarrow> machine" where
  "claimed rd irq next m =
     m\<lparr>trap_ctx := (trap_ctx m)\<lparr>ctx_x := (ctx_x (trap_ctx m))[unat rd := ucast irq], ctx_sepc := next\<rparr>\<rparr>"

definition completed :: "usize \<Rightarrow> u32 \<Rightarrow> usize \<Rightarrow> machine \<Rightarrow> machine" where
  "completed a rs next m = (on_hart (clear_csr Hvip VSEIP) (log_event (MmioWrite a (ucast (ctx_x (trap_ctx m) ! unat rs))) m))
     \<lparr>trap_ctx := (trap_ctx m)\<lparr>ctx_sepc := next\<rparr>\<rparr>"


lemma claimed_simps [simp]:
  "hart (claimed rd irq next m) = hart m" "events (claimed rd irq next m) = events m" "mem (claimed rd irq next m) = mem m"
  "trap_ctx (claimed rd irq next m) = (trap_ctx m)\<lparr>ctx_x := (ctx_x (trap_ctx m))[unat rd := ucast irq], ctx_sepc := next\<rparr>"
  by (simp_all add: claimed_def)

lemma completed_simps [simp]:
  "hart (completed a rs next m) = clear_csr Hvip VSEIP (hart m)" "mem (completed a rs next m) = mem m"
  "events (completed a rs next m) = MmioWrite a (ucast (ctx_x (trap_ctx m) ! unat rs)) # events m"
  "trap_ctx (completed a rs next m) = (trap_ctx m)\<lparr>ctx_sepc := next\<rparr>"
  by (simp_all add: completed_def on_hart_def log_event_def)




section \<open>Properties\<close>

text \<open>
  C9. An external interrupt of the machine becomes one of the guest: the exit reads the
  claim register of the guest's context once, keeps the number it reads for the
  guest, makes the guest's external interrupt pending and returns to the guest
  where it was, with the same registers. The machine has a controller, based below
  \<open>2 ^ 63\<close>, the guest's identifier is below four, and the count of external
  interrupts is below its maximum.
\<close>

theorem external_interrupt_delivered:
  assumes r: "guest_running S m" and S: "symbols_ok S" and c: "scause_cause E cause = Interrupt SupervisorExternal"
    and p: "host_plic (the_vmm m) = Some p" "unat (plic_base_addr p) < 2 ^ 63" "unat (vm_guest_id (the_vmm m)) < 4"
    and n: "unat (external_irq (the_vmm m)) + 1 < 2 ^ 64"
  defines "k \<equiv> 2 * unat (vm_guest_id (the_vmm m)) + 1"
  defines "a \<equiv> context_reg (plic_base_addr p) k 1"
  shows "\<exists>m'. vm_exit E S (on_hart (hw_trap cause tval gpa inst) m) = Inr m' \<and> guest_running S m' \<and>
    bit (csrs (hart m') Hvip) 10 \<and> pc (hart m') = pc (hart m) \<and> supervisor (hart m') = supervisor (hart m) \<and>
    same_regs {} m m' \<and> events m' = MmioRead a # events m \<and>
    host_plic (the_vmm m') = Some (p\<lparr>claim_complete := (claim_complete p)[k := mmio_read32 E (events m) a]\<rparr>)"
proof -
  let ?v = "(the_vmm m)\<lparr>host_plic := Some (p\<lparr>claim_complete := (claim_complete p)[k := mmio_read32 E (events m) a]\<rparr>),
      irq_pending := True, external_irq := external_irq (the_vmm m) + 1\<rparr>"
  let ?F = "\<lambda>m1. on_hart (set_csr Hvip VSEIP) (log_event (MmioRead a) m1)"
  have len: "length (claim_complete p) = 32" using r p(1) by (auto simp: guest_running_def plic_ok_def the_vmm_def)
  have "handle_trap E (the_vmm m) m1 = Inr (None, ?v, ?F m1)" if at: "at_handler (hw_trap cause tval gpa inst (hart m)) m m1" for m1
  proof -
    note d = at_handlerD [OF at refl r]
    have "scause_cause E (csrs (hart m1) Scause) = Interrupt SupervisorExternal" using c d(4) by simp
    from irq_handled [OF p(1) len p(3,2) n this] show ?thesis using d(9) unfolding a_def k_def by simp
  qed
  then obtain m' m1 where x: "vm_exit E S (on_hart (hw_trap cause tval gpa inst) m) = Inr m'" "guest_running S m'"
    "at_handler (hw_trap cause tval gpa inst (hart m)) m m1" "resumed_with ?v (?F m1) m'"
    by (rule handled_exit [OF r S])
  note d = at_handlerD [OF x(3) refl r]
  have "same_regs {} m m'" using d(3,12) by (intro same_regs_resumed [OF x(4)]) (simp_all add: on_hart_def log_event_def)
  then show ?thesis
    using x(1,2,4) d(2,9,10)
    by (intro exI [of _ m']) (simp add: resumed_with_def on_hart_def log_event_def pending_defs bit_simps)
qed

theorem external_interrupt_delivered_witness:
  "\<exists>m'. vm_exit demo_env demo_symbols (on_hart (hw_trap 0x8000000000000009 0 0 0) (demo_machine (replicate 32 7))) = Inr m' \<and>
     bit (csrs (hart m') Hvip) 10 \<and> events m' = [MmioRead 0xc201004] \<and> pc (hart m') = 0x90200000"
proof -
  let ?m = "demo_machine (replicate 32 7)" and ?p = "PlicState_new 0xc000000"
  have d: "host_plic (the_vmm ?m) = Some ?p" "vm_guest_id (the_vmm ?m) = 0" "external_irq (the_vmm ?m) = 0"
    by (simp_all add: demo_vmm_def)
  have c: "scause_cause demo_env 0x8000000000000009 = Interrupt SupervisorExternal" by (simp add: demo_env_def)
  have e: "pc (hart ?m) = 0x90200000" "events ?m = []" "context_reg (plic_base_addr ?p) 1 1 = 0xc201004"
    by (simp_all add: demo_machine_def PlicState_new_def context_reg_def)
  show ?thesis
    using external_interrupt_delivered [OF demo_running demo_symbols_ok c d(1), of 0 0 0] d e
    by (auto simp: PlicState_new_def)
qed





text \<open>
  C12. Other exceptions are forwarded: the guest resumes at its own trap vector with the
  cause and the address of the exception in \<open>vscause\<close> and \<open>vsepc\<close>, and its
  registers as they were. It resumes in the mode it was in, so that an exception
  from VU-mode runs the guest's trap handler in VU-mode, and \<open>vsstatus\<close> stays as
  it was.
\<close>

theorem exceptions_are_forwarded:
  assumes r: "guest_running S m" and S: "symbols_ok S" 
    and c: "scause_cause E cause \<in> Exception ` {IllegalInstruction, LoadFault, StoreFault, LoadPageFault, OtherException}"
  shows "\<exists>m'. vm_exit E S (on_hart (hw_trap cause tval gpa inst) m) = Inr m' \<and> guest_running S m' \<and>
    pc (hart m') = csrs (hart m) Vstvec \<and> csrs (hart m') Vsepc = pc (hart m) \<and> csrs (hart m') Vscause = cause \<and>
    supervisor (hart m') = supervisor (hart m) \<and> csrs (hart m') Vsstatus = csrs (hart m) Vsstatus \<and>
    same_regs {} m m' \<and> events m' = events m \<and> the_vmm m' = the_vmm m"
proof -
  have "handle_trap E (the_vmm m) m1 = Inr (None, the_vmm m, forward_exception m1)"
    if at: "at_handler (hw_trap cause tval gpa inst (hart m)) m m1" for m1
    using c at_handlerD(4) [OF at refl r] by (auto simp: handle_trap_def)
  then obtain m' m1 where x: "vm_exit E S (on_hart (hw_trap cause tval gpa inst) m) = Inr m'" "guest_running S m'"
    "at_handler (hw_trap cause tval gpa inst (hart m)) m m1" "resumed_with (the_vmm m) (forward_exception m1) m'"
    by (rule handled_exit [OF r S])
  note d = at_handlerD [OF x(3) refl r]
  have "same_regs {} m m'"
    using d(3,12) by (intro same_regs_resumed [OF x(4)]) (simp_all add: forward_exception_def on_hart_def Let_def)
  moreover have "csrs (hart m') Vsstatus = csrs (hart m) Vsstatus"
    using vm_exit_returned [OF r x(1)] by (simp add: exit_keeps_def kept_csrs_def)
  ultimately show ?thesis
    using x(1,2,4) d(2,4,7,9,10)
    by (intro exI [of _ m']) (simp add: resumed_with_def forward_exception_def on_hart_def Let_def)
qed

theorem exceptions_are_forwarded_witness:
  "\<exists>m'. vm_exit demo_env demo_symbols (on_hart (hw_trap 2 0 0 0) (demo_machine (replicate 32 7))) = Inr m' \<and>
     csrs (hart m') Vsepc = 0x90200000 \<and> csrs (hart m') Vscause = 2"
proof -
  have e: "pc (hart (demo_machine (replicate 32 7))) = 0x90200000" by (simp add: demo_machine_def)
  have c: "scause_cause demo_env 2 \<in> Exception ` {IllegalInstruction, LoadFault, StoreFault, LoadPageFault, OtherException}"
    by (simp add: demo_env_def)
  show ?thesis using exceptions_are_forwarded [OF demo_running demo_symbols_ok c, of "replicate 32 7" 0 0 0] e by auto
qed



text \<open>
  C31. An instruction fetch that the second stage does not translate stops the machine: the
  handler holds the lock of \<open>HOST_VMM\<close> and takes it again before it comes to its
  diagnostic and its panic.
\<close>

theorem instruction_fault_deadlocks:
  assumes r: "guest_running S m" and S: "symbols_ok S" and c: "scause_cause E cause = Exception InstructionGuestPageFault"
  shows "vm_exit E S (on_hart (hw_trap cause tval gpa inst) m) = Inl Deadlock"
proof (rule vm_exit_aborts [OF r S refl])
  fix m1
  assume at: "at_handler (hw_trap cause tval gpa inst (hart m)) m m1"
  note d = at_handlerD [OF at refl r]
  show "handle_trap E (the_vmm m) m1 = Inl Deadlock" using c d(4,11) by (simp add: handle_trap_def vmm_lock_def)
qed

theorem instruction_fault_deadlocks_witness:
  "vm_exit demo_env demo_symbols (on_hart (hw_trap 20 0 0 0) (demo_machine (replicate 32 7))) = Inl Deadlock"
  by (rule instruction_fault_deadlocks [OF demo_running demo_symbols_ok]) (simp_all add: demo_env_def)

text \<open>
  C32. A guest can stop the machine: an instruction that the hypervisor would have to emulate
  ends in \<open>todo!\<close>, and a load or store of a guest-physical address that is not
  mapped ends in a panic when it is outside of the interrupt controller, and also
  when it is inside but outside of the registers of the contexts and its instruction
  can be decoded.
\<close>

theorem guest_stops_machine:
  assumes r: "guest_running S m" and S: "symbols_ok S" and p: "host_plic (the_vmm m) = Some p"
    and n: "unat (guest_page_falut (the_vmm m)) + 1 < 2 ^ 64"
    and c: "scause_cause E cause = Exception VirtualInstruction \<and> a = NotYetImplemented \<or>
      scause_cause E cause \<in> {Exception LoadGuestPageFault, Exception StoreGuestPageFault} \<and> a = ExplicitPanic \<and>
      (\<not> is_plic_access (push_bit 2 gpa) \<or>
       is_plic_access (push_bit 2 gpa) \<and> fault_decodes E m inst len i \<and>
       (push_bit 2 gpa - plic_base_addr p < 0x200000 \<or> 0x220000 \<le> push_bit 2 gpa - plic_base_addr p))"
  shows "vm_exit E S (on_hart (hw_trap cause tval gpa inst) m) = Inl a"
proof -
  let ?h = "hw_trap cause tval gpa inst (hart m)" and ?a = "push_bit 2 gpa"
  consider (emulate) "scause_cause E cause = Exception VirtualInstruction" "a = NotYetImplemented"
    | (outside) "scause_cause E cause \<in> {Exception LoadGuestPageFault, Exception StoreGuestPageFault}" "a = ExplicitPanic"
        "\<not> is_plic_access ?a"
    | (inside) "scause_cause E cause \<in> {Exception LoadGuestPageFault, Exception StoreGuestPageFault}" "a = ExplicitPanic"
        "is_plic_access ?a" "fault_decodes E m inst len i"
        "?a - plic_base_addr p < 0x200000 \<or> 0x220000 \<le> ?a - plic_base_addr p"
    using c by blast
  then show ?thesis
  proof cases
    case emulate
    have "handle_trap E (the_vmm m) m1 = Inl NotYetImplemented" if at: "at_handler ?h m m1" for m1
      using emulate at_handlerD(4) [OF at refl r] by (simp add: handle_trap_def privileged_inst_handler_def)
    then show ?thesis unfolding emulate(2) by (intro vm_exit_aborts [OF r S refl])
  next
    case outside
    have "\<exists>e v' m3. handle_trap E (the_vmm m) m1 = Inr (Some e, v', m3)" if at: "at_handler ?h m m1" for m1
    proof -
      note d = at_handlerD [OF at refl r]
      have "guest_page_fault_handler E (the_vmm m) m1 = Inr (Inl DeviceNotFound, the_vmm m, m1)"
        using outside(3) d(5) by (simp add: guest_page_fault_handler_def)
      then show ?thesis using outside(1) d(4) n by (auto simp: handle_trap_def checked_add_def)
    qed
    then show ?thesis unfolding outside(2) by (intro vm_exit_errors [OF r S refl])
  next
    case inside
    have "handle_trap E (the_vmm m) m1 = Inl ExplicitPanic" if at: "at_handler ?h m m1" for m1
    proof -
      note d = at_handlerD [OF at refl r]
      have "handle_plic_access (the_vmm m) ?a i m1 = Inl ExplicitPanic"
        using inside(5) p by (auto simp: handle_plic_access_def Let_def)
      then have "guest_page_fault_handler E (the_vmm m) m1 = Inl ExplicitPanic"
        using inside(3) d(5) faulting_inst_decodes [OF inside(4) at r]
        by (auto simp: guest_page_fault_handler_def Let_def)
      then show ?thesis using inside(1) d(4) by (auto simp: handle_trap_def)
    qed
    then show ?thesis unfolding inside(2) by (intro vm_exit_aborts [OF r S refl])
  qed
qed

theorem guest_stops_machine_witness:
  "vm_exit demo_env demo_symbols (on_hart (hw_trap 22 0 0 0) (demo_machine (replicate 32 7))) = Inl NotYetImplemented \<and>
   vm_exit demo_env demo_symbols (on_hart (hw_trap 21 0 0x10000000 0x2503) (demo_machine (replicate 32 7))) = Inl ExplicitPanic \<and>
   vm_exit demo_env demo_symbols (on_hart (hw_trap 21 0 0x3100000 0x2503) (demo_machine (replicate 32 7))) = Inl ExplicitPanic"
proof -
  have d: "host_plic (the_vmm (demo_machine (replicate 32 7))) = Some (PlicState_new 0xc000000)"
    "unat (guest_page_falut (the_vmm (demo_machine (replicate 32 7)))) + 1 < 2 ^ 64"
    by (simp_all add: demo_vmm_def)
  note s = guest_stops_machine [OF demo_running demo_symbols_ok d, where i = "Lw 10" and len = 4]
  show ?thesis
    by (intro conjI; rule s) (simp_all add: demo_env_def is_plic_access_def PlicState_new_def decode_inst_def fault_decodes_def)
qed



end
