(* ===== verification/Run_Guest.thy ===== *)
theory Run_Guest
  imports Hart
begin

text \<open>
  The virtual CPU's register state of \<^verbatim>\<open>src/guest/context.rs\<close> and the context switch of
  \<^verbatim>\<open>src/guest/guest.S\<close>: \<open>_run_guest\<close> saves the hypervisor's registers and enters the
  guest, \<open>_guest_exit\<close> is where the guest's trap comes back to. The structures are
  \<open>repr(C)\<close>; \<open>vm_words\<close> is the layout that the offsets of the assembly refer to. No
  other part of the sources calls \<open>_run_guest\<close>.
\<close>

section \<open>Register state\<close>

record HypervisorCpuState =
  hyp_gprs :: GeneralPurposeRegisters
  hyp_sstatus :: u64
  hyp_hstatus :: u64
  hyp_scounteren :: u64
  hyp_stvec :: u64
  hyp_sscratch :: u64

record GuestCpuState =
  guest_gprs :: GeneralPurposeRegisters
  guest_sstatus :: u64
  guest_hstatus :: u64
  guest_scounteren :: u64
  guest_sepc :: u64

record GuestVsCsrs =
  vs_htimedelta :: u64
  vs_vsstatus :: u64
  vs_vsie :: u64
  vs_vstvec :: u64
  vs_vsscratch :: u64
  vs_vsepc :: u64
  vs_vscause :: u64
  vs_vstval :: u64
  vs_vsatp :: u64
  vs_vstimecmp :: u64

record GuestVirtualHsCsrs =
  vhs_hie :: u64
  vhs_hgeie :: u64
  vhs_hgatp :: u64

record VmCpuTrapState =
  trap_scause :: u64
  trap_stval :: u64
  trap_htval :: u64
  trap_htinst :: u64

record VmCpuRegisters =
  hyp_regs :: HypervisorCpuState
  guest_regs :: GuestCpuState
  vs_csrs :: GuestVsCsrs
  virtual_hs_csrs :: GuestVirtualHsCsrs
  trap_csrs :: VmCpuTrapState

text \<open>The words of each structure in the order of its fields.\<close>

definition hyp_words :: "HypervisorCpuState \<Rightarrow> u64 list" where
  "hyp_words s = gpr_0 (hyp_gprs s) @ [hyp_sstatus s, hyp_hstatus s, hyp_scounteren s, hyp_stvec s, hyp_sscratch s]"

definition guest_words :: "GuestCpuState \<Rightarrow> u64 list" where
  "guest_words s = gpr_0 (guest_gprs s) @ [guest_sstatus s, guest_hstatus s, guest_scounteren s, guest_sepc s]"

definition vs_words :: "GuestVsCsrs \<Rightarrow> u64 list" where
  "vs_words s = [vs_htimedelta s, vs_vsstatus s, vs_vsie s, vs_vstvec s, vs_vsscratch s, vs_vsepc s, vs_vscause s,
     vs_vstval s, vs_vsatp s, vs_vstimecmp s]"

definition virtual_hs_words :: "GuestVirtualHsCsrs \<Rightarrow> u64 list" where
  "virtual_hs_words s = [vhs_hie s, vhs_hgeie s, vhs_hgatp s]"

definition trap_words :: "VmCpuTrapState \<Rightarrow> u64 list" where
  "trap_words s = [trap_scause s, trap_stval s, trap_htval s, trap_htinst s]"

definition vm_words :: "VmCpuRegisters \<Rightarrow> u64 list" where
  "vm_words s = hyp_words (hyp_regs s) @ guest_words (guest_regs s) @ vs_words (vs_csrs s) @
     virtual_hs_words (virtual_hs_csrs s) @ trap_words (trap_csrs s)"

definition vm_ok :: "VmCpuRegisters \<Rightarrow> bool" where
  "vm_ok s \<longleftrightarrow> regs_ok (hyp_gprs (hyp_regs s)) \<and> regs_ok (guest_gprs (guest_regs s))"

section \<open>Offsets\<close>

text \<open>\<open>offset_of!\<close>, in bytes: where the fields of the structures start.\<close>

definition offset_hyp_regs :: nat where [simp]: "offset_hyp_regs = 0"
definition offset_guest_regs :: nat where [simp]: "offset_guest_regs = (32 + 5) * 8"
definition offset_gprs :: nat where [simp]: "offset_gprs = 0"

datatype hyp_csr = HypSstatus | HypHstatus | HypScounteren | HypStvec | HypSscratch

datatype guest_csr = GuestSstatus | GuestHstatus | GuestScounteren | GuestSepc

primrec offset_hyp_csr :: "hyp_csr \<Rightarrow> nat" where
  "offset_hyp_csr HypSstatus = 32 * 8"
| "offset_hyp_csr HypHstatus = 33 * 8"
| "offset_hyp_csr HypScounteren = 34 * 8"
| "offset_hyp_csr HypStvec = 35 * 8"
| "offset_hyp_csr HypSscratch = 36 * 8"

primrec offset_guest_csr :: "guest_csr \<Rightarrow> nat" where
  "offset_guest_csr GuestSstatus = 32 * 8"
| "offset_guest_csr GuestHstatus = 33 * 8"
| "offset_guest_csr GuestScounteren = 34 * 8"
| "offset_guest_csr GuestSepc = 35 * 8"

definition hyp_gpr_offset :: "GprIndex \<Rightarrow> nat" where
  "hyp_gpr_offset index = offset_hyp_regs + offset_gprs + gpr_index index * 8"

definition guest_gpr_offset :: "GprIndex \<Rightarrow> nat" where
  "guest_gpr_offset index = offset_guest_regs + offset_gprs + gpr_index index * 8"

definition hyp_csr_offset :: "hyp_csr \<Rightarrow> nat" where
  "hyp_csr_offset r = offset_hyp_regs + offset_hyp_csr r"

definition guest_csr_offset :: "guest_csr \<Rightarrow> nat" where
  "guest_csr_offset r = offset_guest_regs + offset_guest_csr r"

section \<open>\<open>guest.S\<close>\<close>

text \<open>The registers in the order in which the file names them.\<close>

definition hyp_saved :: "GprIndex list" where
  "hyp_saved = [RA, GP, TP, S0, S1, A1, A2, A3, A4, A5, A6, A7, S2, S3, S4, S5, S6, S7, S8, S9, S10, S11, SP]"

definition guest_saved :: "GprIndex list" where
  "guest_saved = [RA, GP, TP, S0, S1, A1, A2, A3, A4, A5, A6, A7, S2, S3, S4, S5, S6, S7, S8, S9, S10, S11,
     T0, T1, T2, T3, T4, T5, T6, SP]"

definition sd_gpr :: "(GprIndex \<Rightarrow> nat) \<Rightarrow> GprIndex \<Rightarrow> instr" where
  "sd_gpr f i = Sd (gpr_index i) (f i) (gpr_index A0)"

definition ld_gpr :: "(GprIndex \<Rightarrow> nat) \<Rightarrow> GprIndex \<Rightarrow> instr" where
  "ld_gpr f i = Ld (gpr_index i) (f i) (gpr_index A0)"

text \<open>The two blocks that swap the control registers.\<close>

definition swap_in_code :: "usize \<Rightarrow> instr list" where
  "swap_in_code guest_exit =
     [Ld 6 (guest_csr_offset GuestSstatus) 10, Csrrw 6 Sstatus 6, Sd 6 (hyp_csr_offset HypSstatus) 10,
      Ld 6 (guest_csr_offset GuestHstatus) 10, Csrrw 6 Hstatus 6, Sd 6 (hyp_csr_offset HypHstatus) 10,
      Ld 6 (guest_csr_offset GuestScounteren) 10, Csrrw 6 Scounteren 6, Sd 6 (hyp_csr_offset HypScounteren) 10,
      Ld 6 (guest_csr_offset GuestSepc) 10, Csrw Sepc 6,
      Li 6 guest_exit, Csrrw 6 Stvec 6, Sd 6 (hyp_csr_offset HypStvec) 10,
      Csrrw 6 Sscratch 10, Sd 6 (hyp_csr_offset HypSscratch) 10]"

definition swap_out_code :: "instr list" where
  "swap_out_code =
     [Ld 6 (hyp_csr_offset HypSstatus) 10, Csrrw 6 Sstatus 6, Sd 6 (guest_csr_offset GuestSstatus) 10,
      Ld 6 (hyp_csr_offset HypHstatus) 10, Csrrw 6 Hstatus 6, Sd 6 (guest_csr_offset GuestHstatus) 10,
      Ld 6 (hyp_csr_offset HypScounteren) 10, Csrrw 6 Scounteren 6, Sd 6 (guest_csr_offset GuestScounteren) 10,
      Ld 6 (hyp_csr_offset HypStvec) 10, Csrw Stvec 6,
      Ld 6 (hyp_csr_offset HypSscratch) 10, Csrw Sscratch 6,
      Csrr 6 Sepc, Sd 6 (guest_csr_offset GuestSepc) 10]"

definition run_guest_code :: "usize \<Rightarrow> instr list" where
  "run_guest_code guest_exit =
     map (sd_gpr hyp_gpr_offset) hyp_saved @
     swap_in_code guest_exit @
     map (ld_gpr guest_gpr_offset) guest_saved @
     [ld_gpr guest_gpr_offset A0, Sret]"

definition guest_exit_code :: "instr list" where
  "guest_exit_code =
     [Csrrw 10 Sscratch 10] @
     map (sd_gpr guest_gpr_offset) guest_saved @
     [Csrr 5 Sscratch, Sd 5 (guest_gpr_offset A0) 10]"

definition restore_csrs_code :: "instr list" where
  "restore_csrs_code =
     swap_out_code @
     map (ld_gpr hyp_gpr_offset) hyp_saved @
     [Ret]"

section \<open>What the assembly does\<close>

definition hyp_numbers :: "nat list" where
  "hyp_numbers = [1, 3, 4, 8, 9, 11, 12, 13, 14, 15, 16, 17, 18, 19, 20, 21, 22, 23, 24, 25, 26, 27, 2]"

definition guest_numbers :: "nat list" where
  "guest_numbers = [1, 3, 4, 8, 9, 11, 12, 13, 14, 15, 16, 17, 18, 19, 20, 21, 22, 23, 24, 25, 26, 27,
     5, 6, 7, 28, 29, 30, 31, 2]"

lemma saved_numbers: "map gpr_index hyp_saved = hyp_numbers" "map gpr_index guest_saved = guest_numbers"
  by (simp_all add: hyp_saved_def guest_saved_def hyp_numbers_def guest_numbers_def gpr_index_def)

lemma numbers_facts:
  "\<forall>r \<in> set hyp_numbers. r < 32 \<and> r \<noteq> 0" "10 \<notin> set hyp_numbers" "6 \<notin> set hyp_numbers"
  "\<forall>r \<in> set guest_numbers. r < 32 \<and> r \<noteq> 0" "10 \<notin> set guest_numbers"
  by (simp_all add: hyp_numbers_def guest_numbers_def)

lemma numbers_slots:
  "\<forall>r \<in> set hyp_numbers. r < (90::nat)" "\<forall>r \<in> set guest_numbers. 37 + r < (90::nat)"
  by (simp_all add: hyp_numbers_def guest_numbers_def)

lemma guest_numbers_all:
  assumes "r < 32" "r \<noteq> 0" "r \<noteq> 10"
  shows "r \<in> set guest_numbers"
proof -
  have a: "\<forall>r \<in> set [0..<32]. r = 0 \<or> r = 10 \<or> r \<in> set guest_numbers"
    unfolding list_all_iff [symmetric] by code_simp
  have m: "r \<in> set [0..<32]" using assms(1) by (simp only: set_upt) simp
  from bspec [OF a m] assms(2,3) show ?thesis by (elim disjE) simp_all
qed

lemma save_load_codes:
  "map (sd_gpr hyp_gpr_offset) hyp_saved = save_regs (\<lambda>r. r) 10 hyp_numbers"
  "map (ld_gpr hyp_gpr_offset) hyp_saved = load_regs (\<lambda>r. r) 10 hyp_numbers"
  "map (sd_gpr guest_gpr_offset) guest_saved = save_regs (\<lambda>r. 37 + r) 10 guest_numbers"
  "map (ld_gpr guest_gpr_offset) guest_saved = load_regs (\<lambda>r. 37 + r) 10 guest_numbers"
  unfolding saved_numbers [symmetric]
  by (simp_all add: save_regs_def load_regs_def sd_gpr_def ld_gpr_def hyp_gpr_offset_def guest_gpr_offset_def algebra_simps)

lemma guest_a0_offset: "guest_gpr_offset A0 = 47 * 8"
  by (simp add: guest_gpr_offset_def)

lemmas csr_offsets = hyp_csr_offset_def guest_csr_offset_def

lemma exec_swap_in:
  assumes ok: "hart_ok h" "length w = 90" and b: "get_gpr 10 h = b"
  shows "\<exists>h'. exec b (swap_in_code guest_exit) (h, w) = Inr (h', w[32 := csrs h Sstatus, 33 := csrs h Hstatus,
      34 := csrs h Scounteren, 35 := csrs h Stvec, 36 := csrs h Sscratch]) \<and> hart_ok h' \<and> get_gpr 10 h' = b \<and>
    csrs h' = (csrs h)(Sstatus := w ! 69, Hstatus := w ! 70, Scounteren := w ! 71, Sepc := w ! 72,
      Stvec := guest_exit, Sscratch := b)"
  unfolding swap_in_code_def csr_offsets using assms by (simp add: get_set_gpr)

lemma exec_swap_out:
  assumes ok: "hart_ok h" "length w = 90" and b: "get_gpr 10 h = b"
  shows "\<exists>h'. exec b swap_out_code (h, w) = Inr (h', w[69 := csrs h Sstatus, 70 := csrs h Hstatus,
      71 := csrs h Scounteren, 72 := csrs h Sepc]) \<and> hart_ok h' \<and> get_gpr 10 h' = b \<and>
    csrs h' = (csrs h)(Sstatus := w ! 32, Hstatus := w ! 33, Scounteren := w ! 34, Stvec := w ! 35, Sscratch := w ! 36)"
  unfolding swap_out_code_def csr_offsets using assms by (simp add: get_set_gpr)

lemma exec_run_guest:
  assumes ok: "hart_ok h" "length w = 90" and b: "get_gpr 10 h = b"
  shows "\<exists>h' w'. exec b (run_guest_code guest_exit) (h, w) = Inr (h', w') \<and> length w' = 90 \<and>
    (\<forall>r \<in> set hyp_numbers. w' ! r = get_gpr r h) \<and>
    w' ! 32 = csrs h Sstatus \<and> w' ! 33 = csrs h Hstatus \<and> w' ! 34 = csrs h Scounteren \<and> w' ! 35 = csrs h Stvec \<and>
    w' ! 36 = csrs h Sscratch \<and> (\<forall>k \<ge> 37. w' ! k = w ! k) \<and>
    hart_ok h' \<and> (\<forall>r. 0 < r \<and> r < 32 \<longrightarrow> get_gpr r h' = w ! (37 + r)) \<and> pc h' = w ! 72 \<and>
    virt h' = bit (w ! 70) 7 \<and> supervisor h' = bit (w ! 69) 8 \<and>
    csrs h' Scounteren = w ! 71 \<and> csrs h' Stvec = guest_exit \<and> csrs h' Sscratch = b"
proof -
  obtain w1 where w1: "exec b (save_regs (\<lambda>r. r) 10 hyp_numbers) (h, w) = Inr (h, w1)" "length w1 = 90"
    "\<forall>r \<in> set hyp_numbers. w1 ! r = get_gpr r h" "\<forall>k. k \<notin> set hyp_numbers \<longrightarrow> w1 ! k = w ! k"
    using exec_save_regs [of 10 h b hyp_numbers "\<lambda>r. r" w] ok b numbers_slots by (auto simp: inj_on_def)
  have hi: "w1 ! k = w ! k" if "37 \<le> k" for k using w1(4) that by (simp add: hyp_numbers_def)
  define w2 where "w2 = w1[32 := csrs h Sstatus, 33 := csrs h Hstatus, 34 := csrs h Scounteren, 35 := csrs h Stvec,
    36 := csrs h Sscratch]"
  obtain h2 where h2: "exec b (swap_in_code guest_exit) (h, w1) = Inr (h2, w2)" "hart_ok h2" "get_gpr 10 h2 = b"
    "csrs h2 = (csrs h)(Sstatus := w ! 69, Hstatus := w ! 70, Scounteren := w ! 71, Sepc := w ! 72, Stvec := guest_exit,
      Sscratch := b)"
    using exec_swap_in [OF ok(1) w1(2) b, of guest_exit] hi unfolding w2_def by auto
  have w2: "length w2 = 90" "w2 ! 32 = csrs h Sstatus" "w2 ! 33 = csrs h Hstatus" "w2 ! 34 = csrs h Scounteren"
    "w2 ! 35 = csrs h Stvec" "w2 ! 36 = csrs h Sscratch" "\<And>k. 37 \<le> k \<Longrightarrow> w2 ! k = w ! k"
    "\<And>k. k < 32 \<Longrightarrow> w2 ! k = w1 ! k"
    unfolding w2_def using w1(2) hi by simp_all
  obtain h3 where h3: "exec b (load_regs (\<lambda>r. 37 + r) 10 guest_numbers) (h2, w2) = Inr (h3, w2)" "hart_ok h3"
    "csrs h3 = csrs h2" "\<forall>r. get_gpr r h3 = (if r \<in> set guest_numbers \<and> r \<noteq> 0 then w2 ! (37 + r) else get_gpr r h2)"
    using exec_load_regs [OF h2(2,3) numbers_facts(5), of w2 "\<lambda>r. 37 + r"] w2(1) numbers_facts(4) numbers_slots(2) by auto
  have a0: "get_gpr 10 h3 = b" using h3(4) h2(3) numbers_facts(5) by simp
  let ?h4 = "sret (set_gpr 10 (w2 ! 47) h3)"
  have e: "exec b (run_guest_code guest_exit) (h, w) = Inr (?h4, w2)"
    unfolding run_guest_code_def save_load_codes exec_append w1(1) bindR_Inr h2(1) h3(1)
    using a0 w2(1) by (simp add: ld_gpr_def guest_a0_offset)
  have g: "get_gpr r ?h4 = w ! (37 + r)" if "0 < r" "r < 32" for r
    using h3(2,4) w2(7) guest_numbers_all [of r] that by (cases "r = 10") (simp_all add: get_set_gpr)
  have low: "w2 ! r = get_gpr r h" if "r \<in> set hyp_numbers" for r
    using w2(8) [of r] w1(3) numbers_facts(1) that by simp
  show ?thesis
    using e g low w2(1-7) h3(2,3) h2(4) by (intro exI [of _ ?h4] exI [of _ w2]) simp
qed

lemma exec_guest_exit:
  assumes ok: "hart_ok g" "length w = 90" and b: "csrs g Sscratch = b"
  shows "\<exists>g1 w1. exec b guest_exit_code (g, w) = Inr (g1, w1) \<and> length w1 = 90 \<and> hart_ok g1 \<and> get_gpr 10 g1 = b \<and>
    csrs g1 = (csrs g)(Sscratch := get_gpr 10 g) \<and> (\<forall>r. 0 < r \<and> r < 32 \<longrightarrow> w1 ! (37 + r) = get_gpr r g) \<and>
    (\<forall>k. k \<le> 37 \<or> 69 \<le> k \<longrightarrow> w1 ! k = w ! k)"
proof -
  define g0 where "g0 = set_gpr 10 b (write_csr Sscratch (get_gpr 10 g) g)"
  have g0: "hart_ok g0" "get_gpr 10 g0 = b" "csrs g0 = (csrs g)(Sscratch := get_gpr 10 g)"
    "\<And>r. r \<noteq> 10 \<Longrightarrow> get_gpr r g0 = get_gpr r g"
    unfolding g0_def using ok by (simp_all add: get_set_gpr)
  have s0: "exec b [Csrrw 10 Sscratch 10] (g, w) = Inr (g0, w)" using b by (simp add: g0_def)
  obtain w1 where w1: "exec b (save_regs (\<lambda>r. 37 + r) 10 guest_numbers) (g0, w) = Inr (g0, w1)" "length w1 = 90"
    "\<forall>r \<in> set guest_numbers. w1 ! (37 + r) = get_gpr r g0" "\<forall>k. k \<notin> (\<lambda>r. 37 + r) ` set guest_numbers \<longrightarrow> w1 ! k = w ! k"
    using exec_save_regs [OF g0(2), of guest_numbers "\<lambda>r. 37 + r" w] ok numbers_slots by (auto simp: inj_on_def)
  have rest: "w1 ! k = w ! k" if "k \<le> 37 \<or> 69 \<le> k" for k
  proof -
    have "k \<notin> (\<lambda>r. 37 + r) ` set guest_numbers" using that by (auto simp: guest_numbers_def)
    then show ?thesis using w1(4) by blast
  qed
  let ?w = "w1[47 := get_gpr 10 g]" and ?g = "set_gpr 5 (get_gpr 10 g) g0"
  have e: "exec b guest_exit_code (g, w) = Inr (?g, ?w)"
    unfolding guest_exit_code_def save_load_codes exec_append s0 bindR_Inr w1(1)
    using g0 w1(2) by (simp add: guest_a0_offset get_set_gpr)
  have "?w ! (37 + r) = get_gpr r g" if "0 < r" "r < 32" for r
    using w1(2,3) g0(4) [of r] guest_numbers_all [of r] that by (cases "r = 10") simp_all
  then show ?thesis using e g0 w1(2) rest by (intro exI [of _ ?g] exI [of _ ?w]) (auto simp: get_set_gpr)
qed

lemma exec_restore_csrs:
  assumes ok: "hart_ok g" "length w = 90" and b: "get_gpr 10 g = b"
  shows "\<exists>h'. exec b restore_csrs_code (g, w) = Inr (h', w[69 := csrs g Sstatus, 70 := csrs g Hstatus,
      71 := csrs g Scounteren, 72 := csrs g Sepc]) \<and> (\<forall>r \<in> set hyp_numbers. get_gpr r h' = w ! r) \<and> get_gpr 10 h' = b \<and>
    pc h' = w ! 1 \<and> csrs h' Sstatus = w ! 32 \<and> csrs h' Hstatus = w ! 33 \<and> csrs h' Scounteren = w ! 34 \<and>
    csrs h' Stvec = w ! 35 \<and> csrs h' Sscratch = w ! 36"
proof -
  define w2 where "w2 = w[69 := csrs g Sstatus, 70 := csrs g Hstatus, 71 := csrs g Scounteren, 72 := csrs g Sepc]"
  obtain g2 where g2: "exec b swap_out_code (g, w) = Inr (g2, w2)" "hart_ok g2" "get_gpr 10 g2 = b"
    "csrs g2 = (csrs g)(Sstatus := w ! 32, Hstatus := w ! 33, Scounteren := w ! 34, Stvec := w ! 35, Sscratch := w ! 36)"
    using exec_swap_out [OF ok b] unfolding w2_def by blast
  have w2: "length w2 = 90" "\<And>k. k < 69 \<Longrightarrow> w2 ! k = w ! k" unfolding w2_def using ok(2) by simp_all
  obtain h3 where h3: "exec b (load_regs (\<lambda>r. r) 10 hyp_numbers) (g2, w2) = Inr (h3, w2)" "csrs h3 = csrs g2"
    "\<forall>r. get_gpr r h3 = (if r \<in> set hyp_numbers \<and> r \<noteq> 0 then w2 ! r else get_gpr r g2)"
    using exec_load_regs [OF g2(2,3) numbers_facts(2), of w2 "\<lambda>r. r"] w2(1) numbers_facts(1) numbers_slots(1) by auto
  let ?h4 = "h3\<lparr>pc := get_gpr 1 h3\<rparr>"
  have e: "exec b restore_csrs_code (g, w) = Inr (?h4, w2)"
    unfolding restore_csrs_code_def save_load_codes exec_append g2(1) bindR_Inr h3(1) by simp
  have hyp: "get_gpr r ?h4 = w ! r" if "r \<in> set hyp_numbers" for r
  proof -
    have "r < 32" "r \<noteq> 0" using numbers_facts(1) that by blast+
    then show ?thesis using h3(3) w2(2) [of r] that by simp
  qed
  have "get_gpr 10 ?h4 = b" using h3(3) g2(3) numbers_facts(2) by simp
  moreover have "pc ?h4 = w ! 1" using hyp [of 1] by (simp add: hyp_numbers_def)
  ultimately show ?thesis using e hyp h3(2) g2(4) unfolding w2_def by (intro exI [of _ ?h4]) simp
qed

section \<open>Properties\<close>

lemma length_vm_words: "vm_ok s \<Longrightarrow> length (vm_words s) = 90"
  by (simp add: vm_ok_def regs_ok_def vm_words_def hyp_words_def guest_words_def vs_words_def virtual_hs_words_def
      trap_words_def)

text \<open>Where the guest's state is in the words.\<close>

lemma vm_words_guest:
  assumes "vm_ok s"
  shows "r < 32 \<Longrightarrow> vm_words s ! (37 + r) = gpr_0 (guest_gprs (guest_regs s)) ! r"
    "vm_words s ! 69 = guest_sstatus (guest_regs s)" "vm_words s ! 70 = guest_hstatus (guest_regs s)"
    "vm_words s ! 71 = guest_scounteren (guest_regs s)" "vm_words s ! 72 = guest_sepc (guest_regs s)"
  using assms by (simp_all add: vm_ok_def regs_ok_def vm_words_def hyp_words_def guest_words_def nth_append)

lemma hyp_numbers_set: "{1, 2, 3, 4, 8, 9} \<union> {11..27} = set hyp_numbers"
proof -
  have l: "[11..<28] = [11, 12, 13, 14, 15, 16, 17, 18, 19, 20, 21, 22, 23, 24, 25, 26, 27::nat]" by (simp add: upt_rec)
  have "x \<in> {11..27} \<longleftrightarrow> x \<in> {11..<28}" for x :: nat unfolding atLeastAtMost_iff atLeastLessThan_iff by linarith
  then have "{11..27} = set [11..<28::nat]" unfolding set_upt by (rule set_eqI)
  then show ?thesis unfolding l hyp_numbers_def by (simp only: list.set) blast
qed

text \<open>A caller, a register state and a guest that has trapped, for the witness.\<close>

definition demo_caller :: hart where
  "demo_caller = \<lparr>gprs = (replicate 32 3)[10 := 0x80300000], csrs = (\<lambda>_. 5), pc = 0, virt = False, supervisor = True\<rparr>"

definition demo_trapped :: hart where
  "demo_trapped = \<lparr>gprs = replicate 32 4, csrs = (\<lambda>_. 0x80300000), pc = 0x80205300, virt = False, supervisor = True\<rparr>"

definition demo_registers :: VmCpuRegisters where
  "demo_registers = \<lparr>hyp_regs = \<lparr>hyp_gprs = GeneralPurposeRegisters (replicate 32 0), hyp_sstatus = 0,
      hyp_hstatus = 0, hyp_scounteren = 0, hyp_stvec = 0, hyp_sscratch = 0\<rparr>,
    guest_regs = \<lparr>guest_gprs = GeneralPurposeRegisters (replicate 32 9), guest_sstatus = 0x100, guest_hstatus = 0x80,
      guest_scounteren = 0, guest_sepc = 0x90200000\<rparr>,
    vs_csrs = \<lparr>vs_htimedelta = 0, vs_vsstatus = 0, vs_vsie = 0, vs_vstvec = 0, vs_vsscratch = 0, vs_vsepc = 0,
      vs_vscause = 0, vs_vstval = 0, vs_vsatp = 0, vs_vstimecmp = 0\<rparr>,
    virtual_hs_csrs = \<lparr>vhs_hie = 0, vhs_hgeie = 0, vhs_hgatp = 0\<rparr>,
    trap_csrs = \<lparr>trap_scause = 0, trap_stval = 0, trap_htval = 0, trap_htinst = 0\<rparr>\<rparr>"

text \<open>
  C18. The context switch: \<open>_run_guest\<close> on a register state enters the guest with all its
  registers, at its program counter and in its mode, and the words of the
  virtualized registers are not touched. Whatever the guest does before it traps to
  \<open>_guest_exit\<close>, as long as \<open>sscratch\<close> is still the address of the register state, the
  switch back stores all the guest's registers and returns to the caller of
  \<open>_run_guest\<close>, with the caller's \<open>ra\<close>, \<open>sp\<close>, \<open>gp\<close>, \<open>tp\<close>, \<open>s0\<close> to \<open>s11\<close> and \<open>a1\<close> to \<open>a7\<close> and with
  its control registers.
\<close>

theorem context_switch_roundtrip:
  assumes ok: "hart_ok h" "vm_ok s" and b: "get_gpr 10 h = b" and g: "hart_ok g" "csrs g Sscratch = b"
  shows "\<exists>h1 w1 h2 w2. exec b (run_guest_code guest_exit) (h, vm_words s) = Inr (h1, w1) \<and>
    (\<forall>r. 0 < r \<and> r < 32 \<longrightarrow> get_gpr r h1 = gpr_0 (guest_gprs (guest_regs s)) ! r) \<and> pc h1 = guest_sepc (guest_regs s) \<and>
    virt h1 = bit (guest_hstatus (guest_regs s)) 7 \<and> supervisor h1 = bit (guest_sstatus (guest_regs s)) 8 \<and>
    csrs h1 Stvec = guest_exit \<and> csrs h1 Sscratch = b \<and>
    exec b (guest_exit_code @ restore_csrs_code) (g, w1) = Inr (h2, w2) \<and>
    (\<forall>r. 0 < r \<and> r < 32 \<longrightarrow> w2 ! (37 + r) = get_gpr r g) \<and> w2 ! 69 = csrs g Sstatus \<and> w2 ! 70 = csrs g Hstatus \<and>
    w2 ! 71 = csrs g Scounteren \<and> w2 ! 72 = csrs g Sepc \<and> drop 73 w2 = drop 73 (vm_words s) \<and>
    pc h2 = get_gpr 1 h \<and> (\<forall>r \<in> {1, 2, 3, 4, 8, 9} \<union> {11..27}. get_gpr r h2 = get_gpr r h) \<and>
    (\<forall>c \<in> {Sstatus, Hstatus, Scounteren, Stvec, Sscratch}. csrs h2 c = csrs h c)"
proof -
  let ?w = "vm_words s"
  note len = length_vm_words [OF ok(2)]
  have nums: "{1, 2, 3, 4, 8, 9} \<union> {11..27} = set hyp_numbers" by (rule hyp_numbers_set)
  obtain h1 w1 where e: "exec b (run_guest_code guest_exit) (h, ?w) = Inr (h1, w1)" "length w1 = 90"
    "\<forall>r \<in> set hyp_numbers. w1 ! r = get_gpr r h" "w1 ! 32 = csrs h Sstatus" "w1 ! 33 = csrs h Hstatus"
    "w1 ! 34 = csrs h Scounteren" "w1 ! 35 = csrs h Stvec" "w1 ! 36 = csrs h Sscratch" "\<forall>k \<ge> 37. w1 ! k = ?w ! k"
    "\<forall>r. 0 < r \<and> r < 32 \<longrightarrow> get_gpr r h1 = ?w ! (37 + r)" "pc h1 = ?w ! 72" "virt h1 = bit (?w ! 70) 7"
    "supervisor h1 = bit (?w ! 69) 8" "csrs h1 Stvec = guest_exit" "csrs h1 Sscratch = b"
    using exec_run_guest [OF ok(1) len b, of guest_exit] by (elim exE conjE) (rule that)
  obtain g1 w' where x: "exec b guest_exit_code (g, w1) = Inr (g1, w')" "length w' = 90" "hart_ok g1" "get_gpr 10 g1 = b"
    "csrs g1 = (csrs g)(Sscratch := get_gpr 10 g)" "\<forall>r. 0 < r \<and> r < 32 \<longrightarrow> w' ! (37 + r) = get_gpr r g"
    "\<forall>k. k \<le> 37 \<or> 69 \<le> k \<longrightarrow> w' ! k = w1 ! k"
    using exec_guest_exit [OF g(1) e(2) g(2)] by blast
  define w2 where "w2 = w'[69 := csrs g1 Sstatus, 70 := csrs g1 Hstatus, 71 := csrs g1 Scounteren, 72 := csrs g1 Sepc]"
  obtain h2 where y: "exec b restore_csrs_code (g1, w') = Inr (h2, w2)" "\<forall>r \<in> set hyp_numbers. get_gpr r h2 = w' ! r"
    "pc h2 = w' ! 1" "csrs h2 Sstatus = w' ! 32" "csrs h2 Hstatus = w' ! 33" "csrs h2 Scounteren = w' ! 34"
    "csrs h2 Stvec = w' ! 35" "csrs h2 Sscratch = w' ! 36"
    using exec_restore_csrs [OF x(3,2,4)] unfolding w2_def by blast
  have w2: "length w2 = 90" "\<forall>r. 0 < r \<and> r < 32 \<longrightarrow> w2 ! (37 + r) = get_gpr r g" "w2 ! 69 = csrs g Sstatus"
    "w2 ! 70 = csrs g Hstatus" "w2 ! 71 = csrs g Scounteren" "w2 ! 72 = csrs g Sepc" "\<And>k. 73 \<le> k \<Longrightarrow> w2 ! k = ?w ! k"
    unfolding w2_def using x(2,5,6,7) e(9) by simp_all
  have d: "drop 73 w2 = drop 73 ?w" using w2(1,7) len by (intro nth_equalityI) simp_all
  have ret: "w' ! r = get_gpr r h" if "r \<in> set hyp_numbers" for r
  proof -
    have "r < 32" using numbers_facts(1) that by blast
    then show ?thesis using x(7) e(3) that by simp
  qed
  have "exec b (guest_exit_code @ restore_csrs_code) (g, w1) = Inr (h2, w2)" using x(1) y(1) by (simp add: exec_append)
  moreover have "pc h2 = get_gpr 1 h" using y(3) ret [of 1] by (simp add: hyp_numbers_def)
  ultimately show ?thesis
    using e(1,4-8,10-15) w2(2-6) d y(2,4-8) ret x(7) vm_words_guest [OF ok(2)] unfolding nums
    by (intro exI [of _ h1] exI [of _ w1] exI [of _ h2] exI [of _ w2]) simp
qed

theorem context_switch_roundtrip_witness:
  "\<exists>h1 w1 h2 w2. exec 0x80300000 (run_guest_code 0x80205300) (demo_caller, vm_words demo_registers) = Inr (h1, w1) \<and>
     pc h1 = 0x90200000 \<and> virt h1 \<and> get_gpr 1 h1 = 9 \<and>
     exec 0x80300000 (guest_exit_code @ restore_csrs_code) (demo_trapped, w1) = Inr (h2, w2) \<and>
     pc h2 = 3 \<and> get_gpr 2 h2 = 3 \<and> w2 ! 38 = 4"
proof -
  have ok: "hart_ok demo_caller" "vm_ok demo_registers" "get_gpr 10 demo_caller = 0x80300000" "hart_ok demo_trapped"
    "csrs demo_trapped Sscratch = 0x80300000"
    by (simp_all add: hart_ok_def vm_ok_def regs_ok_def get_gpr_def demo_caller_def demo_registers_def demo_trapped_def)
  have v: "gpr_0 (guest_gprs (guest_regs demo_registers)) ! 1 = 9" "guest_sepc (guest_regs demo_registers) = 0x90200000"
    "bit (guest_hstatus (guest_regs demo_registers)) 7" "get_gpr 1 demo_caller = 3" "get_gpr 2 demo_caller = 3"
    "get_gpr 1 demo_trapped = 4"
    by (simp_all add: demo_caller_def demo_registers_def demo_trapped_def get_gpr_def bit_iff_odd)
  obtain h1 w1 h2 w2 where e:
    "exec 0x80300000 (run_guest_code 0x80205300) (demo_caller, vm_words demo_registers) = Inr (h1, w1)"
    "\<forall>r. 0 < r \<and> r < 32 \<longrightarrow> get_gpr r h1 = gpr_0 (guest_gprs (guest_regs demo_registers)) ! r"
    "pc h1 = guest_sepc (guest_regs demo_registers)" "virt h1 = bit (guest_hstatus (guest_regs demo_registers)) 7"
    "exec 0x80300000 (guest_exit_code @ restore_csrs_code) (demo_trapped, w1) = Inr (h2, w2)"
    "\<forall>r. 0 < r \<and> r < 32 \<longrightarrow> w2 ! (37 + r) = get_gpr r demo_trapped"
    "pc h2 = get_gpr 1 demo_caller" "\<forall>r \<in> {1, 2, 3, 4, 8, 9} \<union> {11..27}. get_gpr r h2 = get_gpr r demo_caller"
    using context_switch_roundtrip [OF ok, of "0x80205300"] by (elim exE conjE) (rule that)
  have "get_gpr 1 h1 = 9" "w2 ! 38 = 4" using e(2) v(1) spec [OF e(6), of 1] v(6) by simp_all
  moreover have "get_gpr 2 h2 = 3" using e(8) v(5) by simp
  ultimately show ?thesis
    using e(1,3,4,5,7) v(2-4) by (intro exI [of _ h1] exI [of _ w1] exI [of _ h2] exI [of _ w2]) simp
qed

end
