(* ===== verification/Copy_Data.thy ===== *)
theory Copy_Data
  imports Framed_Area
begin

text \<open>
  \<open>copy_data\<close> of \<^verbatim>\<open>src/mm/memory_set.rs\<close>: the loop that copies initial data, page by
  page, to the frames of a new area. It ends, and the data is there.
\<close>

section \<open>One page\<close>

definition data_addr :: "PhysPageNum \<Rightarrow> nat \<Rightarrow> usize" where
  "data_addr p i = get_bytes_array p + word_of_nat (i mod 4096)"

lemma data_addr_page:
  assumes "ppn_ok p"
  shows "unat (data_addr p i - get_bytes_array p) = i mod 4096" "page_of (data_addr p i) = p"
proof -
  have "i mod 4096 < 4096" by simp
  then show "unat (data_addr p i - get_bytes_array p) = i mod 4096"
    by (simp add: data_addr_def unat_word_of_nat_usize)
  then show "page_of (data_addr p i) = p" using in_page_iff [OF assms, of "data_addr p i"] by simp
qed

lemma copy_bytes_page:
  assumes "ppn_ok p" "length bs \<le> 4096"
  shows "page_of b \<noteq> p \<Longrightarrow> copy_bytes (get_bytes_array p) bs m b = m b"
    "q \<noteq> p \<Longrightarrow> page_same q m (copy_bytes (get_bytes_array p) bs m)"
    "i mod 4096 < length bs \<Longrightarrow> copy_bytes (get_bytes_array p) bs m (data_addr p i) = bs ! (i mod 4096)"
proof -
  show other: "copy_bytes (get_bytes_array p) bs m b = m b" if "page_of b \<noteq> p" for b
    using in_page_iff [OF assms(1), of b] that assms(2) by (auto simp: copy_bytes_def)
  show "page_same q m (copy_bytes (get_bytes_array p) bs m)" if "q \<noteq> p" using other that by (auto simp: page_same_def)
  show "copy_bytes (get_bytes_array p) bs m (data_addr p i) = bs ! (i mod 4096)" if "i mod 4096 < length bs"
    using that data_addr_page(1) [OF assms(1)] by (simp add: copy_bytes_def)
qed

section \<open>The loop\<close>

context map_area
begin

text \<open>\<open>f k\<close> is the frame behind page \<open>k\<close> of the area.\<close>

lemma copy_data_loop_copies:
  assumes area: "\<And>k. k < n \<Longrightarrow> f k \<notin> tables p" "inj_on f {..<n}" "l + n \<le> 2 ^ 27" and len: "length data \<le> 4096 * n"
  shows "inv p s \<Longrightarrow> (\<And>k. k < n \<Longrightarrow> \<exists>e. view p s (vp (l + k)) = Some e \<and> pte_ppn e = f k) \<Longrightarrow> j < n \<Longrightarrow> 4096 * j \<le> length data \<Longrightarrow>
   \<exists>s'. copy_data_loop T p data (4096 * j) (vp (l + j)) s = Inr s' \<and> FRAME_ALLOCATOR s' = FRAME_ALLOCATOR s \<and>
     (\<forall>i. 4096 * j \<le> i \<and> i < length data \<longrightarrow> mem s' (data_addr (f (i div 4096)) i) = data ! i) \<and>
     (\<forall>b. (\<forall>k. j \<le> k \<and> k < n \<longrightarrow> page_of b \<noteq> f k) \<longrightarrow> mem s' b = mem s b)"
proof (induction "n - j" arbitrary: j s)
  case 0
  then show ?case by simp
next
  case (Suc d)
  obtain e where e: "view p s (vp (l + j)) = Some e" "pte_ppn e = f j" using Suc.prems(2,3) by blast
  have ok: "ppn_ok (f j)" using e(2) pte_ppn_ok by metis
  let ?stop = "min (length data) (4096 * j + 4096)"
  define src where "src = take (?stop - 4096 * j) (drop (4096 * j) data)"
  have src: "length src = ?stop - 4096 * j" "length src \<le> 4096" "\<And>i. i < length src \<Longrightarrow> src ! i = data ! (4096 * j + i)"
    using Suc.prems(4) by (auto simp: src_def)
  define s1 where "s1 = s\<lparr>mem := copy_bytes (get_bytes_array (f j)) src (mem s)\<rparr>"
  have tr: "pt_translate T p (vp (l + j)) s = Inr (Some e)" by (rule translate_mapped [OF Suc.prems(1) e(1)])
  have step: "copy_data_loop T p data (4096 * j) (vp (l + j)) s =
      (if length data \<le> 4096 * j + 4096 then Inr s1
       else bindR (VirtPageNum_step (vp (l + j))) (\<lambda>v. copy_data_loop T p data (4096 * j + 4096) v s1))"
    using Suc.prems(4) by (subst copy_data_loop.simps) (simp add: tr e(2) s1_def src_def Let_def)
  have suc: "4096 * j + 4096 = 4096 * Suc j" by simp
  note step = step [unfolded suc]
  have t: "alloc_ok base s1" "tables p \<subseteq> live base s1"
    using inv_tables [OF Suc.prems(1)] by (simp_all add: s1_def alloc_ok_def live_def)
  have same: "page_same q (mem s) (mem s1)" if "q \<in> tables p" for q
    using copy_bytes_page(2) [OF ok src(2), of q] area(1) [OF Suc.prems(3)] that unfolding s1_def by fastforce
  have i1: "inv p s1" "view p s1 = view p s" using inv_local [OF Suc.prems(1) t same] by blast+
  have here: "mem s1 (data_addr (f (i div 4096)) i) = data ! i" if "4096 * j \<le> i" "i < ?stop" for i
  proof -
    have d: "i div 4096 = j" "i mod 4096 = i - 4096 * j" "i - 4096 * j < length src"
      using that src(1) by (auto simp: div_nat_eqI minus_div_mult_eq_mod [symmetric] mult.commute)
    then show ?thesis using copy_bytes_page(3) [OF ok src(2), of i] src(3) that(1) by (simp add: s1_def)
  qed
  have rest: "mem s1 b = mem s b" if "page_of b \<noteq> f j" for b using copy_bytes_page(1) [OF ok src(2) that] by (simp add: s1_def)
  show ?case
  proof (cases "length data \<le> 4096 * Suc j")
    case True
    then show ?thesis using step here rest Suc.prems(3) by (auto simp: s1_def)
  next
    case False
    then have j1: "Suc j < n" "4096 * Suc j \<le> length data" "d = n - Suc j" using len Suc.hyps(2) by simp_all
    have sv: "VirtPageNum_step (vp (l + j)) = Inr (vp (l + Suc j))" using step_vp [of "l + j"] area(3) j1(1) by simp
    obtain s' where s': "copy_data_loop T p data (4096 * Suc j) (vp (l + Suc j)) s1 = Inr s'"
      "FRAME_ALLOCATOR s' = FRAME_ALLOCATOR s1"
      "\<forall>i. 4096 * Suc j \<le> i \<and> i < length data \<longrightarrow> mem s' (data_addr (f (i div 4096)) i) = data ! i"
      "\<forall>b. (\<forall>k. Suc j \<le> k \<and> k < n \<longrightarrow> page_of b \<noteq> f k) \<longrightarrow> mem s' b = mem s1 b"
      using Suc.hyps(1) [OF j1(3) i1(1) _ j1(1,2)] Suc.prems(2) unfolding i1(2) by blast
    have "mem s' (data_addr (f (i div 4096)) i) = data ! i" if i: "4096 * j \<le> i" "i < 4096 * Suc j" for i
    proof -
      have d: "i div 4096 = j" using i by (simp add: div_nat_eqI)
      have "page_of (data_addr (f j) i) \<noteq> f k" if "Suc j \<le> k" "k < n" for k
        using data_addr_page(2) [OF ok, of i] inj_onD [OF area(2), of j k] that Suc.prems(3) by auto
      then have "mem s' (data_addr (f j) i) = mem s1 (data_addr (f j) i)" using s'(4) by blast
      then show ?thesis using here [of i] i False d by simp
    qed
    then have "\<forall>i. 4096 * j \<le> i \<and> i < length data \<longrightarrow> mem s' (data_addr (f (i div 4096)) i) = data ! i"
      using s'(3) by (meson not_le)
    moreover have "\<forall>b. (\<forall>k. j \<le> k \<and> k < n \<longrightarrow> page_of b \<noteq> f k) \<longrightarrow> mem s' b = mem s b"
      using s'(4) rest Suc.prems(3) by (metis Suc_leD order.refl)
    ultimately show ?thesis using step False sv s'(1,2) by (simp add: s1_def)
  qed
qed

end

section \<open>Properties\<close>

text \<open>
  C19. An area with initial data: pushing a framed area of at least one page on pages that are
  not mapped, with frames enough and data that fits, ends, and every byte of the data
  is found in the frame of its page, at its offset. The loop of \<open>copy_data\<close> only
  looks at the length of the data, so that it ends for every length.
\<close>

theorem copy_data_copies:
  assumes bound: "l + n \<le> 2 ^ 27" "0 < n" and ok: "ms_ok base (sv39_inv base) sv39_tables ms s"
    and room: "3 * n \<le> free_frames s" and free: "\<And>k. l \<le> k \<Longrightarrow> k < l + n \<Longrightarrow> sv39_view (page_table ms) s (vp k) = None"
    and len: "length data \<le> 4096 * n"
  shows "\<exists>ms' s' a. push Sv39 ms (framed_area l n perm) (Some data) s = Inr (ms', s') \<and> areas ms' = areas ms @ [a] \<and>
    (\<forall>i < length data. \<exists>f. data_frames a (vp (l + i div 4096)) = Some f \<and>
      mem s' (data_addr (ft_ppn f) i) = data ! i)"
proof -
  let ?a = "framed_area l n perm"
  obtain ms1 s1 where p1: "push Sv39 ms ?a None s = Inr (ms1, s1)"
    using sv39_area.push_framed_progress [OF bound(1) ok room free] by blast
  obtain a where a: "areas ms1 = areas ms @ [a]" "a = ?a\<lparr>data_frames := data_frames a\<rparr>" "dom (data_frames a) = vp ` {l..<l + n}"
    "inj_on (data_frames a) (dom (data_frames a))"
    "ms_extends base (sv39_inv base) sv39_view sv39_tables (framed_pairs a) ms s ms1 s1"
    using sv39_area.push_framed [OF bound(1) ok p1] by blast
  let ?p = "page_table ms1" and ?f = "\<lambda>k. ft_ppn (the (data_frames a (vp (l + k))))"
  have some: "\<exists>ft. data_frames a (vp (l + k)) = Some ft" if "k < n" for k using a(3) that by (auto simp: dom_def)
  have fr: "?f k \<in> ms_frames ms1" if "k < n" for k
    using some [OF that] a(1) by (force simp: ms_frames_def area_frames_def intro: ranI)
  have x: "sv39_inv base ?p s1" "sv39_tables ?p \<inter> ms_frames ms1 = {}" "ms_frames ms1 \<subseteq> live base s1"
    using a(5) ms_extends_ok [OF a(5)] by (simp_all add: ms_extends_def ms_ok_def)
  have view: "\<exists>e. sv39_view ?p s1 (vp (l + k)) = Some e \<and> pte_ppn e = ?f k" if k: "k < n" for k
  proof -
    obtain ft where ft: "data_frames a (vp (l + k)) = Some ft" using some [OF k] by blast
    then have "(vp (l + k), PageTableEntry_new (ft_ppn ft) (map_perm a OR PTEFlags_V)) \<in> Map.graph (sv39_view ?p s1)"
      using a(5) by (auto simp: ms_extends_def framed_pairs_def)
    then have "sv39_view ?p s1 (vp (l + k)) = Some (PageTableEntry_new (ft_ppn ft) (map_perm a OR PTEFlags_V))"
      by (simp only: view_graph)
    moreover have "ppn_ok (ft_ppn ft)"
      using fr [OF k] x(3) live_ppn_ok sv39.inv_tables [OF x(1)] ft by fastforce
    ultimately show ?thesis using ft by (simp add: pte_ppn_new)
  qed
  have inj: "inj_on ?f {..<n}"
  proof (rule inj_onI)
    fix j k assume jk: "j \<in> {..<n}" "k \<in> {..<n}" "?f j = ?f k"
    obtain f g where fg: "data_frames a (vp (l + j)) = Some f" "data_frames a (vp (l + k)) = Some g"
      using some jk(1,2) by (metis lessThan_iff)
    then have v: "vp (l + j) = vp (l + k)" using jk(3) inj_onD [OF a(4)] by (metis FrameTracker.expand domI option.sel)
    have small: "l + j < 2 ^ 64" "l + k < 2 ^ 64" using jk(1,2) bound(1) by simp_all
    have "l + j = l + k" using unat_vp [OF small(1)] unat_vp [OF small(2)] unfolding v by (rule trans [OF sym])
    then show "j = k" by simp
  qed
  have no: "?f k \<notin> sv39_tables ?p" if "k < n" for k using fr [OF that] x(2) by blast
  obtain s' where c: "copy_data_loop Sv39 ?p data 0 (vp l) s1 = Inr s'"
    "\<forall>i. i < length data \<longrightarrow> mem s' (data_addr (?f (i div 4096)) i) = data ! i"
    using sv39_area.copy_data_loop_copies [OF no inj bound(1) len x(1) view bound(2)] by auto
  have map: "map_type a = Framed" "get_start (vpn_range a) = vp l" by (subst a(2), simp add: framed_area_def get_start_def)+
  have "push Sv39 ms ?a (Some data) s = Inr (ms1, s')"
    using p1 a(1) c(1) map by (auto simp: push_def copy_data_def)
  moreover have "\<exists>f. data_frames a (vp (l + i div 4096)) = Some f \<and> mem s' (data_addr (ft_ppn f) i) = data ! i"
    if "i < length data" for i
  proof -
    have "i div 4096 < n" using that len by (simp add: less_mult_imp_div_less mult.commute)
    then show ?thesis using some c(2) that by fastforce
  qed
  ultimately show ?thesis using a(1) by blast
qed

theorem copy_data_copies_witness:
  "\<exists>ms' s' a f. push Sv39 \<lparr>page_table = tiny_table, areas = []\<rparr> (framed_area 5 2 MapPermission_R) (Some [7, 8, 9]) tiny_world = Inr (ms', s') \<and>
     areas ms' = [a] \<and> data_frames a (vp 5) = Some f \<and> mem s' (data_addr (ft_ppn f) 1) = 8"
proof -
  let ?ms = "\<lparr>page_table = tiny_table, areas = []\<rparr> :: PageTableSv39 MemorySet"
  have ok: "ms_ok 0x80 (sv39_inv 0x80) sv39_tables ?ms tiny_world" using tiny_inv by (simp add: ms_ok_def ms_frames_def)
  have r: "3 * 2 \<le> free_frames tiny_world" using tiny_free(2) by simp
  obtain ms' s' a where p: "push Sv39 ?ms (framed_area 5 2 MapPermission_R) (Some [7, 8, 9]) tiny_world = Inr (ms', s')"
    "areas ms' = areas ?ms @ [a]" "\<forall>i < length [7, 8, 9 :: u8]. \<exists>f. data_frames a (vp (5 + i div 4096)) = Some f \<and>
      mem s' (data_addr (ft_ppn f) i) = [7, 8, 9] ! i"
    using copy_data_copies [OF _ _ ok r, of 5 "[7, 8, 9]" MapPermission_R] tiny_free(1) by auto
  from spec [OF p(3), of 1] show ?thesis using p(1,2) by auto
qed

end
