(* ===== verification/Format.thy ===== *)
theory Format
  imports Frame_Allocator
begin

text \<open>
  What the \<open>Debug\<close> implementations of \<^verbatim>\<open>src/page_table/address.rs\<close> and
  \<^verbatim>\<open>src/hyp_alloc/frame_allocator.rs\<close> write: a prefix and the number as \<open>{:#x}\<close>
  prints it.
\<close>

section \<open>Numbers\<close>

definition digit_chars :: string where
  "digit_chars = ''0123456789abcdef''"

fun digits :: "nat \<Rightarrow> nat \<Rightarrow> string" where
  "digits b n = (if b < 2 \<or> n < b then [digit_chars ! n] else digits b (n div b) @ [digit_chars ! (n mod b)])"

declare digits.simps [simp del]

definition lower_hex :: "nat \<Rightarrow> string" where
  "lower_hex n = ''0x'' @ digits 16 n"

section \<open>Debug implementations\<close>

definition fmt_VirtAddr :: "VirtAddr \<Rightarrow> string" where
  "fmt_VirtAddr self = ''VA:'' @ lower_hex (unat (va_0 self))"

definition fmt_VirtPageNum :: "VirtPageNum \<Rightarrow> string" where
  "fmt_VirtPageNum self = ''VPN:'' @ lower_hex (unat (vpn_0 self))"

definition fmt_PhysAddr :: "PhysAddr \<Rightarrow> string" where
  "fmt_PhysAddr self = ''PA:'' @ lower_hex (unat (pa_0 self))"

definition fmt_PhysPageNum :: "PhysPageNum \<Rightarrow> string" where
  "fmt_PhysPageNum self = ''PPN:'' @ lower_hex (unat (ppn_0 self))"

definition fmt_FrameTracker :: "FrameTracker \<Rightarrow> string" where
  "fmt_FrameTracker self = ''FrameTracker:PPN='' @ lower_hex (unat (ppn_0 (ft_ppn self)))"

section \<open>Printing loses nothing\<close>

fun find_digit :: "char \<Rightarrow> string \<Rightarrow> nat" where
  "find_digit c [] = 0"
| "find_digit c (d # ds) = (if c = d then 0 else Suc (find_digit c ds))"

definition read_digits :: "nat \<Rightarrow> string \<Rightarrow> nat" where
  "read_digits b s = foldl (\<lambda>n c. n * b + find_digit c digit_chars) 0 s"

lemma find_digit_nth: "distinct ds \<Longrightarrow> k < length ds \<Longrightarrow> find_digit (ds ! k) ds = k"
  by (induction ds arbitrary: k) (auto simp: nth_Cons' in_set_conv_nth split: if_splits)

lemma find_digit_char: "k < 16 \<Longrightarrow> find_digit (digit_chars ! k) digit_chars = k"
  by (rule find_digit_nth) (simp_all add: digit_chars_def)

lemma read_digits_digits: "1 < b \<Longrightarrow> b \<le> 16 \<Longrightarrow> read_digits b (digits b n) = n"
proof (induction b n rule: digits.induct)
  case (1 b n)
  have "n mod b < 16" using "1.prems" mod_less_divisor [of b n] by linarith
  with 1 show ?case
    by (subst digits.simps) (auto simp: read_digits_def find_digit_char)
qed

lemma lower_hex_inj: "lower_hex n = lower_hex k \<longleftrightarrow> n = k"
proof
  assume "lower_hex n = lower_hex k"
  then have "digits 16 n = digits 16 k" unfolding lower_hex_def by (simp only: same_append_eq)
  then have "read_digits 16 (digits 16 n) = read_digits 16 (digits 16 k)" by (rule arg_cong)
  then show "n = k" by (simp only: read_digits_digits)
qed (rule arg_cong)

lemma hex_word_inj: "lower_hex (unat (v :: usize)) = lower_hex (unat w) \<longleftrightarrow> v = w"
  by (simp only: lower_hex_inj usize_eq_iff_unat)

lemma fmt_inj:
  "fmt_VirtAddr a = fmt_VirtAddr a' \<longleftrightarrow> a = a'" "fmt_VirtPageNum v = fmt_VirtPageNum v' \<longleftrightarrow> v = v'"
  "fmt_PhysAddr p = fmt_PhysAddr p' \<longleftrightarrow> p = p'" "fmt_PhysPageNum q = fmt_PhysPageNum q' \<longleftrightarrow> q = q'"
  "fmt_FrameTracker f = fmt_FrameTracker f' \<longleftrightarrow> f = f'"
  by (simp_all only: fmt_VirtAddr_def fmt_VirtPageNum_def fmt_PhysAddr_def fmt_PhysPageNum_def fmt_FrameTracker_def
      same_append_eq hex_word_inj)
    (metis VirtPageNum.collapse PhysAddr.collapse PhysPageNum.collapse VirtAddr.collapse FrameTracker.collapse)+

end
