(* ===== verification/Console.thy ===== *)
theory Console
  imports Sbi Format
begin

text \<open>
  \<^verbatim>\<open>src/console.rs\<close>, text output through the firmware, \<open>shutdown\<close> of \<^verbatim>\<open>src/sbi.rs\<close>, and
  the panic handler of \<^verbatim>\<open>src/lang_items.rs\<close>. Text is the list of its characters, each the
  32 bits of a Rust \<open>char\<close>; the arguments of a macro are the texts that \<open>format_args!\<close>
  makes of its literal and its values, in order. The other theories leave out the
  output of the macros; here it is shown what such a call does to the machine. A
  value \<open>Inl\<close> of the other definitions is a call of \<open>panic\<close>.
\<close>

section \<open>Output\<close>

type_synonym str = "u32 list"

definition str_of :: "string \<Rightarrow> str" where
  "str_of = map of_char"

definition write_str :: "env \<Rightarrow> str \<Rightarrow> machine \<Rightarrow> machine" where
  "write_str E s m = fold (\<lambda>c. console_putchar E (ucast c)) s m"

text \<open>\<open>write_fmt\<close> writes the texts one after the other; \<open>write_str\<close> never fails.\<close>

definition print :: "env \<Rightarrow> str list \<Rightarrow> machine \<Rightarrow> machine" where
  "print E args m = fold (write_str E) args m"

definition newline :: str where
  "newline = [0xa]"

definition println :: "env \<Rightarrow> str list \<Rightarrow> machine \<Rightarrow> machine" where
  "println E args = print E (args @ [newline])"

definition hdebug :: "env \<Rightarrow> str list \<Rightarrow> machine \<Rightarrow> machine" where
  "hdebug E args = print E ([str_of ''[Hypervisor] ''] @ args @ [newline])"

definition hwarning :: "env \<Rightarrow> str list \<Rightarrow> machine \<Rightarrow> machine" where
  "hwarning E args = print E ([str_of ''[Warning] ''] @ args @ [newline])"

definition htracking :: "env \<Rightarrow> str list \<Rightarrow> machine \<Rightarrow> machine" where
  "htracking E args =
     print E ([0x1b # str_of ''[1;32m[Tracking] ''] @ args @ [0x1b # str_of ''[0m'' @ newline])"

definition herror :: "env \<Rightarrow> str list \<Rightarrow> machine \<Rightarrow> machine" where
  "herror E args =
     print E ([0x1b # str_of ''[1;31m[Error] ''] @ args @ [0x1b # str_of ''[0m'' @ newline])"

section \<open>Panics\<close>

text \<open>
  The firmware switches the machine off or returns from the call with an error, which
  \<open>resets\<close> says for the history of calls. When it returns, \<open>unreachable!\<close> panics: \<open>Inl\<close>.
\<close>

definition shutdown :: "env \<Rightarrow> (event list \<Rightarrow> bool) \<Rightarrow> machine \<Rightarrow> machine + machine" where
  "shutdown E resets m =
     (let (_, m') = do_rt E Rt_shutdown m in if resets (events m) then Inr m' else Inl m')"

record PanicInfo =
  location :: "(str \<times> nat) option"
  message :: "str option"

definition panic_text :: "PanicInfo \<Rightarrow> str \<Rightarrow> str list" where
  "panic_text info msg =
     (case location info of
        Some (file, n) \<Rightarrow>
          [0x1b # str_of ''[1;31m[hypervisor] Panicked at '', file, str_of '':'', str_of (digits 10 n), str_of '' '', msg,
           0x1b # str_of ''[0m'']
      | None \<Rightarrow> [str_of ''[kernel] Panicked: '', msg])"

text \<open>
  The panics that the handler itself can raise, at its two \<open>info.message().unwrap()\<close> and
  in \<open>shutdown\<close>. A panic inside the handler calls the handler.
\<close>

definition unwrap_panic :: "nat \<Rightarrow> PanicInfo" where
  "unwrap_panic n = \<lparr>location = Some (str_of ''src/lang_items.rs'', n),
     message = Some (str_of ''called `Option::unwrap()` on a `None` value'')\<rparr>"

definition unreachable_panic :: PanicInfo where
  "unreachable_panic = \<lparr>location = Some (str_of ''src/sbi.rs'', 87),
     message = Some (str_of ''internal error: entered unreachable code'')\<rparr>"

partial_function (option) panic :: "env \<Rightarrow> (event list \<Rightarrow> bool) \<Rightarrow> PanicInfo \<Rightarrow> machine \<Rightarrow> machine option" where
  "panic E resets info m =
     (case message info of
        None \<Rightarrow> panic E resets (unwrap_panic (if location info = None then 17 else 14)) m
      | Some msg \<Rightarrow>
          (case shutdown E resets (println E (panic_text info msg) m) of
             Inr m' \<Rightarrow> Some m'
           | Inl m' \<Rightarrow> panic E resets unreachable_panic m'))"

section \<open>What is written\<close>

definition putchars :: "str \<Rightarrow> event list" where
  "putchars s = map (\<lambda>c. Ecall SBI_CONSOLE_PUTCHAR 0 [ucast c, 0, 0]) (rev s)"

lemma putchars_append: "putchars (s @ t) = putchars t @ putchars s"
  by (simp add: putchars_def)

lemma write_str_events: "write_str E s m = m\<lparr>events := putchars s @ events m\<rparr>"
  by (induction s arbitrary: m)
    (simp_all add: write_str_def putchars_def console_putchar_def sbi_call_def do_ecall_def log_event_def)

text \<open>Nothing but the characters, in order: not where the pieces of the text begin and end.\<close>

lemma print_events: "print E args m = m\<lparr>events := putchars (concat args) @ events m\<rparr>"
  by (induction args arbitrary: m) (simp_all add: print_def write_str_events putchars_append, simp add: putchars_def)

lemmas output_defs = println_def hdebug_def hwarning_def htracking_def herror_def

section \<open>Where a panic ends\<close>

text \<open>
  The history when the handler asks the firmware for the \<open>k\<close>-th time to switch off: the
  panic's own text first, then once more for every request that the firmware refused.
\<close>

definition panic_written :: "PanicInfo \<Rightarrow> event list \<Rightarrow> event list" where
  "panic_written info es = putchars (concat (panic_text info (the (message info))) @ newline) @ es"

primrec requests :: "PanicInfo \<Rightarrow> event list \<Rightarrow> nat \<Rightarrow> event list" where
  "requests info es 0 = panic_written info es"
| "requests info es (Suc k) = requests unreachable_panic (RtCall Rt_shutdown # panic_written info es) k"

lemma unreachable_message: "message unreachable_panic \<noteq> None"
  by (simp add: unreachable_panic_def)

lemma panic_step:
  assumes "message info \<noteq> None"
  shows "panic E resets info m =
    (let es = panic_written info (events m); m' = m\<lparr>events := RtCall Rt_shutdown # es\<rparr> in
     if resets es then Some m' else panic E resets unreachable_panic m')"
  using assms
  by (subst panic.simps)
    (auto simp: output_defs print_events shutdown_def do_rt_def log_event_def panic_written_def Let_def)

lemma panic_off:
  "message info \<noteq> None \<Longrightarrow> resets (requests info (events m) k) \<Longrightarrow> \<forall>j<k. \<not> resets (requests info (events m) j) \<Longrightarrow>
   panic E resets info m = Some (m\<lparr>events := RtCall Rt_shutdown # requests info (events m) k\<rparr>)"
proof (induction k arbitrary: info m)
  case 0
  then show ?case by (simp add: panic_step)
next
  case (Suc k)
  have "\<not> resets (panic_written info (events m))" using Suc.prems(3) by (metis requests.simps(1) zero_less_Suc)
  moreover have "\<forall>j<k. \<not> resets (requests unreachable_panic (RtCall Rt_shutdown # panic_written info (events m)) j)"
    using Suc.prems(3) by (metis Suc_less_eq requests.simps(2))
  ultimately show ?case
    using Suc.prems(1,2) Suc.IH [OF unreachable_message] by (simp add: panic_step)
qed

lemma panic_asked:
  assumes "panic E resets info m = Some m'"
  shows "message info \<noteq> None \<longrightarrow> (\<exists>k. resets (requests info (events m) k))"
proof (rule panic.raw_induct [OF _ assms, of "\<lambda>E resets info m _. message info \<noteq> None \<longrightarrow> (\<exists>k. resets (requests info (events m) k))"])
  fix p E resets info m y
  assume IH: "\<And>E resets info m y. p E resets info m = Some y \<Longrightarrow>
      message info \<noteq> None \<longrightarrow> (\<exists>k. resets (requests info (events m) k))"
    and y: "(case message info of None \<Rightarrow> p E resets (unwrap_panic (if location info = None then 17 else 14)) m
      | Some msg \<Rightarrow> (case shutdown E resets (println E (panic_text info msg) m) of
          Inl m' \<Rightarrow> p E resets unreachable_panic m' | Inr m' \<Rightarrow> Some m')) = Some y"
  let ?es = "panic_written info (events m)"
  show "message info \<noteq> None \<longrightarrow> (\<exists>k. resets (requests info (events m) k))"
  proof (rule impI)
    assume "message info \<noteq> None"
    then have *: "p E resets unreachable_panic (m\<lparr>events := RtCall Rt_shutdown # ?es\<rparr>) = Some y" if "\<not> resets ?es"
      using y that by (auto simp: output_defs print_events shutdown_def do_rt_def log_event_def panic_written_def)
    show "\<exists>k. resets (requests info (events m) k)"
    proof (cases "resets (requests info (events m) 0)")
      case False
      with IH [OF *] unreachable_message obtain k where "resets (requests info (events m) (Suc k))" by auto
      then show ?thesis by blast
    qed blast
  qed
qed

text \<open>
  C40. A panic prints where and why and asks the firmware to switch off, and ends at the
  first request that the firmware honours, with nothing of the machine changed but the
  history of calls. When the firmware refuses, \<open>unreachable!\<close> panics again, so that the
  handler never ends if every request is refused.
\<close>

theorem panic_halts:
  assumes "message info \<noteq> None"
  shows "(\<forall>k. resets (requests info (events m) k) \<and> (\<forall>j<k. \<not> resets (requests info (events m) j)) \<longrightarrow>
       panic E resets info m = Some (m\<lparr>events := RtCall Rt_shutdown # requests info (events m) k\<rparr>)) \<and>
    (panic E resets info m = None \<longleftrightarrow> (\<forall>k. \<not> resets (requests info (events m) k)))"
proof -
  let ?P = "\<lambda>k. resets (requests info (events m) k)"
  have "panic E resets info m \<noteq> None" if "?P k" for k
  proof -
    have "?P (LEAST k. ?P k)" by (rule LeastI [of ?P, OF that])
    moreover have "\<forall>j < (LEAST k. ?P k). \<not> ?P j" by (intro allI impI) (rule not_less_Least)
    ultimately show ?thesis using panic_off [of info resets m "LEAST k. ?P k" E] assms by (simp only: not_None_eq) blast
  qed
  moreover have "\<exists>k. ?P k" if "panic E resets info m \<noteq> None"
    using that assms panic_asked [of E resets info m] by (elim not_None_eq [THEN iffD1, elim_format] exE) simp
  ultimately have "panic E resets info m = None \<longleftrightarrow> (\<forall>k. \<not> ?P k)" by (metis (no_types))
  moreover have "\<forall>k. ?P k \<and> (\<forall>j<k. \<not> ?P j) \<longrightarrow>
      panic E resets info m = Some (m\<lparr>events := RtCall Rt_shutdown # requests info (events m) k\<rparr>)"
    by (intro allI impI, elim conjE) (rule panic_off [of info resets m _ E, OF assms])
  ultimately show ?thesis by (intro conjI)
qed

theorem panic_halts_witness:
  "\<forall>E m. panic E (\<lambda>_. True) \<lparr>location = None, message = Some []\<rparr> m =
       Some (m\<lparr>events := RtCall Rt_shutdown # putchars (str_of ''[kernel] Panicked: '' @ newline) @ events m\<rparr>) \<and>
     panic E (\<lambda>_. False) \<lparr>location = None, message = Some []\<rparr> m = None"
proof (intro allI conjI)
  fix E and m :: machine
  let ?info = "\<lparr>location = None, message = Some []\<rparr> :: PanicInfo"
  have i: "message ?info \<noteq> None" by simp
  have "requests ?info (events m) 0 = putchars (str_of ''[kernel] Panicked: '' @ newline) @ events m"
    by (simp add: panic_written_def panic_text_def)
  then show "panic E (\<lambda>_. True) ?info m =
      Some (m\<lparr>events := RtCall Rt_shutdown # putchars (str_of ''[kernel] Panicked: '' @ newline) @ events m\<rparr>)"
    using panic_halts [OF i, of "\<lambda>_. True" m E] by (metis less_zeroE)
  show "panic E (\<lambda>_. False) ?info m = None"
    using panic_halts [OF i, of "\<lambda>_. False" m E] by blast
qed

end
