(* ===== verification/Frame_Test.thy ===== *)
theory Frame_Test
  imports Frame_Allocator
begin

text \<open>
  \<open>frame_allocator_test\<close> of \<^verbatim>\<open>src/hyp_alloc/frame_allocator.rs\<close>, the self test of the frame
  allocator: five frames, given back by \<open>clear\<close>, and five again. A vector drops its
  elements from the first to the last.
\<close>

section \<open>The test\<close>

fun push_frames :: "nat \<Rightarrow> FrameTracker list \<Rightarrow> 'x world_scheme \<Rightarrow> (FrameTracker list \<times> 'x world_scheme) result" where
  "push_frames 0 v s = Inr (v, s)"
| "push_frames (Suc n) v s = bindR (frame_alloc_unwrap s) (\<lambda>(frame, s'). push_frames n (v @ [frame]) s')"

definition drop_vec :: "FrameTracker list \<Rightarrow> 'x world_scheme \<Rightarrow> 'x world_scheme result" where
  "drop_vec v s = foldR FrameTracker_drop v s"

definition frame_allocator_test :: "'x world_scheme \<Rightarrow> 'x world_scheme result" where
  "frame_allocator_test s =
     bindR (push_frames 5 [] s) (\<lambda>(v, s).
     bindR (drop_vec v s) (\<lambda>s.
     bindR (push_frames 5 [] s) (\<lambda>(v, s).
     drop_vec v s)))"

section \<open>It passes\<close>

definition holds :: "nat \<Rightarrow> FrameTracker list \<Rightarrow> PhysPageNum set \<Rightarrow> nat \<Rightarrow> 'x world_scheme \<Rightarrow> bool" where
  "holds base v L n s \<longleftrightarrow> alloc_ok base s \<and> distinct (map ft_ppn v) \<and> ft_ppn ` set v \<inter> L = {} \<and>
     live base s = ft_ppn ` set v \<union> L \<and> length v + free_frames s = n"

lemma holds_push:
  "holds base v L n s \<Longrightarrow> k \<le> free_frames s \<Longrightarrow> \<exists>v' s'. push_frames k v s = Inr (v', s') \<and> holds base v' L n s'"
proof (induction k arbitrary: v s)
  case (Suc k)
  then have ok: "alloc_ok base s" by (simp add: holds_def)
  obtain f s' where f: "frame_alloc_unwrap s = Inr (f, s')"
    using frame_alloc_unwrap_progress [OF ok] Suc.prems(2) by auto
  note c = frame_alloc_unwrap_cases [OF ok f]
  have "holds base (v @ [f]) L n s'" using Suc.prems(1) c unfolding holds_def by auto
  then show ?case using Suc.IH [of "v @ [f]" s'] Suc.prems(2) c(5) f by simp
qed simp

lemma holds_drop: "holds base v L n s \<Longrightarrow> \<exists>s'. drop_vec v s = Inr s' \<and> holds base [] L n s'"
proof (induction v arbitrary: s)
  case (Cons f v)
  then obtain fa where fa: "FRAME_ALLOCATOR s = Some fa" "fa_inv base fa" "ft_ppn f \<in> fa_live base fa"
    by (auto simp: holds_def alloc_ok_def live_def)
  obtain fa' where d: "dealloc fa (ft_ppn f) = Inr fa'" "fa_inv base fa'" "fa_live base fa' = fa_live base fa - {ft_ppn f}"
    "fa_free fa' = Suc (fa_free fa)"
    using stack.dealloc_live [OF fa(2,3)] by auto
  let ?s = "s\<lparr>FRAME_ALLOCATOR := Some fa'\<rparr>"
  have "FrameTracker_drop f s = Inr ?s" using fa d by (simp add: FrameTracker_drop_def frame_dealloc_def)
  moreover have "holds base v L n ?s"
    using Cons.prems fa d unfolding holds_def by (auto simp: alloc_ok_def live_def free_frames_def)
  ultimately show ?case using Cons.IH [of ?s] by (simp add: drop_vec_def)
qed (simp add: drop_vec_def)

lemma frame_allocator_test_passes:
  assumes "alloc_ok base s" "5 \<le> free_frames s"
  shows "\<exists>s'. frame_allocator_test s = Inr s' \<and> alloc_ok base s' \<and> live base s' = live base s \<and> free_frames s' = free_frames s"
proof -
  let ?H = "\<lambda>v. holds base v (live base s) (free_frames s)"
  have h: "?H [] s" using assms(1) by (simp add: holds_def)
  obtain v s1 where v: "push_frames 5 [] s = Inr (v, s1)" "?H v s1" using holds_push [OF h assms(2)] by blast
  obtain s2 where s2: "drop_vec v s1 = Inr s2" "?H [] s2" using holds_drop [OF v(2)] by blast
  have "5 \<le> free_frames s2" using s2(2) assms(2) by (simp add: holds_def)
  then obtain v' s3 where v': "push_frames 5 [] s2 = Inr (v', s3)" "?H v' s3" using holds_push [OF s2(2)] by blast
  obtain s4 where s4: "drop_vec v' s3 = Inr s4" "?H [] s4" using holds_drop [OF v'(2)] by blast
  then show ?thesis unfolding frame_allocator_test_def v s2 v' bindR_Inr prod.case by (auto simp: holds_def)
qed

end
