(* ===== verification/Up_Cell.thy ===== *)
theory Up_Cell
  imports Prelude
begin

text \<open>
  \<^verbatim>\<open>src/sync/up.rs\<close>: \<open>UPSafeCell\<close>, a \<open>RefCell\<close> for a single hart. The cell remembers whether
  a mutable borrow is out; \<open>borrow_mut\<close> panics while one is, and the borrow ends when the
  \<open>RefMut\<close> is dropped, which writes the value back. No other source uses the cell.
\<close>

record 'a UPSafeCell =
  inner :: 'a
  borrowed :: bool

definition UPSafeCell_new :: "'a \<Rightarrow> 'a UPSafeCell" where
  "UPSafeCell_new v = \<lparr>inner = v, borrowed = False\<rparr>"

definition exclusive_access :: "'a UPSafeCell \<Rightarrow> ('a \<times> 'a UPSafeCell) result" where
  "exclusive_access self =
     (if borrowed self then Inl ExplicitPanic else Inr (inner self, self\<lparr>borrowed := True\<rparr>))"

definition drop_ref :: "'a \<Rightarrow> 'a UPSafeCell \<Rightarrow> 'a UPSafeCell" where
  "drop_ref v self = self\<lparr>inner := v, borrowed := False\<rparr>"

definition with_access :: "('a \<Rightarrow> ('b \<times> 'a) result) \<Rightarrow> 'a UPSafeCell \<Rightarrow> ('b \<times> 'a UPSafeCell) result" where
  "with_access f self =
     bindR (exclusive_access self) (\<lambda>(v, self'). bindR (f v) (\<lambda>(r, v'). Inr (r, drop_ref v' self')))"

text \<open>
  One access after the other acts on the value and leaves the cell free; an access inside
  another one panics.
\<close>

lemma with_access_free:
  "with_access f (UPSafeCell_new v) = bindR (f v) (\<lambda>(r, v'). Inr (r, UPSafeCell_new v'))"
  by (simp add: with_access_def exclusive_access_def UPSafeCell_new_def drop_ref_def)

lemma nested_access_panics:
  "exclusive_access self = Inr (v, self') \<Longrightarrow> exclusive_access self' = Inl ExplicitPanic"
  by (auto simp: exclusive_access_def split: if_splits)

end
