(* ===== verification/Iommu.thy ===== *)
theory Iommu
  imports Constants
begin

text \<open>
  \<^verbatim>\<open>src/drivers/iommu/\<close>: device identifiers and how they index the device directory, and
  the register file of the IOMMU as a \<open>repr(C)\<close> structure with its bit fields. The
  sources define these and do not use them yet.
\<close>

section \<open>Device identifiers\<close>

definition DEVICE_ID_BITS :: nat where [simp]: "DEVICE_ID_BITS = 24"
definition LEAF_INDEX_BITS :: nat where [simp]: "LEAF_INDEX_BITS = 6"
definition NON_LEAF_INDEX_BITS :: nat where [simp]: "NON_LEAF_INDEX_BITS = 9"

datatype DeviceId = DeviceId (did_0: u32)

definition DeviceId_new :: "u32 \<Rightarrow> DeviceId option" where
  "DeviceId_new val = (if val AND NOT (push_bit DEVICE_ID_BITS 1 - 1) = 0 then Some (DeviceId val) else None)"

definition DeviceId_bits :: "DeviceId \<Rightarrow> u32" where
  "DeviceId_bits self = did_0 self"

text \<open>A shift by the width of the type or more panics.\<close>

definition level_index_bits :: "DeviceId \<Rightarrow> usize \<Rightarrow> usize result" where
  "level_index_bits self level =
     (if level = 0 then Inr (ucast (did_0 self) AND (push_bit LEAF_INDEX_BITS 1 - 1))
      else
        bindR (checked_sub level 1) (\<lambda>l.
        bindR (checked_mul (word_of_nat NON_LEAF_INDEX_BITS) l) (\<lambda>x.
        bindR (checked_add (word_of_nat LEAF_INDEX_BITS) x) (\<lambda>shift.
        if unat shift < 64
        then Inr (drop_bit (unat shift) (ucast (did_0 self)) AND (push_bit NON_LEAF_INDEX_BITS 1 - 1))
        else Inl Overflow))))"

section \<open>Registers\<close>

text \<open>A field of a register: its offset and its number of bits.\<close>

type_synonym bitfield = "string \<times> nat \<times> nat"

definition Capabilities :: "bitfield list" where
  "Capabilities = [(''Version'', 0, 8), (''Sv32'', 8, 1), (''Sv39'', 9, 1), (''Sv48'', 10, 1), (''Sv57'', 11, 1),
     (''Sv32x4'', 16, 1), (''Sv39x4'', 17, 1), (''Sv48x4'', 18, 1), (''Sv57x4'', 19, 1), (''MsiFlat'', 22, 1), (''MsiMrif'', 23, 1)]"

definition DirectoryPointer :: "bitfield list" where
  "DirectoryPointer = [(''Mode'', 0, 4), (''Busy'', 4, 1), (''Ppn'', 10, 44)]"

definition QueueBase :: "bitfield list" where
  "QueueBase = [(''Log2SzMinus1'', 0, 5), (''Ppn'', 10, 44)]"

definition CqControl :: "bitfield list" where
  "CqControl = [(''Enable'', 0, 1), (''InterruptEnable'', 1, 1), (''MemoryFault'', 8, 1), (''CommandTimeout'', 9, 1),
     (''CommandIllegal'', 10, 1), (''On'', 16, 1), (''Busy'', 17, 1)]"

text \<open>The fields of \<open>IommuRegisters\<close> with the size of their type and the number of elements.\<close>

definition IommuRegisters :: "(string \<times> nat \<times> nat) list" where
  "IommuRegisters = [(''capabilities'', 8, 1), (''fctrl'', 4, 1), (''_reserved0'', 4, 1), (''ddtp'', 8, 1), (''cqb'', 8, 1),
     (''cqh'', 4, 1), (''cqt'', 4, 1), (''fqb'', 8, 1), (''fqh'', 4, 1), (''fqt'', 4, 1), (''pqb'', 8, 1), (''pqh'', 4, 1),
     (''pqt'', 4, 1), (''cqcsr'', 4, 1), (''fqcsr'', 4, 1), (''pqcsr'', 4, 1), (''ipsr'', 4, 1), (''_reserved1'', 4, 1002)]"

text \<open>
  The layout that \<open>repr(C)\<close> prescribes: a field starts at the next multiple of its
  alignment, which for these types is the size of the element, and the size of the
  structure is a multiple of the largest alignment.
\<close>

definition align_up :: "nat \<Rightarrow> nat \<Rightarrow> nat" where
  "align_up n a = (n + a - 1) div a * a"

fun field_offsets :: "nat \<Rightarrow> (string \<times> nat \<times> nat) list \<Rightarrow> (string \<times> nat) list" where
  "field_offsets n [] = []"
| "field_offsets n ((name, sz, k) # fs) =
     (name, align_up n sz) # field_offsets (align_up n sz + sz * k) fs"

fun fields_end :: "nat \<Rightarrow> (string \<times> nat \<times> nat) list \<Rightarrow> nat" where
  "fields_end n [] = n"
| "fields_end n ((name, sz, k) # fs) = fields_end (align_up n sz + sz * k) fs"

definition size_of_fields :: "(string \<times> nat \<times> nat) list \<Rightarrow> nat" where
  "size_of_fields fs = align_up (fields_end 0 fs) (foldr max (map (\<lambda>(_, sz, _). sz) fs) 1)"

definition assert_register_layout :: "unit result" where
  "assert_register_layout = assertR (size_of_fields IommuRegisters = 4096)"

section \<open>Properties\<close>

text \<open>Fields of a register fit into it and do not overlap.\<close>

fun fields_fit :: "nat \<Rightarrow> nat \<Rightarrow> bitfield list \<Rightarrow> bool" where
  "fields_fit from width [] \<longleftrightarrow> from \<le> width"
| "fields_fit from width ((_, start, n) # fs) \<longleftrightarrow> from \<le> start \<and> 0 < n \<and> fields_fit (start + n) width fs"

lemma register_fields:
  "fields_fit 0 64 Capabilities" "fields_fit 0 64 DirectoryPointer" "fields_fit 0 64 QueueBase" "fields_fit 0 32 CqControl"
  by (simp_all add: Capabilities_def DirectoryPointer_def QueueBase_def CqControl_def)

lemma register_offsets:
  "assert_register_layout = Inr ()"
  "map_of (field_offsets 0 IommuRegisters) ''ddtp'' = Some 16" "map_of (field_offsets 0 IommuRegisters) ''cqcsr'' = Some 72"
  by (simp_all add: assert_register_layout_def size_of_fields_def IommuRegisters_def align_up_def assertR_def)

lemma unat_u32_mask: "unat ((w :: u32) AND mask n) = unat w mod 2 ^ n"
  by (simp add: unsigned_take_bit_eq flip: take_bit_eq_mask take_bit_eq_mod)

lemma DeviceId_new_iff: "DeviceId_new val = Some d \<longleftrightarrow> unat val < 2 ^ 24 \<and> d = DeviceId val"
proof -
  have m: "push_bit DEVICE_ID_BITS (1 :: u32) - 1 = mask 24"
    by (simp add: mask_eq_exp_minus_1)
  have "val AND NOT (mask 24) = 0 \<longleftrightarrow> val = val AND mask 24"
    by (auto simp: bit_eq_iff bit_simps)
  also have "\<dots> \<longleftrightarrow> unat val = unat val mod 2 ^ 24"
    by (simp only: word_unat_eq_iff unat_u32_mask)
  also have "\<dots> \<longleftrightarrow> unat val < 2 ^ 24"
    by (simp add: mod_eq_self_iff_div_eq_0 eq_commute [of "unat val"] div_eq_0_iff)
  finally show ?thesis
    unfolding DeviceId_new_def m by auto
qed

lemma level_zero_value: "level_index_bits d 0 = Inr (ucast (did_0 d) AND mask 6)"
  by (simp add: level_index_bits_def mask_eq_exp_minus_1)

lemma level_value:
  assumes "0 < level" and "level < 8"
  shows "level_index_bits d (word_of_nat level) = Inr (drop_bit (6 + 9 * (level - 1)) (ucast (did_0 d)) AND mask 9)"
proof -
  from assms have "level \<in> {1, 2, 3, 4, 5, 6, 7}" by auto
  then show ?thesis
    by (auto simp: level_index_bits_def bindR_def checked_sub_def checked_mul_def checked_add_def mask_eq_exp_minus_1)
qed

text \<open>
  \<open>DeviceId::new\<close> accepts exactly the values of 24 bits, and the indices that
  \<open>level_index_bits\<close> gives for the three levels of the device directory are in range for the
  leaf table and the two intermediate ones and together determine the identifier. No index
  exists from level 8 on, where the shift overflows.
\<close>

lemma device_id_indexes:
  assumes "DeviceId_new val = Some d"
  shows "DeviceId_bits d = val \<and> unat val < 2 ^ DEVICE_ID_BITS \<and>
    (\<exists>i0 i1 i2. level_index_bits d 0 = Inr i0 \<and> level_index_bits d 1 = Inr i1 \<and> level_index_bits d 2 = Inr i2 \<and>
       unat i0 < 2 ^ LEAF_INDEX_BITS \<and> unat i1 < 2 ^ NON_LEAF_INDEX_BITS \<and> unat i2 < 2 ^ NON_LEAF_INDEX_BITS \<and>
       unat val = unat i0 + 2 ^ LEAF_INDEX_BITS * (unat i1 + 2 ^ NON_LEAF_INDEX_BITS * unat i2)) \<and>
    level_index_bits d 8 = Inl Overflow"
proof -
  from assms have v: "unat val < 2 ^ 24" and d: "did_0 d = val" by (auto simp: DeviceId_new_iff)
  have u: "unat (ucast val :: usize) = unat val"
    using v by (simp add: unsigned_ucast_eq unsigned_take_bit_eq take_bit_nat_eq_self)
  let ?i0 = "ucast val AND mask 6 :: usize" and ?i1 = "drop_bit 6 (ucast val) AND mask 9 :: usize"
    and ?i2 = "drop_bit 15 (ucast val) AND mask 9 :: usize"
  have i0: "unat ?i0 = unat val mod 64"
    by (simp only: unat_and_mask u) simp
  have i1: "unat ?i1 = unat val div 64 mod 512"
    by (simp only: unat_and_mask unat_drop_bit u) simp
  have i2: "unat ?i2 = unat val div 32768"
    using v by (simp only: unat_and_mask unat_drop_bit u) (simp add: less_mult_imp_div_less)
  have "level_index_bits d 0 = Inr ?i0" "level_index_bits d 1 = Inr ?i1" "level_index_bits d 2 = Inr ?i2"
    using level_zero_value [of d] level_value [of 1 d] level_value [of 2 d] by (simp_all add: d)
  moreover have "unat val = unat ?i0 + 2 ^ 6 * (unat ?i1 + 2 ^ 9 * unat ?i2)"
  proof -
    have "unat val div 64 div 512 = unat val div 32768"
      by (simp add: div_mult2_eq [symmetric])
    moreover have "unat val = unat val mod 64 + 64 * (unat val div 64)"
      by simp
    moreover have "unat val div 64 = unat val div 64 mod 512 + 512 * (unat val div 64 div 512)"
      by (rule mod_mult_div_eq [symmetric])
    ultimately show ?thesis
      unfolding i0 i1 i2 by simp
  qed
  moreover have "unat ?i0 < 2 ^ 6" "unat ?i1 < 2 ^ 9" "unat ?i2 < 2 ^ 9"
    unfolding i0 i1 i2 using v by (simp_all add: less_mult_imp_div_less)
  moreover have "level_index_bits d 8 = Inl Overflow"
    by (simp add: level_index_bits_def bindR_def checked_sub_def checked_mul_def checked_add_def)
  ultimately show ?thesis
    using v by (simp only: DeviceId_bits_def d DEVICE_ID_BITS_def LEAF_INDEX_BITS_def NON_LEAF_INDEX_BITS_def) blast
qed

end
