(* ===== verification/Spec2Isabelle.thy ===== *)
theory Spec2Isabelle
  imports Link Sbi_Correct Plic_Correct Run_Guest Copy_Data Console Frame_Test Csr_Numbers Up_Cell Iommu
begin

text \<open>
  \<^bold>\<open>Hypocaust-2: a type-1 hypervisor for RISC-V with the H extension.\<close>

  The program boots on hart 0, checks that the hart has the extension, builds its own
  Sv39 page table and a second-stage page table for one guest, and enters the guest. From
  then on it runs only when the guest traps: it saves the guest's registers, handles
  the trap (an SBI call, an access to the interrupt controller, a timer or external
  interrupt, an exception to be forwarded), and returns to the guest. This library
  models the program file by file and proves what makes it a hypervisor: that it
  reaches the guest, that a guest whose device tree keeps off the hypervisor's memory never
  gets at that memory, and that each exit does what the guest is promised. Paths below are relative to \<^verbatim>\<open>src/src\<close>.

  \<^bold>\<open>Conventions.\<close> Machine integers are words. The sources are built with the debug profile:
  arithmetic that overflows panics, and is written with \<open>checked_add\<close>, \<open>checked_sub\<close>,
  \<open>checked_mul\<close>. Every panic, failed \<open>unwrap\<close>, failed assertion, index out of range,
  \<open>todo!\<close>, or lock taken twice is a value \<open>Inl\<close> of \<open>'a result\<close>. State is passed explicitly: \<open>world\<close>
  is physical memory and the frame allocator, \<open>machine\<close> extends it by the hart, the
  calls made to the outside (newest first), the trap context and the global \<open>HOST_VMM\<close>
  with its lock. The frame allocator, the trap context and \<open>HOST_VMM\<close> are fields of the
  state and not bytes of its memory; in the program they lie in the data of the image
  and in one of the hypervisor's frames, which \<open>image_apart\<close> and \<open>boot_ok\<close> keep off the
  guest's regions. A trait is a record of functions (\<open>PageTable\<close>, \<open>GuestPageTable\<close>,
  \<open>MemorySet_trait\<close>) and an \<open>impl\<close> a value of it (\<open>Sv39\<close>). Code outside the repository is
  an argument: \<open>env\<close> (firmware, devices, instruction decoder, setters of the crate
  \<open>riscv\<close>), \<open>fdt_crate\<close>, \<open>elf_crate\<close>; what is assumed of it are \<open>setters_ok\<close> and \<open>decoder_ok\<close>.
  Assembly is a list of \<open>instr\<close> run by \<open>exec\<close> on a hart and the words of the structure
  it addresses. Where assembly calls or enters compiled code, the registers that this
  code may use get arbitrary values (\<open>clobber\<close> with the field \<open>leftover\<close> of \<open>env\<close>): the
  caller-saved ones in \<open>on_detect_trap\<close>, all but \<open>tp\<close> in \<open>vm_exit\<close>. That compiled code does not
  write \<open>tp\<close> is the calling convention.

  \<^bold>\<open>Definitions.\<close>
  \<^item> \<open>Prelude\<close>, \<open>Constants\<close>, \<open>Csr_Numbers\<close>: results and checked arithmetic; \<^verbatim>\<open>constants.rs\<close>,
    \<^verbatim>\<open>boards/qemu.rs\<close>.
  \<^item> \<open>Address\<close>, \<open>Phys_Memory\<close>, \<open>Pte\<close>, \<open>Format\<close>: \<^verbatim>\<open>page_table/address.rs\<close>, byte memory,
    \<^verbatim>\<open>page_table/pte.rs\<close>, the \<open>Debug\<close> output.
  \<^item> \<open>Frame_Allocator\<close>, \<open>Frame_Test\<close>: \<^verbatim>\<open>hyp_alloc/frame_allocator.rs\<close>.
  \<^item> \<open>Sv39\<close>: \<^verbatim>\<open>page_table/sv39.rs\<close>, \<^verbatim>\<open>page_table/mod.rs\<close>.
  \<^item> \<open>Machine\<close>: \<^verbatim>\<open>hypervisor.rs\<close>, module \<^verbatim>\<open>fdt\<close>.
  \<^item> \<open>Memory_Set\<close>: \<^verbatim>\<open>mm/memory_set.rs\<close>, \<^verbatim>\<open>mm/mod.rs\<close>.
  \<^item> \<open>Registers\<close>, \<open>Hart\<close>: the register file of \<^verbatim>\<open>constants.rs\<close>; the hart, its CSRs, traps and
    \<open>sret\<close>, and the instructions that the assembly uses.
  \<^item> \<open>Environment\<close>: \<^verbatim>\<open>error.rs\<close> and the interface to what is not in the repository.
  \<^item> \<open>Context\<close>, \<open>Run_Guest\<close>: \<^verbatim>\<open>guest/context.rs\<close> with \<^verbatim>\<open>guest/trap.S\<close> and \<^verbatim>\<open>guest/guest.S\<close>.
  \<^item> \<open>Hypervisor\<close>: \<^verbatim>\<open>hypervisor.rs\<close>, \<^verbatim>\<open>guest/mod.rs\<close> (\<open>Guest\<close>), \<^verbatim>\<open>guest/vcpu.rs\<close>.
  \<^item> \<open>Plic\<close>, \<open>Sbi\<close>, \<open>Guest_Translation\<close>, \<open>Vmexit\<close>: \<^verbatim>\<open>device_emu/plic.rs\<close>, \<^verbatim>\<open>sbi.rs\<close> and
    \<^verbatim>\<open>guest/sbi.rs\<close>, \<^verbatim>\<open>guest/mod.rs\<close> (\<open>pmap\<close>), \<^verbatim>\<open>guest/vmexit.rs\<close>. \<open>vm_exit\<close> is a whole exit:
    \<open>__alltraps\<close>, \<open>trap_handler\<close>, \<open>__restore\<close>.
  \<^item> \<open>Detect\<close>, \<open>Boot\<close>, \<open>Link\<close>: \<^verbatim>\<open>detect.rs\<close>, \<^verbatim>\<open>main.rs\<close>, \<^verbatim>\<open>linker-qemu.ld\<close>.
  \<^item> \<open>Console\<close>, \<open>Up_Cell\<close>, \<open>Iommu\<close>: \<^verbatim>\<open>console.rs\<close> and \<^verbatim>\<open>lang_items.rs\<close>, \<^verbatim>\<open>sync/up.rs\<close>,
    \<^verbatim>\<open>drivers/iommu\<close>.

  \<^bold>\<open>Contracts.\<close> \<open>frame_pool\<close> is what a frame allocator promises (\<open>StackFrameAllocator\<close>
  implements it), \<open>step_by_one\<close> what a range iterates over, \<open>page_table_contract\<close> that a page
  table is a partial map from page numbers to entries which \<open>map\<close> and \<open>unmap\<close> update
  and which changes elsewhere do not disturb, \<open>guest_page_table_contract\<close> the same for a
  guest's root of four pages. \<open>map_area\<close> holds the lemmas on areas and memory sets over
  any such table. All are interpreted on the definitions of the program: \<open>Sv39_Tree\<close>,
  \<open>Sv39_Correct\<close>, \<open>Sv39_Guest\<close> and \<open>Sv39x4\<close> show that \<open>PageTableSv39\<close> implements them, with the
  tree of tables in memory behind \<open>sv39_view\<close>; \<open>Sv39_Walk\<close> relates the two walks of
  the sources to it.

  \<^bold>\<open>What is shown.\<close>
  \<^item> Memory: the allocator hands out exclusive frames; \<open>map\<close> and \<open>unmap\<close> refine the update
    of a map; \<open>Memory_Set_Correct\<close>, \<open>Guest_Memory\<close>, \<open>Framed_Area\<close>, \<open>Host_Memory\<close>, \<open>Copy_Data\<close> give
    the exact contents of the two address spaces, that building them succeeds when
    memory suffices, that no page of the hypervisor is writable and executable, and
    that \<open>copy_data\<close> ends and copies.
  \<^item> Exits: \<open>Vmexit_Frame\<close>, \<open>Guest_Run\<close> and \<open>Vmexit_Correct\<close> give what every exit leaves alone and
    that it returns to a running guest; \<open>Sbi_Correct\<close> refines the SBI calls to a table of
    answers, \<open>Plic_Correct\<close> treats interrupts, the controller, forwarded exceptions and
    the ways a guest can stop the machine.
  \<^item> The whole: \<open>Isolation\<close> is a step relation of everything a guest can do between and
    through exits, with an invariant that confines it; \<open>Boot_Correct\<close> shows that the boot
    sequence establishes the invariant and \<open>Boot_Live\<close> that it reaches the guest, with the
    safety theorem for all runs. \<open>Link\<close> discharges the assumptions about addresses for
    images laid out by the linker script.

  \<^bold>\<open>Bounds and termination.\<close> All loops are total functions: those over ranges are
  structural or have a measure that the checked step decreases (\<open>map_loop\<close>, \<open>copy_data_loop\<close>), the
  search for an aligned root is bounded by the free frames. No fuel is used. Only
  \<open>panic\<close>, which may never end, is a partial function; \<open>panic_halts\<close> says exactly when it ends.
  A guest step is nondeterministic: any store that the second stage permits, any change
  of registers and of the CSRs the guest owns, or an exit.

  \<^bold>\<open>Not modelled.\<close> The heap (\<^verbatim>\<open>hyp_alloc/heap_allocator.rs\<close> hands an array to a crate):
  vectors and maps never run out of memory. Log output in the other components: \<open>Console\<close>
  shows that such output only adds calls of the firmware. Caches of translations, so that the
  fences have no effect; updates of accessed and dirty bits by the hardware; the
  firmware; DMA of the devices that are passed through to the guest, which no IOMMU
  confines; the words that compiled code writes to its stack, except where assembly does. That
  \<open>__alltraps\<close> is the first code in the trampoline section, as \<open>stvec\<close> presumes, is up
  to the order in which the linker meets \<^verbatim>\<open>trap.S\<close> and \<^verbatim>\<open>guest.S\<close>. Instructions are read for emulation at their
  physical address, which the hypervisor maps to itself; that read and the reads of
  the guest's page table go to addresses which the guest chooses, and the model has
  neither the fault of the hypervisor on an address that it does not map nor the
  access to a device there. The unstable sort of the virtio devices is a stable one.
  Commented-out code has no counterpart.
\<close>

end
